theory Spec2Isabelle
  imports Main "HOL-Library.Word"
begin

unbundle bit_operations_syntax

section \<open>Values of the assembler\<close>

text \<open>
  The assembler computes with C \<open>int\<close>. The model uses \<open>int\<close> and writes the 32-bit
  two's-complement wrap-around out (\<open>int32\<close>) wherever an operator can leave the range;
  signed overflow is undefined in C, the wrap-around is what the usual hosts do.
  \<open>#define UNDEF 0xff0000\<close> is the sentinel of an unresolved value.
\<close>

definition UNDEF :: int where
  "UNDEF = 0xff0000"

definition int32 :: "int \<Rightarrow> int" where
  "int32 x = signed_take_bit 31 x"

definition in_int32 :: "int \<Rightarrow> bool" where
  "in_int32 x \<longleftrightarrow> - (2 ^ 31) \<le> x \<and> x < 2 ^ 31"

definition c_bool :: "bool \<Rightarrow> int" where
  "c_bool b = (if b then 1 else 0)"

text \<open>C division truncates towards zero.\<close>

definition c_div :: "int \<Rightarrow> int \<Rightarrow> int" where
  "c_div l r = sgn l * sgn r * (\<bar>l\<bar> div \<bar>r\<bar>)"

text \<open>
  A shift count outside 0..31 is undefined in C; the model takes the count modulo 32,
  as the shift instructions of the usual hosts do. \<open>>>\<close> on a negative value is the
  arithmetic shift.
\<close>

definition c_shl :: "int \<Rightarrow> int \<Rightarrow> int" where
  "c_shl l r = int32 (push_bit (nat (r mod 32)) l)"

definition c_shr :: "int \<Rightarrow> int \<Rightarrow> int" where
  "c_shr l r = drop_bit (nat (r mod 32)) l"

section \<open>Errors\<close>

text \<open>
  \<open>Exit m\<close> is \<open>exit(1)\<close> after the error message \<open>m\<close>; \<open>Undefined_Behaviour\<close> marks
  what C leaves undefined (an index outside an array, a pointer past a terminator, a
  library call outside its domain, a quotient that \<open>int\<close> cannot hold);
  \<open>Out_Of_Fuel\<close> is a loop the model gave up on.
\<close>

datatype error = Exit string | Undefined_Behaviour string | Out_Of_Fuel

definition bindE :: "error + 'a \<Rightarrow> ('a \<Rightarrow> error + 'b) \<Rightarrow> error + 'b" where
  "bindE m f = (case m of Inl e \<Rightarrow> Inl e | Inr x \<Rightarrow> f x)"

section \<open>Operators of the expression evaluator\<close>

subsection \<open>Unary operators: the assignment each \<open>op_xxx\<close> makes to its operand\<close>

text \<open>
  \<open>op_plu\<close> .. \<open>op_hig\<close> first evaluate their operand with \<open>EvalOperand(p+1,v,12)\<close>
  and then assign to \<open>*v\<close>; the functions below are those assignments.
\<close>

definition op_plu :: "int \<Rightarrow> int" where
  "op_plu v = v"

definition op_min :: "int \<Rightarrow> int" where
  "op_min v = int32 (- v)"

definition op_lno :: "int \<Rightarrow> int" where
  "op_lno v = c_bool (v = 0)"

definition op_bno :: "int \<Rightarrow> int" where
  "op_bno v = NOT v"

definition op_low :: "int \<Rightarrow> int" where
  "op_low v = (if v \<noteq> UNDEF then v AND 0xff else v)"

definition op_hig :: "int \<Rightarrow> int" where
  "op_hig v = (if v \<noteq> UNDEF then c_shr v 8 else v)"

subsection \<open>Binary operators\<close>

text \<open>
  The functions \<open>int op_xxx(int l, int r)\<close> behind the pointer \<open>foo\<close> of the table. They
  return a value, except that \<open>l / r\<close> has no value when the quotient does not fit
  \<open>int\<close>, which is \<open>INT_MIN / -1\<close>: C leaves it undefined, and the division instruction
  of the usual hosts traps, which ends the program.
\<close>

definition op_mul :: "int \<Rightarrow> int \<Rightarrow> error + int" where
  "op_mul l r = Inr (int32 (l * r))"

definition op_div :: "int \<Rightarrow> int \<Rightarrow> error + int" where
  "op_div l r =
    (if r \<noteq> 0 then
       (if in_int32 (c_div l r) then Inr (c_div l r)
        else Inl (Undefined_Behaviour ''division: quotient out of range''))
     else Inr UNDEF)"

definition op_add :: "int \<Rightarrow> int \<Rightarrow> error + int" where
  "op_add l r = Inr (int32 (l + r))"

definition op_sub :: "int \<Rightarrow> int \<Rightarrow> error + int" where
  "op_sub l r = Inr (int32 (l - r))"

definition op_asl :: "int \<Rightarrow> int \<Rightarrow> error + int" where
  "op_asl l r = Inr (c_shl l r)"

definition op_lsr :: "int \<Rightarrow> int \<Rightarrow> error + int" where
  "op_lsr l r = Inr (c_shr l r)"

definition op_cle :: "int \<Rightarrow> int \<Rightarrow> error + int" where
  "op_cle l r = Inr (c_bool (l \<le> r))"

definition op_clt :: "int \<Rightarrow> int \<Rightarrow> error + int" where
  "op_clt l r = Inr (c_bool (l < r))"

definition op_cge :: "int \<Rightarrow> int \<Rightarrow> error + int" where
  "op_cge l r = Inr (c_bool (l \<ge> r))"

definition op_cgt :: "int \<Rightarrow> int \<Rightarrow> error + int" where
  "op_cgt l r = Inr (c_bool (l > r))"

definition op_ceq :: "int \<Rightarrow> int \<Rightarrow> error + int" where
  "op_ceq l r = Inr (c_bool (l = r))"

definition op_cne :: "int \<Rightarrow> int \<Rightarrow> error + int" where
  "op_cne l r = Inr (c_bool (l \<noteq> r))"

definition op_xor :: "int \<Rightarrow> int \<Rightarrow> error + int" where
  "op_xor l r = Inr (l XOR r)"

definition op_and :: "int \<Rightarrow> int \<Rightarrow> error + int" where
  "op_and l r = Inr (c_bool (l \<noteq> 0 \<and> r \<noteq> 0))"

definition op_bnd :: "int \<Rightarrow> int \<Rightarrow> error + int" where
  "op_bnd l r = Inr (l AND r)"

definition op_lor :: "int \<Rightarrow> int \<Rightarrow> error + int" where
  "op_lor l r = Inr (c_bool (l \<noteq> 0 \<or> r \<noteq> 0))"

definition op_bor :: "int \<Rightarrow> int \<Rightarrow> error + int" where
  "op_bor l r = Inr (l OR r)"

text \<open>\<open>struct binop_struct\<close> and the table \<open>binop[BINOPS]\<close>, in the order of the source.\<close>

record binop_struct =
  op :: string
  prio :: int
  foo :: "int \<Rightarrow> int \<Rightarrow> error + int"

definition BINOPS :: nat where
  "BINOPS = 17"

definition binop :: "binop_struct list" where
  "binop =
    [\<lparr>op = ''*'',  prio = 11, foo = op_mul\<rparr>,
     \<lparr>op = ''/'',  prio = 11, foo = op_div\<rparr>,
     \<lparr>op = ''+'',  prio = 10, foo = op_add\<rparr>,
     \<lparr>op = ''-'',  prio = 10, foo = op_sub\<rparr>,
     \<lparr>op = ''<<'', prio = 9,  foo = op_asl\<rparr>,
     \<lparr>op = ''>>'', prio = 9,  foo = op_lsr\<rparr>,
     \<lparr>op = ''<='', prio = 8,  foo = op_cle\<rparr>,
     \<lparr>op = ''<'',  prio = 8,  foo = op_clt\<rparr>,
     \<lparr>op = ''>='', prio = 8,  foo = op_cge\<rparr>,
     \<lparr>op = ''>'',  prio = 8,  foo = op_cgt\<rparr>,
     \<lparr>op = ''=='', prio = 7,  foo = op_ceq\<rparr>,
     \<lparr>op = ''!='', prio = 7,  foo = op_cne\<rparr>,
     \<lparr>op = ''^'',  prio = 5,  foo = op_xor\<rparr>,
     \<lparr>op = ''&&'', prio = 3,  foo = op_and\<rparr>,
     \<lparr>op = ''&'',  prio = 6,  foo = op_bnd\<rparr>,
     \<lparr>op = ''||'', prio = 2,  foo = op_lor\<rparr>,
     \<lparr>op = ''|'',  prio = 4,  foo = op_bor\<rparr>]"

text \<open>
  The application of a binary operator in \<open>EvalOperand\<close>:
  \<^verbatim>\<open>if (*v == UNDEF || w == UNDEF) *v = UNDEF; else *v = binop[i].foo(*v,w);\<close>
\<close>

definition apply_binop :: "binop_struct \<Rightarrow> int \<Rightarrow> int \<Rightarrow> error + int" where
  "apply_binop b v w = (if v = UNDEF \<or> w = UNDEF then Inr UNDEF else foo b v w)"


section \<open>Characters and C strings\<close>

text \<open>
  A C string is modelled by the list of its characters before the terminating NUL;
  \<open>peek\<close> reads \<open>*p\<close> (NUL at the end) and \<open>tl\<close> is \<open>p+1\<close>. Where the source moves
  a pointer past the terminator the model stops with \<open>Undefined_Behaviour\<close>.
  The character classes are those of \<open><ctype.h>\<close> in the C locale.
\<close>

definition peek :: "string \<Rightarrow> char" where
  "peek p = (case p of [] \<Rightarrow> CHR 0x00 | c # _ \<Rightarrow> c)"

definition ord :: "char \<Rightarrow> nat" where
  "ord c = of_char c"

definition isspace :: "char \<Rightarrow> bool" where
  "isspace c \<longleftrightarrow> ord c = 32 \<or> (9 \<le> ord c \<and> ord c \<le> 13)"

definition isdigit :: "char \<Rightarrow> bool" where
  "isdigit c \<longleftrightarrow> 48 \<le> ord c \<and> ord c \<le> 57"

definition isupper :: "char \<Rightarrow> bool" where
  "isupper c \<longleftrightarrow> 65 \<le> ord c \<and> ord c \<le> 90"

definition islower :: "char \<Rightarrow> bool" where
  "islower c \<longleftrightarrow> 97 \<le> ord c \<and> ord c \<le> 122"

definition isalpha :: "char \<Rightarrow> bool" where
  "isalpha c \<longleftrightarrow> isupper c \<or> islower c"

definition isalnum :: "char \<Rightarrow> bool" where
  "isalnum c \<longleftrightarrow> isalpha c \<or> isdigit c"

definition isxdigit :: "char \<Rightarrow> bool" where
  "isxdigit c \<longleftrightarrow> isdigit c \<or> (65 \<le> ord c \<and> ord c \<le> 70) \<or> (97 \<le> ord c \<and> ord c \<le> 102)"

definition tolower :: "char \<Rightarrow> nat" where
  "tolower c = (if isupper c then ord c + 32 else ord c)"

definition toupper :: "char \<Rightarrow> nat" where
  "toupper c = (if islower c then ord c - 32 else ord c)"

text \<open>The value of a \<open>char\<close> read as \<open>int\<close> (\<open>char\<close> is signed on the usual hosts).\<close>

definition char_val :: "char \<Rightarrow> int" where
  "char_val c = (if ord c < 128 then int (ord c) else int (ord c) - 256)"

definition digit_val :: "char \<Rightarrow> nat" where
  "digit_val c =
    (if isdigit c then ord c - 48
     else if islower c then ord c - 87
     else ord c - 55)"

text \<open>The value of a digit string in a base (most significant digit first).\<close>

definition digits_val :: "nat \<Rightarrow> string \<Rightarrow> nat" where
  "digits_val base ds = foldl (\<lambda>a c. a * base + digit_val c) 0 ds"

text \<open>\<open>strchr(p,c)\<close> for \<open>c\<close> other than NUL: the suffix at the first \<open>c\<close>, or NULL.\<close>

definition strchr :: "string \<Rightarrow> char \<Rightarrow> string option" where
  "strchr p c = (case dropWhile (\<lambda>x. x \<noteq> c) p of [] \<Rightarrow> None | q \<Rightarrow> Some q)"

text \<open>\<open>strncmp(p,s,strlen(s)) == 0\<close>.\<close>

definition starts_with :: "string \<Rightarrow> string \<Rightarrow> bool" where
  "starts_with p s \<longleftrightarrow> take (length s) p = s"

text \<open>
  The source's own \<open>Strcasecmp\<close> and \<open>Strncasecmp\<close>: the loop compares the lowered
  characters at \<open>i = 0, 1, ...\<close> while \<open>i\<close> is at most both lengths (so the terminator
  takes part) and, for the second, below \<open>n\<close>.
\<close>

fun Strncasecmp :: "string \<Rightarrow> string \<Rightarrow> nat \<Rightarrow> int" where
  "Strncasecmp s1 s2 0 = 0"
| "Strncasecmp s1 s2 (Suc n) =
    (if tolower (peek s1) > tolower (peek s2) then 1
     else if tolower (peek s1) < tolower (peek s2) then -1
     else if s1 = [] \<or> s2 = [] then 0
     else Strncasecmp (tl s1) (tl s2) n)"

definition Strcasecmp :: "string \<Rightarrow> string \<Rightarrow> int" where
  "Strcasecmp s1 s2 = Strncasecmp s1 s2 (Suc (max (length s1) (length s2)))"

definition strcmp_eq :: "string \<Rightarrow> string \<Rightarrow> bool" where
  "strcmp_eq s1 s2 \<longleftrightarrow> s1 = s2"

text \<open>\<open>p + k\<close>, which must not pass the terminator.\<close>

definition advance :: "nat \<Rightarrow> string \<Rightarrow> error + string" where
  "advance k p =
    (if k \<le> length p then Inr (drop k p)
     else Inl (Undefined_Behaviour ''pointer past the end of the line''))"

section \<open>The assembler state\<close>

type_synonym byte = "8 word"

definition MAXPASS :: int where
  "MAXPASS = 20"

text \<open>\<open>int MaxPass = MAXPASS;\<close> is never assigned again.\<close>

definition MaxPass :: int where
  "MaxPass = MAXPASS"

definition MAXLAB :: int where
  "MAXLAB = 8000"

definition LDEF :: int where "LDEF = 20"
definition LBSS :: int where "LBSS = 21"
definition LPOS :: int where "LPOS = 22"

definition AM_None :: int where "AM_None = -1"
definition AM_Dpag :: int where "AM_Dpag = 0"
definition AM_Abso :: int where "AM_Abso = 1"
definition AM_Dpgx :: int where "AM_Dpgx = 2"
definition AM_Absx :: int where "AM_Absx = 3"
definition AM_Indx :: int where "AM_Indx = 4"
definition AM_Imme :: int where "AM_Imme = 5"
definition AM_Indy :: int where "AM_Indy = 6"
definition AM_Absy :: int where "AM_Absy = 7"
definition AM_Indz :: int where "AM_Indz = 8"
definition AM_Rela :: int where "AM_Rela = 9"
definition AM_Relo :: int where "AM_Relo = 10"
definition AM_Bits :: int where "AM_Bits = 11"
definition AM_Impl :: int where "AM_Impl = 12"

definition CPU_6502 :: int where "CPU_6502 = 1"
definition CPU_65SC02 :: int where "CPU_65SC02 = 2"
definition CPU_65C02 :: int where "CPU_65C02 = 4"
definition CPU_45GS02 :: int where "CPU_45GS02 = 8"
definition CPU_65816 :: int where "CPU_65816 = 16"

text \<open>
  \<open>struct LabelStruct\<close>. \<open>Ref\<close> and \<open>Att\<close> are the allocated arrays, of \<open>NumRef + 1\<close>
  entries.
\<close>

record LabelStruct =
  Name :: string
  Address :: int
  Bytes :: int
  Paired :: int
  Locked :: int
  NumRef :: int
  Ref :: "int list"
  Att :: "int list"

text \<open>
  The global variables the modelled functions read or write. \<open>lab\<close> holds the first
  \<open>Labels\<close> entries of the array \<open>lab[MAXLAB]\<close>, so \<open>Labels\<close> is its length. \<open>ROM\<close> is
  the image, indexed \<open>0 .. 0x100ff\<close>. Output to the listing, the debug file and the
  console is not modelled.
\<close>

record asm =
  Pass :: int
  pc :: int
  bp :: int
  bss :: int
  ROM :: "int \<Rightarrow> byte"
  lab :: "LabelStruct list"
  BOC :: "int list"
  IfLevel :: int
  Skipping :: int
  SkipLine :: "int list"
  ErrNum :: int
  Scope :: string
  BSO_Mode :: bool
  IgnoreCase :: bool
  unastring :: string
  unaops :: nat
  LiNo :: int
  am :: int
  oc :: int
  il :: int
  ml :: int
  o16 :: int
  GenIndex :: int
  CPU_Type :: int
  BranchOpt :: bool
  NegNeg :: bool
  PreNop :: bool
  ModuleStart :: int
  LoadAddress :: int
  GenStart :: int
  Label :: string
  Operand :: string
  Line :: string

definition Labels :: "asm \<Rightarrow> int" where
  "Labels st = int (length (lab st))"

definition ROM_SIZE :: int where
  "ROM_SIZE = 0x10100"

text \<open>\<open>ROM[a] = v\<close>, the value converted to \<open>unsigned char\<close>.\<close>

definition ROM_store :: "int \<Rightarrow> int \<Rightarrow> asm \<Rightarrow> error + asm" where
  "ROM_store a v st =
    (if 0 \<le> a \<and> a < ROM_SIZE then Inr (st\<lparr>ROM := (ROM st)(a := word_of_int v)\<rparr>)
     else Inl (Undefined_Behaviour ''ROM index out of range''))"

section \<open>Scanning symbols\<close>

definition SkipSpace :: "string \<Rightarrow> string" where
  "SkipSpace p = dropWhile isspace p"

definition isym :: "string \<Rightarrow> bool" where
  "isym c \<longleftrightarrow>
    peek c = CHR ''_'' \<or> peek c = CHR ''$'' \<or> peek c = CHR ''.'' \<or> isalnum (peek c)
    \<or> (peek c = CHR ''@'' \<and> isalpha (peek (tl c)))"

definition isnnd :: "string \<Rightarrow> bool" where
  "isnnd p \<longleftrightarrow>
    (case strchr p (CHR ''$'') of None \<Rightarrow> False
     | Some dollar \<Rightarrow> list_all isdigit (take (length p - length dollar) p))"

text \<open>The loop \<open>while (isym(p)) *s++ = *p++;\<close> returns the rest and the copied characters.\<close>

fun copy_sym :: "string \<Rightarrow> string \<times> string" where
  "copy_sym [] = ([], [])"
| "copy_sym (c # cs) =
    (if isym (c # cs) then (let (r, s) = copy_sym cs in (r, c # s)) else (c # cs, []))"

text \<open>
  \<open>GetSymbol(p,s)\<close>: the pair of the returned pointer and the symbol written to \<open>s\<close>
  (the buffers of 256 characters are taken to be large enough).
\<close>

definition GetSymbol :: "string \<Rightarrow> asm \<Rightarrow> string \<times> string" where
  "GetSymbol p st =
    (if isnnd p then
       (let n = length (takeWhile (\<lambda>x. x \<noteq> CHR ''$'') p)
        in (drop (Suc n) p,
            (if Scope st \<noteq> [] then Scope st @ ''_'' else []) @ take (Suc n) p))
     else if \<not> BSO_Mode st \<and> (peek p = CHR ''.'' \<or> peek p = CHR ''_'') \<and> Scope st \<noteq> [] then
       (let (r, s) = copy_sym (tl p) in (r, Scope st @ [peek p] @ s))
     else copy_sym p)"

text \<open>\<open>StrCmp\<close> as a truth value: true when the C function returns a non-zero value.\<close>

definition StrCmp :: "asm \<Rightarrow> string \<Rightarrow> string \<Rightarrow> bool" where
  "StrCmp st s1 s2 \<longleftrightarrow> (if IgnoreCase st then Strcasecmp s1 s2 \<noteq> 0 else \<not> strcmp_eq s1 s2)"

text \<open>The first index \<open>i < Labels\<close> with \<open>!StrCmp(p,lab[i].Name)\<close>.\<close>

fun find_label :: "asm \<Rightarrow> string \<Rightarrow> LabelStruct list \<Rightarrow> nat \<Rightarrow> nat option" where
  "find_label st s [] i = None"
| "find_label st s (l # ls) i = (if \<not> StrCmp st s (Name l) then Some i else find_label st s ls (Suc i))"

definition LabelIndex :: "string \<Rightarrow> asm \<Rightarrow> int" where
  "LabelIndex p st = (case find_label st p (lab st) 0 of None \<Rightarrow> -1 | Some i \<Rightarrow> int i)"

definition new_label :: "string \<Rightarrow> int \<Rightarrow> int \<Rightarrow> int \<Rightarrow> LabelStruct" where
  "new_label n a r t =
    \<lparr>Name = n, Address = a, Bytes = 0, Paired = 0, Locked = 0, NumRef = 0, Ref = [r], Att = [t]\<rparr>"

definition AddLabel :: "string \<Rightarrow> asm \<Rightarrow> error + asm" where
  "AddLabel p st =
    (if Labels st > MAXLAB - 2 then Inl (Exit ''Too many labels'')
     else Inr (st\<lparr>lab := lab st @ [new_label p UNDEF (LiNo st) 0]\<rparr>))"

definition SymRefs :: "nat \<Rightarrow> asm \<Rightarrow> asm" where
  "SymRefs i st =
    (if Pass st \<noteq> MaxPass then st
     else st\<lparr>lab := (lab st)[i := (lab st ! i)
            \<lparr>NumRef := NumRef (lab st ! i) + 1,
             Ref := Ref (lab st ! i) @ [LiNo st],
             Att := Att (lab st ! i) @ [am st]\<rparr>]\<rparr>)"

definition EvalSymValue :: "string \<Rightarrow> asm \<Rightarrow> error + (string \<times> int \<times> asm)" where
  "EvalSymValue p0 st =
    (let (p, Sym) = GetSymbol p0 st in
     case find_label st Sym (lab st) 0 of
       Some i \<Rightarrow>
         (let v = Address (lab st ! i); st1 = SymRefs i st in
          if Pass st = MaxPass \<and> v = UNDEF then Inl (Exit (Name (lab st ! i) @ '' = UNDEFINED''))
          else Inr (p, v, st1))
     | None \<Rightarrow> bindE (AddLabel Sym st) (\<lambda>st1. Inr (p, UNDEF, st1)))"

definition EvalSymBytes :: "string \<Rightarrow> asm \<Rightarrow> error + (string \<times> int \<times> asm)" where
  "EvalSymBytes p0 st =
    (let (p, Sym) = GetSymbol p0 st in
     case find_label st Sym (lab st) 0 of
       Some i \<Rightarrow> Inr (p, Bytes (lab st ! i), SymRefs i st)
     | None \<Rightarrow> bindE (AddLabel Sym st) (\<lambda>st1. Inr (p, UNDEF, st1)))"

section \<open>The expression evaluator\<close>

subsection \<open>Constants\<close>

text \<open>
  \<open>atoi\<close> and \<open>sscanf\<close> with \<open>%x\<close> or \<open>%o\<close>: white space, an optional sign, for \<open>%x\<close> an
  optional \<open>0x\<close>, then the digits. A value that does not fit the result type, and a
  conversion that matches nothing (the source then reads the uninitialised \<open>w\<close>), are
  undefined in C.
\<close>

definition atoi :: "string \<Rightarrow> error + int" where
  "atoi p =
    (let q = dropWhile isspace p;
         r = (if peek q = CHR ''-'' \<or> peek q = CHR ''+'' then tl q else q);
         n = int (digits_val 10 (takeWhile isdigit r));
         v = (if peek q = CHR ''-'' then - n else n)
     in if in_int32 v then Inr v else Inl (Undefined_Behaviour ''atoi: value out of range''))"

definition isodigit :: "char \<Rightarrow> bool" where
  "isodigit c \<longleftrightarrow> 48 \<le> ord c \<and> ord c \<le> 55"

definition sscanf_unsigned :: "nat \<Rightarrow> string \<Rightarrow> error + int" where
  "sscanf_unsigned base p =
    (let q = dropWhile isspace p;
         r = (if peek q = CHR ''-'' \<or> peek q = CHR ''+'' then tl q else q);
         r1 = (if base = 16 \<and> peek r = CHR ''0'' \<and> (peek (tl r) = CHR ''x'' \<or> peek (tl r) = CHR ''X'')
               then tl (tl r) else r);
         ds = takeWhile (if base = 16 then isxdigit else isodigit) r1;
         n = int (digits_val base ds);
         w = (if peek q = CHR ''-'' then (- n) mod 2 ^ 32 else n)
     in if ds = [] then Inl (Undefined_Behaviour ''sscanf: no digits, value not assigned'')
        else if n \<ge> 2 ^ 32 then Inl (Undefined_Behaviour ''sscanf: value out of range'')
        else Inr (int32 w))"

definition EvalDecValue :: "string \<Rightarrow> asm \<Rightarrow> error + (string \<times> int \<times> asm)" where
  "EvalDecValue p st =
    bindE (atoi p) (\<lambda>v.
      let q = dropWhile isdigit p in
      if \<not> isalpha (peek q) then Inr (q, v, st)
      else if isxdigit (peek q)
        then Inl (Exit ''Wrong decimal constant or leading $ for hex missing'')
        else Inl (Exit ''Illegal character in decimal constant''))"

definition escape_val :: "char \<Rightarrow> int" where
  "escape_val c =
    (if c = CHR ''r'' then 13
     else if c = CHR ''n'' then 10
     else if c = CHR ''a'' then 7
     else if c = CHR ''e'' then 27
     else if c = CHR ''0'' then 0
     else char_val c)"

definition EvalCharValue :: "string \<Rightarrow> asm \<Rightarrow> error + (string \<times> int \<times> asm)" where
  "EvalCharValue p st =
    (if p = [] \<or> peek p = CHR '' '' then Inr ([], 32, st)
     else if peek p = CHR 0x5C \<and> tl p = []
       then Inl (Undefined_Behaviour ''pointer past the end of the line'')
     else
       (let v = (if peek p = CHR 0x5C then escape_val (peek (tl p)) else char_val (peek p));
            q = (if peek p = CHR 0x5C then tl (tl p) else tl p)
        in if peek q \<noteq> CHR 0x27 \<and> q \<noteq> []
             then Inl (Exit ''Missing delimiter after character operand'')
           else if q = [] then Inl (Undefined_Behaviour ''pointer past the end of the line'')
           else Inr (tl q, v, st)))"

definition EvalHexValue :: "string \<Rightarrow> asm \<Rightarrow> error + (string \<times> int \<times> asm)" where
  "EvalHexValue p st = bindE (sscanf_unsigned 16 p) (\<lambda>w. Inr (dropWhile isxdigit p, w, st))"

definition EvalOctValue :: "string \<Rightarrow> asm \<Rightarrow> error + (string \<times> int \<times> asm)" where
  "EvalOctValue p st = bindE (sscanf_unsigned 8 p) (\<lambda>w. Inr (dropWhile isxdigit p, w, st))"

fun EvalBinLoop :: "string \<Rightarrow> int \<Rightarrow> string \<times> int" where
  "EvalBinLoop [] r = ([], r)"
| "EvalBinLoop (c # cs) r =
    (if c = CHR '' '' \<or> c = CHR ''1'' \<or> c = CHR ''0'' \<or> c = CHR ''*'' \<or> c = CHR ''.'' then
       EvalBinLoop cs
         (if c = CHR ''1'' \<or> c = CHR ''*'' then int32 (2 * r + 1)
          else if c = CHR ''0'' \<or> c = CHR ''.'' then int32 (2 * r)
          else r)
     else (c # cs, r))"

definition EvalBinValue :: "string \<Rightarrow> asm \<Rightarrow> error + (string \<times> int \<times> asm)" where
  "EvalBinValue p st = (let (q, r) = EvalBinLoop p 0 in Inr (q, r, st))"

subsection \<open>The table of unary operators\<close>

text \<open>
  \<open>unaop[UNAOPS]\<close> pairs a character with a function pointer; the model names the
  functions by a datatype. \<open>unastring\<close> and \<open>unaops\<close> are variables: \<open>main\<close> enables the
  last entry (octal constants) in BSO mode.
\<close>

datatype unaop_foo =
  Op_par | Op_plu | Op_min | Op_lno | Op_bno | Op_low | Op_hig
  | Op_prc | Op_hex | Op_cha | Op_bin | Op_len | Op_oct

definition UNAOPS :: nat where
  "UNAOPS = 14"

definition unaop :: "(char \<times> unaop_foo) list" where
  "unaop =
    [(CHR ''['', Op_par), (CHR ''('', Op_par), (CHR ''+'', Op_plu), (CHR ''-'', Op_min),
     (CHR ''!'', Op_lno), (CHR ''~'', Op_bno), (CHR ''<'', Op_low), (CHR ''>'', Op_hig),
     (CHR ''*'', Op_prc), (CHR ''$'', Op_hex), (CHR 0x27, Op_cha), (CHR ''%'', Op_bin),
     (CHR ''?'', Op_len), (CHR ''@'', Op_oct)]"

definition unastring_default :: string where
  "unastring_default = ''[(+-!~<>*$'' @ [CHR 0x27] @ ''%?''"

text \<open>The assignment to \<open>*v\<close> that the one-line operators make after evaluating their operand.\<close>

definition una_assign :: "unaop_foo \<Rightarrow> int \<Rightarrow> int" where
  "una_assign f v =
    (case f of Op_plu \<Rightarrow> op_plu v | Op_min \<Rightarrow> op_min v | Op_lno \<Rightarrow> op_lno v
     | Op_bno \<Rightarrow> op_bno v | Op_low \<Rightarrow> op_low v | Op_hig \<Rightarrow> op_hig v | _ \<Rightarrow> v)"

text \<open>The first operator of the table whose text starts the string (the \<open>for\<close> loop with \<open>strncmp\<close>).\<close>

definition find_binop :: "string \<Rightarrow> binop_struct option" where
  "find_binop p = find (\<lambda>b. starts_with p (op b)) binop"

subsection \<open>\<open>EvalOperand\<close>\<close>

text \<open>
  \<open>EvalOperand(p,v,prio)\<close> returns the rest of the text, the value and the state. The
  first argument bounds the depth of the calls and the iterations of the loop over the
  binary operators; that loop does not advance when the text starts with one of
  \<open>=*/+-<>!&^|\<close> and no operator of the table, and then the source never returns.
\<close>

fun EvalOperand :: "nat \<Rightarrow> string \<Rightarrow> int \<Rightarrow> asm \<Rightarrow> error + (string \<times> int \<times> asm)"
  and call_unaop :: "nat \<Rightarrow> unaop_foo \<Rightarrow> string \<Rightarrow> asm \<Rightarrow> error + (string \<times> int \<times> asm)"
  and binop_loop :: "nat \<Rightarrow> string \<Rightarrow> int \<Rightarrow> int \<Rightarrow> asm \<Rightarrow> error + (string \<times> int \<times> asm)"
where
  "EvalOperand 0 p0 pr st = Inl Out_Of_Fuel"
| "EvalOperand (Suc n) p0 pr st =
    (let p = SkipSpace p0 in
     if peek p = CHR '','' then Inr (p, UNDEF, st)
     else
       bindE
         (if p \<noteq> [] \<and> peek p \<in> set (unastring st) then
            (case map_of (take (unaops st) unaop) (peek p) of
               None \<Rightarrow> Inr (p, UNDEF, st)
             | Some f \<Rightarrow> call_unaop n f p st)
          else if isdigit (peek p) \<and> \<not> isnnd p then EvalDecValue p st
          else if isym p \<or> isnnd p then EvalSymValue p st
          else Inl (Exit ''Illegal operand''))
         (\<lambda>(p1, v, st1). binop_loop n (SkipSpace p1) v pr st1))"
| "call_unaop 0 f p st = Inl Out_Of_Fuel"
| "call_unaop (Suc n) f p st =
    (case f of
       Op_par \<Rightarrow>
         bindE (EvalOperand n (tl p) 0 st) (\<lambda>(p1, v, st1).
           case strchr p1 (if peek p = CHR ''['' then CHR '']'' else CHR '')'') of
             None \<Rightarrow> Inl (Exit ''Missing closing bracket'')
           | Some q \<Rightarrow> Inr (tl q, v, st1))
     | Op_prc \<Rightarrow> Inr (tl p, pc st, st)
     | Op_hex \<Rightarrow> EvalHexValue (tl p) st
     | Op_oct \<Rightarrow> EvalOctValue (tl p) st
     | Op_cha \<Rightarrow> EvalCharValue (tl p) st
     | Op_bin \<Rightarrow> EvalBinValue (tl p) st
     | Op_len \<Rightarrow> EvalSymBytes (tl p) st
     | _ \<Rightarrow> bindE (EvalOperand n (tl p) 12 st) (\<lambda>(p1, v, st1). Inr (p1, una_assign f v, st1)))"
| "binop_loop 0 p v pr st = Inl Out_Of_Fuel"
| "binop_loop (Suc n) p v pr st =
    (if p \<noteq> [] \<and> peek p \<in> set ''=*/+-<>!&^|'' then
       (case find_binop p of
          None \<Rightarrow> binop_loop n p v pr st
        | Some b \<Rightarrow>
            if prio b \<le> pr then Inr (p, v, st)
            else bindE (EvalOperand n (drop (length (op b)) p) (prio b) st) (\<lambda>(p1, w, st1).
                   bindE (apply_binop b v w) (\<lambda>v1. binop_loop n p1 v1 pr st1)))
     else Inr (p, v, st))"

text \<open>The fuel the examples use: more than any line of 256 characters needs.\<close>

definition FUEL :: nat where
  "FUEL = 600"

section \<open>Data directives\<close>

text \<open>The length 256 of the line buffers (the macro of the source is named by a reserved word here).\<close>

definition LINE_LEN :: nat where
  "LINE_LEN = 256"

definition SkipToComma :: "string \<Rightarrow> string" where
  "SkipToComma p = dropWhile (\<lambda>c. c \<noteq> CHR '','' \<and> c \<noteq> CHR '';'') p"

text \<open>\<open>ByteBuffer[l++] = v\<close> on the local \<open>ByteBuffer\<close>, kept as the list of its first \<open>l\<close> bytes.\<close>

definition push_byte :: "byte list \<Rightarrow> int \<Rightarrow> error + byte list" where
  "push_byte buf v =
    (if length buf < LINE_LEN then Inr (buf @ [word_of_int v])
     else Inl (Undefined_Behaviour ''ByteBuffer index out of range''))"

text \<open>\<open>for (i=0 ; i < l ; ++i) ROM[pc+i] = ByteBuffer[i];\<close>\<close>

fun store_bytes :: "int \<Rightarrow> byte list \<Rightarrow> asm \<Rightarrow> error + asm" where
  "store_bytes a [] st = Inr st"
| "store_bytes a (b # bs) st = bindE (ROM_store a (uint b) st) (store_bytes (a + 1) bs)"

text \<open>
  \<open>j = AddressIndex(pc)\<close> and the loop that follows give every label whose address is
  \<open>pc\<close> the length \<open>l\<close> of the data.
\<close>

definition set_Bytes :: "int \<Rightarrow> asm \<Rightarrow> asm" where
  "set_Bytes l st =
    st\<lparr>lab := map (\<lambda>e. if Address e = pc st then e\<lparr>Bytes := l\<rparr> else e) (lab st)\<rparr>"

text \<open>What the data directives do with the buffer once the line is parsed.\<close>

definition emit_data :: "byte list \<Rightarrow> asm \<Rightarrow> error + asm" where
  "emit_data buf st =
    bindE (if Pass st = MaxPass then store_bytes (pc st) buf (set_Bytes (int (length buf)) st)
           else Inr (set_Bytes (int (length buf)) st))
      (\<lambda>st1. Inr (st1\<lparr>pc := int32 (pc st1 + int (length buf))\<rparr>))"

subsection \<open>\<open>ParseWordData\<close>\<close>

text \<open>The two bytes one value adds to the buffer.\<close>

definition word_bytes :: "bool \<Rightarrow> int \<Rightarrow> int list" where
  "word_bytes bigendian v = (if bigendian then [c_shr v 8, v AND 0xff] else [v AND 0xff, c_shr v 8])"

fun word_loop :: "nat \<Rightarrow> bool \<Rightarrow> string \<Rightarrow> byte list \<Rightarrow> asm \<Rightarrow> error + (string \<times> byte list \<times> asm)" where
  "word_loop 0 be p buf st = Inl Out_Of_Fuel"
| "word_loop (Suc n) be p buf st =
    (if p \<noteq> [] \<and> peek p \<noteq> CHR '';'' then
       bindE (EvalOperand FUEL (SkipSpace p) 0 st) (\<lambda>(p1, v, st1).
         if v = UNDEF \<and> Pass st1 = MaxPass then Inl (Exit ''Undefined symbol in WORD data'')
         else
           bindE (push_byte buf (word_bytes be v ! 0)) (\<lambda>buf1.
           bindE (push_byte buf1 (word_bytes be v ! 1)) (\<lambda>buf2.
             let p2 = SkipToComma p1 in
             word_loop n be (if peek p2 = CHR '','' then tl p2 else p2) buf2 st1)))
     else Inr (p, buf, st))"

definition ParseWordData :: "string \<Rightarrow> bool \<Rightarrow> asm \<Rightarrow> error + (string \<times> asm)" where
  "ParseWordData p bigendian st =
    bindE (word_loop FUEL bigendian p [] st) (\<lambda>(p1, buf, st1).
      if length buf < 1 then Inl (Exit ''Missing WORD data'')
      else bindE (emit_data buf st1) (\<lambda>st2. Inr (p1, st2)))"

subsection \<open>\<open>ParseByteData\<close>\<close>

definition ASCII :: int where "ASCII = 0"
definition PETSCII :: int where "PETSCII = 1"
definition SCREENCODE :: int where "SCREENCODE = 2"

text \<open>\<open>p[i]\<close> for an index up to the terminator.\<close>

definition at :: "string \<Rightarrow> nat \<Rightarrow> char" where
  "at p i = peek (drop i p)"

text \<open>
  The loop of \<open>ParseASCII\<close>; \<open>d\<close> is the delimiter. A backslash as the last character
  of the line moves the pointer past the terminator.
\<close>

function ASCII_loop :: "char \<Rightarrow> string \<Rightarrow> byte list \<Rightarrow> error + (string \<times> byte list)" where
  "ASCII_loop d p buf =
    (if p \<noteq> [] \<and> (peek p \<noteq> d \<or> at p 1 = peek p) \<and> length buf < LINE_LEN - 1 then
       (if peek p = CHR 0x5C then
          (if tl p = [] then Inl (Undefined_Behaviour ''pointer past the end of the line'')
           else ASCII_loop d (tl (tl p)) (buf @ [word_of_int (escape_val (at p 1))]))
        else if peek p = CHR 0x27 \<and> at p 1 = CHR 0x27 then
          ASCII_loop d (tl (tl p)) (buf @ [word_of_int (char_val (peek p))])
        else ASCII_loop d (tl p) (buf @ [word_of_int (char_val (peek p))]))
     else Inr (p, buf))"
  by pat_completeness auto
termination
  by (relation "measure (\<lambda>(d, p, buf). length p)") (auto simp: neq_Nil_conv)

text \<open>\<open>b[(*l)-1] |= 0x80\<close>\<close>

definition set_bit7_last :: "byte list \<Rightarrow> error + byte list" where
  "set_bit7_last buf =
    (if buf = [] then Inl (Undefined_Behaviour ''ByteBuffer index out of range'')
     else Inr (butlast buf @ [last buf OR 0x80]))"

definition ParseASCII :: "string \<Rightarrow> byte list \<Rightarrow> error + (string \<times> byte list)" where
  "ParseASCII p buf =
    bindE (ASCII_loop (peek p) (tl p) buf) (\<lambda>(p1, buf1).
      let p2 = (if p1 \<noteq> [] \<and> peek p1 = peek p then tl p1 else p1) in
      bindE (if peek p2 = CHR ''^'' then bindE (set_bit7_last buf1) (\<lambda>b. Inr (tl p2, b))
             else Inr (p2, buf1)) (\<lambda>(p3, buf3).
        if starts_with p3 ''+$80'' then bindE (set_bit7_last buf3) (\<lambda>b. Inr (drop 4 p3, b))
        else Inr (p3, buf3)))"

definition to_petscii :: "byte \<Rightarrow> byte" where
  "to_petscii b =
    (let b1 = (if 0x41 \<le> b \<and> b \<le> 0x5a then b OR 0x80 else b)
     in if 0x61 \<le> b1 \<and> b1 \<le> 0x7a then b1 - 0x20 else b1)"

definition to_screencode :: "byte \<Rightarrow> byte" where
  "to_screencode b = (if 0x61 \<le> b \<and> b \<le> 0x7a then b - 0x60 else b)"

text \<open>
  The bytes a numeric item adds:
  \<^verbatim>\<open>ByteBuffer[l++] = v & 0xff;
  if (Delimiter != '<' && Delimiter != '>' && (v > 255 || v < -127)) ByteBuffer[l++] = v >> 8;\<close>
\<close>

definition byte_item :: "char \<Rightarrow> int \<Rightarrow> int list" where
  "byte_item Delimiter v =
    (if Delimiter \<noteq> CHR ''<'' \<and> Delimiter \<noteq> CHR ''>'' \<and> (v > 255 \<or> v < -127)
     then [v AND 0xff, c_shr v 8] else [v AND 0xff])"

fun push_bytes :: "byte list \<Rightarrow> int list \<Rightarrow> error + byte list" where
  "push_bytes buf [] = Inr buf"
| "push_bytes buf (v # vs) = bindE (push_byte buf v) (\<lambda>b. push_bytes b vs)"

text \<open>
  One item of the list. The three packed forms test \<open>p[5]\<close>, which lies past the
  terminator when fewer than five characters follow.
\<close>

definition byte_item_step :: "int \<Rightarrow> string \<Rightarrow> byte list \<Rightarrow> asm \<Rightarrow> error + (string \<times> byte list \<times> asm)" where
  "byte_item_step Charset p buf st =
    (let Delimiter = peek p in
     if (Delimiter = CHR ''<'' \<or> Delimiter = CHR ''>'' \<or> Delimiter = CHR ''#'')
        \<and> at p 1 = CHR 0x22 \<and> length p < 5
       then Inl (Undefined_Behaviour ''read past the end of the line'')
     else if Delimiter = CHR ''<'' \<and> at p 1 = CHR 0x22 \<and> at p 5 = CHR 0x22 then
       Inr (drop 6 p,
            [word_of_int (c_shl (char_val (at p 3) - 63) 6 OR c_shl (char_val (at p 4) - 63) 1)], st)
     else if Delimiter = CHR ''>'' \<and> at p 1 = CHR 0x22 \<and> at p 5 = CHR 0x22 then
       Inr (drop 6 p,
            [word_of_int (c_shl (char_val (at p 2) - 63) 3 OR c_shr (char_val (at p 3) - 63) 2)], st)
     else if Delimiter = CHR ''#'' \<and> at p 1 = CHR 0x22 \<and> at p 5 = CHR 0x22 then
       (let v = char_val (at p 4) - 64 + 27 * (char_val (at p 3) - 64 + 27 * (char_val (at p 2) - 64))
        in Inr (drop 6 p, [word_of_int (v AND 0xff), word_of_int (c_shr v 8)], st))
     else if Delimiter = CHR 0x22 \<or> Delimiter = CHR 0x27 then
       bindE (ParseASCII p buf) (\<lambda>(p1, buf1).
         let old = take (length buf) buf1; new = drop (length buf) buf1 in
         Inr (p1,
              old @ (if Charset = PETSCII then map to_petscii new
                     else if Charset = SCREENCODE then map to_screencode new else new),
              st))
     else
       bindE (EvalOperand FUEL p 0 st) (\<lambda>(p1, v, st1).
         if v = UNDEF \<and> Pass st1 = MaxPass then Inl (Exit ''Undefined symbol in BYTE data'')
         else bindE (push_bytes buf (byte_item Delimiter v)) (\<lambda>buf1. Inr (p1, buf1, st1))))"

fun byte_loop :: "nat \<Rightarrow> int \<Rightarrow> string \<Rightarrow> byte list \<Rightarrow> asm \<Rightarrow> error + (string \<times> byte list \<times> asm)" where
  "byte_loop 0 cs p buf st = Inl Out_Of_Fuel"
| "byte_loop (Suc n) cs p buf st =
    (if p \<noteq> [] \<and> peek p \<noteq> CHR '';'' then
       bindE (byte_item_step cs (SkipSpace p) buf st) (\<lambda>(p1, buf1, st1).
         let p2 = SkipToComma p1 in
         byte_loop n cs (if peek p2 = CHR '','' then tl p2 else p2) buf1 st1)
     else Inr (p, buf, st))"

definition ParseByteData :: "string \<Rightarrow> int \<Rightarrow> asm \<Rightarrow> error + (string \<times> asm)" where
  "ParseByteData p Charset st =
    bindE (byte_loop FUEL Charset p [] st) (\<lambda>(p1, buf, st1).
      if length buf < 1 then Inl (Exit ''Missing byte data'')
      else bindE (emit_data buf st1) (\<lambda>st2. Inr (p1, st2)))"

subsection \<open>\<open>ParseFillData\<close>, \<open>ParseBSSData\<close>, \<open>SetBSS\<close>, \<open>SetPC\<close>\<close>

definition ParseFillData :: "string \<Rightarrow> asm \<Rightarrow> error + (string \<times> asm)" where
  "ParseFillData p st =
    bindE (EvalOperand FUEL p 0 st) (\<lambda>(p1, m, st1).
      if m < 0 \<or> m > 32767 then Inl (Exit ''Illegal FILL multiplier'')
      else case strchr p1 (CHR ''('') of
        None \<Rightarrow> Inl (Exit ''Missing ( before FILL value'')
      | Some q \<Rightarrow>
          bindE (EvalOperand FUEL (tl q) 0 st1) (\<lambda>(p2, v, st2).
            bindE (if Pass st2 = MaxPass
                   then store_bytes (pc st2) (replicate (nat m) (word_of_int (v AND 0xff))) st2
                   else Inr st2)
              (\<lambda>st3. Inr (p2, st3\<lparr>pc := int32 (pc st3 + m)\<rparr>))))"

definition ParseBSSData :: "string \<Rightarrow> asm \<Rightarrow> error + (string \<times> asm)" where
  "ParseBSSData p st =
    bindE (EvalOperand FUEL p 0 st) (\<lambda>(p1, m, st1).
      if m < 1 \<or> m > 32767 then Inl (Exit ''Illegal BSS size'')
      else Inr (p1, st1\<lparr>bss := int32 (bss st1 + m)\<rparr>))"

definition SetBSS :: "string \<Rightarrow> asm \<Rightarrow> error + (string \<times> asm)" where
  "SetBSS p st =
    (case strchr p (CHR ''='') of
       None \<Rightarrow> Inl (Exit ''Missing = in set BSS & instruction'')
     | Some q \<Rightarrow> bindE (EvalOperand FUEL (tl q) 0 st) (\<lambda>(p1, v, st1). Inr (p1, st1\<lparr>bss := v\<rparr>)))"

definition SetPC :: "string \<Rightarrow> asm \<Rightarrow> error + (string \<times> asm)" where
  "SetPC p st =
    (case (if peek p = CHR ''*'' then strchr p (CHR ''='') else Some (drop 3 p)) of
       None \<Rightarrow> Inl (Exit ''Missing = in set pc * instruction'')
     | Some q \<Rightarrow>
         bindE (EvalOperand FUEL (tl q) 0 st) (\<lambda>(p1, v, st1).
           Inr (p1, st1\<lparr>pc := v,
                          LoadAddress := (if LoadAddress st1 = UNDEF then v else LoadAddress st1),
                          GenStart := (if GenStart st1 > v then v else GenStart st1)\<rparr>)))"

subsection \<open>\<open>ParseHex4Data\<close> and \<open>ParseDec4Data\<close>\<close>

text \<open>The digit \<open>sprintf\<close> writes for a value 0 .. 15 under \<open>%X\<close>.\<close>

definition hex_digit :: "nat \<Rightarrow> char" where
  "hex_digit d = (if d < 10 then char_of (48 + d) else char_of (55 + d))"

text \<open>\<open>sprintf(hbuf,"%4.4X",n)\<close> for \<open>n\<close> in 0 .. 0xffff: four digits.\<close>

definition sprintf_04X :: "int \<Rightarrow> string" where
  "sprintf_04X n = map (\<lambda>k. hex_digit (nat (n div 16 ^ k mod 16))) [3, 2, 1, 0]"

text \<open>A \<open>char\<close> stored in the image: \<open>ROM[a] = c\<close>.\<close>

definition byte_of_char :: "char \<Rightarrow> byte" where
  "byte_of_char c = word_of_int (char_val c)"

definition ParseHex4Data :: "string \<Rightarrow> asm \<Rightarrow> error + (string \<times> asm)" where
  "ParseHex4Data p st =
    bindE (EvalOperand FUEL p 0 st) (\<lambda>(p1, v, st1).
      bindE (if Pass st1 = MaxPass
             then store_bytes (pc st1) (map byte_of_char (sprintf_04X (v AND 0xffff))) st1
             else Inr st1)
        (\<lambda>st2. Inr (p1, st2\<lparr>pc := int32 (pc st2 + 4)\<rparr>)))"

text \<open>The decimal digits of a natural number.\<close>

function dec_str :: "nat \<Rightarrow> string" where
  "dec_str n = (if n < 10 then [char_of (48 + n)] else dec_str (n div 10) @ [char_of (48 + n mod 10)])"
  by pat_completeness auto
termination
  by (relation "measure id") auto

text \<open>
  \<open>sprintf(hbuf,"%4d",v)\<close>: the decimal text of \<open>v\<close>, filled with blanks on the left up to
  four characters. \<open>char hbuf[10]\<close> holds a text of at most nine characters.
\<close>

definition sprintf_4d :: "int \<Rightarrow> string" where
  "sprintf_4d v =
    (let s = (if v < 0 then ''-'' else []) @ dec_str (nat \<bar>v\<bar>)
     in replicate (4 - length s) (CHR '' '') @ s)"

definition ParseDec4Data :: "string \<Rightarrow> asm \<Rightarrow> error + (string \<times> asm)" where
  "ParseDec4Data p st =
    bindE (EvalOperand FUEL p 0 st) (\<lambda>(p1, v, st1).
      bindE (if Pass st1 = MaxPass then
               (if length (sprintf_4d v) \<ge> 10
                then Inl (Undefined_Behaviour ''sprintf: hbuf index out of range'')
                else store_bytes (pc st1) (map byte_of_char (take 4 (sprintf_4d v))) st1)
             else Inr st1)
        (\<lambda>st2. Inr (p1, st2\<lparr>pc := int32 (pc st2 + 4)\<rparr>)))"

subsection \<open>\<open>ParseBitData\<close> and \<open>ParseLitData\<close>\<close>

text \<open>
  The loops \<open>for (i=0 ; i < 8 ; ++i)\<close> of the two functions, from the number of turns
  that remain: \<open>v <<= 1 ... v |= 1\<close> and \<open>v >>= 1 ... v |= 128\<close>.
\<close>

fun bit_loop :: "nat \<Rightarrow> string \<Rightarrow> int \<Rightarrow> error + (string \<times> int)" where
  "bit_loop 0 p v = Inr (p, v)"
| "bit_loop (Suc n) p v =
    bindE (advance 1 p) (\<lambda>p1.
      let q = SkipSpace p1; v1 = c_shl v 1 in
      if peek q = CHR ''*'' then bit_loop n q (v1 OR 1)
      else if peek q \<noteq> CHR ''.'' then Inl (Exit ''use only '*' for 1 and '.' for 0 in BITS statement'')
      else bit_loop n q v1)"

fun lit_loop :: "nat \<Rightarrow> string \<Rightarrow> int \<Rightarrow> error + (string \<times> int)" where
  "lit_loop 0 p v = Inr (p, v)"
| "lit_loop (Suc n) p v =
    bindE (advance 1 p) (\<lambda>p1.
      let q = SkipSpace p1; v1 = c_shr v 1 in
      if peek q = CHR ''*'' then lit_loop n q (v1 OR 128)
      else if peek q \<noteq> CHR ''.'' then Inl (Exit ''use only '*' for 1 and '.' for 0 in LITS statement'')
      else lit_loop n q v1)"

definition ParseBitData :: "string \<Rightarrow> asm \<Rightarrow> error + (string \<times> asm)" where
  "ParseBitData p st =
    bindE (bit_loop 8 p 0) (\<lambda>(p1, v).
      bindE (if Pass st = MaxPass then ROM_store (pc st) v st else Inr st)
        (\<lambda>st1. Inr (p1, st1\<lparr>pc := int32 (pc st1 + 1)\<rparr>)))"

definition ParseLitData :: "string \<Rightarrow> asm \<Rightarrow> error + (string \<times> asm)" where
  "ParseLitData p st =
    bindE (lit_loop 8 p 0) (\<lambda>(p1, v).
      bindE (if Pass st = MaxPass then ROM_store (pc st) v st else Inr st)
        (\<lambda>st1. Inr (p1, st1\<lparr>pc := int32 (pc st1 + 1)\<rparr>)))"

subsection \<open>The buffer \<open>Operand\<close> as an array of bytes\<close>

text \<open>
  \<open>ParseLongData\<close> and \<open>ParseRealData\<close> use the 256 bytes of \<open>Operand\<close> as an array
  of bytes. The state keeps the string the array holds; \<open>rest\<close> stands for the bytes of the
  array behind the terminator of that string, up to the end of the array; they become
  part of the string when the terminator is overwritten.
\<close>

definition Operand_array :: "byte list \<Rightarrow> asm \<Rightarrow> byte list" where
  "Operand_array rest st = map byte_of_char (Operand st) @ [0] @ rest"

text \<open>The string an array of bytes holds.\<close>

definition cstring :: "byte list \<Rightarrow> string" where
  "cstring bs = map (\<lambda>b. char_of (unat b)) (takeWhile (\<lambda>b. b \<noteq> 0) bs)"

text \<open>\<open>Operand[i] = bs[i]\<close> for the indices of \<open>bs\<close>.\<close>

definition array_write :: "byte list \<Rightarrow> byte list \<Rightarrow> byte list" where
  "array_write bs a = bs @ drop (length bs) a"

subsection \<open>\<open>ParseLongData\<close>\<close>

text \<open>
  \<open>sscanf(p,"%2x",&v)\<close>: white space, then an input item of at most two characters,
  which is an optional sign, an optional \<open>0x\<close> and hexadecimal digits. The result is
  \<open>None\<close> when the item is no number (\<open>v\<close> is not assigned then); the item \<open>0x\<close> is none
  by the C standard. A negative item is converted to \<open>unsigned\<close>.
\<close>

definition sscanf_2x :: "string \<Rightarrow> int option" where
  "sscanf_2x p =
    (let q = dropWhile isspace p; a = peek q; b = peek (tl q) in
     if a = CHR ''-'' then (if isxdigit b then Some ((- int (digit_val b)) mod 2 ^ 32) else None)
     else if a = CHR ''+'' then (if isxdigit b then Some (int (digit_val b)) else None)
     else if a = CHR ''0'' \<and> (b = CHR ''x'' \<or> b = CHR ''X'') then None
     else if isxdigit a then Some (int (digits_val 16 (takeWhile isxdigit (take 2 q))))
     else None)"

text \<open>
  The loop \<open>for (i=0 ; i < l ; ++i, p+=2) { sscanf(p,"%2x",&v); Operand[i] = v; }\<close> from the
  number of turns that remain; \<open>v\<close> is \<open>None\<close> as long as the variable is not initialised.
\<close>

fun long_hex_loop :: "nat \<Rightarrow> string \<Rightarrow> int option \<Rightarrow> byte list \<Rightarrow> error + (string \<times> byte list)" where
  "long_hex_loop 0 p v bs = Inr (p, bs)"
| "long_hex_loop (Suc n) p v bs =
    (case (case sscanf_2x p of Some x \<Rightarrow> Some x | None \<Rightarrow> v) of
       None \<Rightarrow> Inl (Undefined_Behaviour ''v is not initialised'')
     | Some x \<Rightarrow> bindE (advance 2 p) (\<lambda>p1. long_hex_loop n p1 (Some x) (bs @ [word_of_int x])))"

text \<open>The four bytes \<open>Operand[3] .. Operand[0]\<close> of the decimal form: \<open>w & 255\<close>, \<open>w >>= 8\<close>.\<close>

definition long_bytes :: "int \<Rightarrow> byte list" where
  "long_bytes w = map (\<lambda>k. word_of_int (c_shr w (8 * k) AND 255)) [3, 2, 1, 0]"

text \<open>
  \<open>ParseLongData(p,l)\<close>; the source calls it with \<open>l = 4\<close>. The hexadecimal form stores
  \<open>l\<close> bytes in \<open>Operand\<close>, the decimal form four; the final pass copies the first \<open>l\<close>
  bytes of the array to the image.
\<close>

definition ParseLongData :: "byte list \<Rightarrow> string \<Rightarrow> nat \<Rightarrow> asm \<Rightarrow> error + (string \<times> asm)" where
  "ParseLongData rest p0 l st =
    (let p = SkipSpace p0 in
     bindE (if peek p = CHR ''$'' then
              (if l > LINE_LEN then Inl (Undefined_Behaviour ''Operand index out of range'')
               else long_hex_loop l (tl p) None [])
            else bindE (atoi p) (\<lambda>w. Inr (p, long_bytes w)))
       (\<lambda>(p1, bs).
          let a = array_write bs (Operand_array rest st);
              st1 = st\<lparr>Operand := cstring a\<rparr>
          in bindE (if Pass st1 = MaxPass then
                      (if l > length a then Inl (Undefined_Behaviour ''Operand index out of range'')
                       else store_bytes (pc st1) (take l a) st1)
                    else Inr st1)
               (\<lambda>st2. Inr (p1, st2\<lparr>pc := int32 (pc st2 + int l)\<rparr>))))"

subsection \<open>\<open>ParseRealData\<close>\<close>

text \<open>
  The hexadecimal form: the loop
  \<^verbatim>\<open>for (i=0 ; i <= mansize ; ++i, p+=2)
  { if (!isxdigit(*p) || !isxdigit(*(p+1))) break; sscanf(p,"%2x",&v); Operand[i] = v; }\<close>
  from the number of turns that remain.
\<close>

fun real_hex_loop :: "nat \<Rightarrow> string \<Rightarrow> byte list \<Rightarrow> string \<times> byte list" where
  "real_hex_loop 0 p bs = (p, bs)"
| "real_hex_loop (Suc n) p bs =
    (if \<not> isxdigit (peek p) \<or> \<not> isxdigit (peek (tl p)) then (p, bs)
     else real_hex_loop n (drop 2 p) (bs @ [word_of_int (int (digits_val 16 (take 2 p)))]))"

text \<open>
  \<open>sscanf(p,"%3o",&v)\<close>: white space, then an input item of at most three characters,
  an optional sign and octal digits.
\<close>

definition sscanf_3o :: "string \<Rightarrow> int option" where
  "sscanf_3o p =
    (let q = dropWhile isspace p; a = peek q in
     if a = CHR ''-'' then
       (if isodigit (peek (tl q))
        then Some ((- int (digits_val 8 (takeWhile isodigit (take 2 (tl q))))) mod 2 ^ 32) else None)
     else if a = CHR ''+'' then
       (if isodigit (peek (tl q))
        then Some (int (digits_val 8 (takeWhile isodigit (take 2 (tl q))))) else None)
     else if isodigit a then Some (int (digits_val 8 (takeWhile isodigit (take 3 q))))
     else None)"

text \<open>
  The octal form: \<open>for (i=0 ; i <= mansize ; ++i, p+=5) { sscanf(p+1,"%3o",&v); Operand[i] = v; }\<close>
\<close>

fun real_oct_loop :: "nat \<Rightarrow> string \<Rightarrow> int option \<Rightarrow> byte list \<Rightarrow> error + (string \<times> byte list)" where
  "real_oct_loop 0 p v bs = Inr (p, bs)"
| "real_oct_loop (Suc n) p v bs =
    bindE (advance 1 p) (\<lambda>q.
      case (case sscanf_3o q of Some x \<Rightarrow> Some x | None \<Rightarrow> v) of
        None \<Rightarrow> Inl (Undefined_Behaviour ''v is not initialised'')
      | Some x \<Rightarrow> bindE (advance 5 p) (\<lambda>p1. real_oct_loop n p1 (Some x) (bs @ [word_of_int x])))"

text \<open>
  The rounding. \<open>for (i=mansize ; i > 1 ; --i) if (++Operand[i]) break;\<close> returns the
  value of \<open>i\<close> it ends with.
\<close>

fun round_loop :: "nat \<Rightarrow> byte list \<Rightarrow> nat \<times> byte list" where
  "round_loop 0 a = (0, a)"
| "round_loop (Suc j) a =
    (if Suc j > 1 then
       (let a1 = a[Suc j := a ! Suc j + 1] in
        if a1 ! Suc j \<noteq> 0 then (Suc j, a1) else round_loop j a1)
     else (Suc j, a))"

definition real_round :: "nat \<Rightarrow> byte list \<Rightarrow> byte list" where
  "real_round mansize a =
    (if a ! (mansize + 1) AND 0x80 \<noteq> 0 then
       (let (i, a1) = round_loop mansize a in
        if i = 1 then
          (if a1 ! 1 = 0x7f then a1[0 := a1 ! 0 + 1, 1 := 0]
           else if a1 ! 1 = 0xff then a1[0 := a1 ! 0 + 1, 1 := 0x80]
           else a1[1 := a1 ! 1 + 1])
        else a1)
     else a)"

text \<open>
  The decimal form converts the text with \<open>strtod\<close> and \<open>frexp\<close> and takes the bytes
  from products by 256 in \<open>double\<close> arithmetic. That conversion is a parameter \<open>D\<close> of the
  model: \<open>D p\<close> is \<open>None\<close> when the exponent is out of range, and otherwise the bytes
  \<open>Operand[0] .. Operand[5]\<close> the branch leaves (all zero for the value 0).
  \<open>memset(Operand,0,sizeof(Operand))\<close> clears the array first, so the model works on
  its first six bytes.
\<close>

definition ParseRealData :: "(string \<Rightarrow> byte list option) \<Rightarrow> string \<Rightarrow> asm \<Rightarrow> error + (string \<times> asm)" where
  "ParseRealData D p0 st =
    (let mansize = (if peek p0 = CHR ''4'' then 3 else 4);
         p = SkipSpace (if peek p0 = CHR ''4'' then tl p0 else p0);
         six = (\<lambda>bs. take 6 (bs @ replicate 6 0))
     in
     bindE (if peek p = CHR ''$'' then
              (let (p1, bs) = real_hex_loop (mansize + 1) (tl p) [] in Inr (Some (p1, six bs)))
            else if peek p = CHR ''@'' then
              bindE (real_oct_loop (mansize + 1) p None []) (\<lambda>(p1, bs). Inr (Some (p1, six bs)))
            else
              (case D p of None \<Rightarrow> Inr None | Some bs \<Rightarrow> Inr (Some (p, six bs))))
       (\<lambda>r. case r of
          None \<Rightarrow> Inr ([], st\<lparr>Operand := [], ErrNum := ErrNum st + 1\<rparr>)
        | Some (p1, a0) \<Rightarrow>
            (let a = real_round mansize a0;
                 st1 = st\<lparr>Operand := cstring a\<rparr>
             in bindE (if Pass st1 = MaxPass then store_bytes (pc st1) (take (mansize + 1) a) st1
                       else Inr st1)
                  (\<lambda>st2. Inr (p1, st2\<lparr>pc := int32 (pc st2 + int mansize + 1)\<rparr>)))))"

section \<open>Symbol definition\<close>

definition upd_lab :: "nat \<Rightarrow> (LabelStruct \<Rightarrow> LabelStruct) \<Rightarrow> asm \<Rightarrow> asm" where
  "upd_lab j f st = st\<lparr>lab := (lab st)[j := f (lab st ! j)]\<rparr>"

text \<open>\<open>lab[j].Ref[0] = LiNo; lab[j].Att[0] = tag;\<close>\<close>

definition set_def :: "nat \<Rightarrow> int \<Rightarrow> asm \<Rightarrow> asm" where
  "set_def j tag st = upd_lab j (\<lambda>e. e\<lparr>Ref := (Ref e)[0 := LiNo st], Att := (Att e)[0 := tag]\<rparr>) st"

text \<open>\<open>j = LabelIndex(Label); if (j < 0) { j = Labels; ... Labels++; }\<close> with the address of a new entry.\<close>

definition find_or_new :: "string \<Rightarrow> int \<Rightarrow> asm \<Rightarrow> nat \<times> asm" where
  "find_or_new s a st =
    (case find_label st s (lab st) 0 of
       Some j \<Rightarrow> (j, st)
     | None \<Rightarrow> (length (lab st), st\<lparr>lab := lab st @ [new_label s a 0 0]\<rparr>))"

text \<open>\<open>++BOC[i]\<close> on \<open>int BOC[MAXPASS]\<close>.\<close>

definition BOC_incr :: "int \<Rightarrow> asm \<Rightarrow> error + asm" where
  "BOC_incr i st =
    (if 0 \<le> i \<and> i < MAXPASS \<and> nat i < length (BOC st)
     then Inr (st\<lparr>BOC := (BOC st)[nat i := int32 (BOC st ! nat i + 1)]\<rparr>)
     else Inl (Undefined_Behaviour ''BOC index out of range''))"

text \<open>The three branches of \<open>DefineLabel\<close>, after the label has been scanned.\<close>

definition define_assign :: "string \<Rightarrow> string \<Rightarrow> int \<Rightarrow> asm \<Rightarrow> error + (string \<times> int option \<times> asm)" where
  "define_assign s p Lock st =
    (let (j, st1) = find_or_new s UNDEF st; st2 = set_def j LDEF st1 in
     bindE (EvalOperand FUEL (tl p) 0 st2) (\<lambda>(p1, v, st3).
       bindE
         (if Address (lab st3 ! j) = UNDEF then Inr (upd_lab j (\<lambda>e. e\<lparr>Address := v\<rparr>) st3)
          else if Address (lab st3 ! j) \<noteq> v \<and> Locked (lab st3 ! j) = 0 then
            (if Pass st3 < MaxPass then Inr (upd_lab j (\<lambda>e. e\<lparr>Address := v\<rparr>) st3)
             else Inl (Exit ''Multiple assignments for label''))
          else Inr st3)
         (\<lambda>st4. Inr (p1, Some v,
                      if Lock \<noteq> 0 then upd_lab j (\<lambda>e. e\<lparr>Locked := Lock\<rparr>) st4 else st4))))"

definition define_bss :: "string \<Rightarrow> string \<Rightarrow> asm \<Rightarrow> error + (string \<times> int option \<times> asm)" where
  "define_bss s p st =
    bindE (EvalOperand FUEL (drop 4 p) 0 st) (\<lambda>(p1, v, st1).
      let (j, st2) = find_or_new s UNDEF st1; st3 = set_def j LBSS st2 in
      bindE
        (if Address (lab st3 ! j) = UNDEF then Inr (upd_lab j (\<lambda>e. e\<lparr>Address := bss st3\<rparr>) st3)
         else if Address (lab st3 ! j) \<noteq> bss st3 then Inl (Exit ''Multiple assignments for label'')
         else Inr st3)
        (\<lambda>st4. Inr (p1, Some (bss st4), st4\<lparr>bss := int32 (bss st4 + v)\<rparr>)))"

definition define_finish :: "string \<Rightarrow> nat \<Rightarrow> asm \<Rightarrow> error + (string \<times> int option \<times> asm)" where
  "define_finish p j st =
    Inr (p, if Locked (lab st ! j) = 0 then Some (pc st) else None, set_def j LPOS st)"

definition define_position :: "string \<Rightarrow> string \<Rightarrow> asm \<Rightarrow> error + (string \<times> int option \<times> asm)" where
  "define_position s p st =
    (case find_label st s (lab st) 0 of
       None \<Rightarrow> define_finish p (length (lab st)) (st\<lparr>lab := lab st @ [new_label s (pc st) 0 0]\<rparr>)
     | Some j \<Rightarrow>
         if Address (lab st ! j) = UNDEF then
           define_finish p j (upd_lab j (\<lambda>e. e\<lparr>Address := pc st\<rparr>) st)
         else if Address (lab st ! j) \<noteq> pc st \<and> Locked (lab st ! j) = 0 then
           (if Pass st = 1 then Inl (Exit ''Multiple label definition'')
            else if Pass st < MaxPass then
              bindE (BOC_incr (Pass st - 1) (upd_lab j (\<lambda>e. e\<lparr>Address := pc st\<rparr>) st))
                (define_finish p j)
            else Inl (Exit ''Phase error label''))
         else define_finish p j st)"

text \<open>
  \<open>DefineLabel(p,val,Locked)\<close> returns the rest of the line, the value assigned to
  \<open>*val\<close> (if any) and the state.
\<close>

definition DefineLabel :: "string \<Rightarrow> int \<Rightarrow> asm \<Rightarrow> error + (string \<times> int option \<times> asm)" where
  "DefineLabel p0 Lock st =
    (if Labels st > MAXLAB - 2 then Inl (Exit ''Too many labels'')
     else
       (let (p1, s) = GetSymbol p0 st;
            st1 = st\<lparr>Label := s\<rparr>;
            st2 = (if BSO_Mode st1 \<and> isalpha (peek s) \<and> starts_with (Line st1) s
                   then st1\<lparr>Scope := s, ModuleStart := pc st1\<rparr> else st1);
            p2 = SkipSpace (if peek p1 = CHR '':'' then tl p1 else p1)
        in if peek p2 = CHR ''='' then define_assign s p2 Lock st2
           else if Strncasecmp p2 ''.BSS'' 4 = 0 then define_bss s p2 st2
           else define_position s p2 st2))"

section \<open>Conditional assembly\<close>

text \<open>\<open>Skipping = 0; for (i=1 ; i <= IfLevel ; ++i) Skipping |= SkipLine[i];\<close>\<close>

definition CheckSkip :: "asm \<Rightarrow> asm" where
  "CheckSkip st =
    st\<lparr>Skipping := foldl (\<lambda>a i. a OR SkipLine st ! i) 0 [1 ..< Suc (nat (IfLevel st))]\<rparr>"

text \<open>\<open>SkipLine[IfLevel] = v\<close> on \<open>int SkipLine[10]\<close>.\<close>

definition SkipLine_store :: "int \<Rightarrow> asm \<Rightarrow> error + asm" where
  "SkipLine_store v st =
    (if 0 \<le> IfLevel st \<and> nat (IfLevel st) < length (SkipLine st)
     then Inr (st\<lparr>SkipLine := (SkipLine st)[nat (IfLevel st) := v]\<rparr>)
     else Inl (Undefined_Behaviour ''SkipLine index out of range''))"

text \<open>The branch of \<open>CheckCondition\<close> for \<open>#endif\<close>, which follows the other branches.\<close>

definition check_endif :: "string \<Rightarrow> int \<Rightarrow> asm \<Rightarrow> error + (int \<times> asm)" where
  "check_endif p r st =
    (if Strncasecmp p ''endif'' 5 = 0 \<and> (length p \<le> 5 \<or> isspace (at p 5)) then
       (if IfLevel st - 1 < 0 then Inl (Exit ''endif without if'')
        else Inr (1, CheckSkip (st\<lparr>IfLevel := IfLevel st - 1\<rparr>)))
     else Inr (r, st))"

text \<open>\<open>CheckCondition(p)\<close> returns 1 when the line was a conditional directive.\<close>

definition CheckCondition :: "string \<Rightarrow> asm \<Rightarrow> error + (int \<times> asm)" where
  "CheckCondition p0 st =
    (if peek p0 \<noteq> CHR ''#'' then Inr (0, st)
     else
       (let p = SkipSpace (tl p0) in
        if Strncasecmp p ''error'' 5 = 0 \<and> Pass st = 1 then
          (if Skipping (CheckSkip st) \<noteq> 0 then Inr (0, CheckSkip st)
           else Inl (Exit (drop 6 p)))
        else if Strncasecmp p ''ifdef '' 6 = 0 \<or> Strncasecmp p ''if '' 3 = 0 then
          (let st1 = st\<lparr>IfLevel := IfLevel st + 1\<rparr> in
           if IfLevel st1 > 9 then Inl (Exit ''More than 10  #IF or #IFDEF conditions nested'')
           else
             bindE (if Strncasecmp p ''ifdef '' 6 = 0
                    then bindE (EvalOperand FUEL (drop 6 p) 0 st1) (\<lambda>(p1, v, st2).
                           bindE (SkipLine_store (c_bool (v = UNDEF)) st2) (\<lambda>st3. Inr (p1, st3)))
                    else bindE (EvalOperand FUEL (drop 3 p) 0 st1) (\<lambda>(p1, v, st2).
                           bindE (SkipLine_store (c_bool (v = UNDEF \<or> v = 0)) st2)
                             (\<lambda>st3. Inr (p1, st3))))
               (\<lambda>(p1, st3). check_endif p1 1 (CheckSkip st3)))
        else if Strncasecmp p ''else'' 4 = 0 \<and> (length p \<le> 4 \<or> isspace (at p 4)) then
          (if 0 \<le> IfLevel st \<and> nat (IfLevel st) < length (SkipLine st) then
             bindE (SkipLine_store (c_bool (SkipLine st ! nat (IfLevel st) = 0)) st)
               (\<lambda>st1. check_endif p 1 (CheckSkip st1))
           else Inl (Undefined_Behaviour ''SkipLine index out of range''))
        else check_endif p 0 st))"

text \<open>The test at the head of \<open>Pass2\<close>.\<close>

definition Pass2_check :: "asm \<Rightarrow> error + asm" where
  "Pass2_check st =
    (if IfLevel st \<noteq> 0 then Inl (Exit ''Error in conditional assembly: #endif missing'')
     else Inr st)"

section \<open>Code generation\<close>

text \<open>
  \<open>struct GenStruct\<close> and the table \<open>Gen[]\<close> of the general mnemonics: the opcode of
  each addressing mode 0 .. 8, or -1 (the entries 9 .. 14 of \<open>Opc[AM_MODES]\<close> are not
  initialised by the source and are zero).
\<close>

record GenStruct =
  Mne :: string
  CPU :: int
  Opc :: "int list"

definition C45 :: int where "C45 = 0xf7"

definition Gen :: "GenStruct list" where
  "Gen =
    [\<lparr>Mne = ''ORA'', CPU = 0, Opc = [0x05,0x0d,0x15,0x1d,0x01,0x09,0x11,0x19,0x12]\<rparr>,
     \<lparr>Mne = ''AND'', CPU = 0, Opc = [0x25,0x2d,0x35,0x3d,0x21,0x29,0x31,0x39,0x32]\<rparr>,
     \<lparr>Mne = ''EOR'', CPU = 0, Opc = [0x45,0x4d,0x55,0x5d,0x41,0x49,0x51,0x59,0x52]\<rparr>,
     \<lparr>Mne = ''ADC'', CPU = 0, Opc = [0x65,0x6d,0x75,0x7d,0x61,0x69,0x71,0x79,0x72]\<rparr>,
     \<lparr>Mne = ''STA'', CPU = 0, Opc = [0x85,0x8d,0x95,0x9d,0x81,  -1,0x91,0x99,0x92]\<rparr>,
     \<lparr>Mne = ''LDA'', CPU = 0, Opc = [0xa5,0xad,0xb5,0xbd,0xa1,0xa9,0xb1,0xb9,0xb2]\<rparr>,
     \<lparr>Mne = ''CMP'', CPU = 0, Opc = [0xc5,0xcd,0xd5,0xdd,0xc1,0xc9,0xd1,0xd9,0xd2]\<rparr>,
     \<lparr>Mne = ''SBC'', CPU = 0, Opc = [0xe5,0xed,0xf5,0xfd,0xe1,0xe9,0xf1,0xf9,0xf2]\<rparr>,
     \<lparr>Mne = ''ASL'', CPU = 0, Opc = [0x06,0x0e,0x16,0x1e,  -1,  -1,  -1,  -1,  -1]\<rparr>,
     \<lparr>Mne = ''ROL'', CPU = 0, Opc = [0x26,0x2e,0x36,0x3e,  -1,  -1,  -1,  -1,  -1]\<rparr>,
     \<lparr>Mne = ''LSR'', CPU = 0, Opc = [0x46,0x4e,0x56,0x5e,  -1,  -1,  -1,  -1,  -1]\<rparr>,
     \<lparr>Mne = ''ROR'', CPU = 0, Opc = [0x66,0x6e,0x76,0x7e,  -1,  -1,  -1,  -1,  -1]\<rparr>,
     \<lparr>Mne = ''DEC'', CPU = 0, Opc = [0xc6,0xce,0xd6,0xde,  -1,  -1,  -1,  -1,  -1]\<rparr>,
     \<lparr>Mne = ''INC'', CPU = 0, Opc = [0xe6,0xee,0xf6,0xfe,  -1,  -1,  -1,  -1,  -1]\<rparr>,
     \<lparr>Mne = ''ASR'', CPU = C45, Opc = [0x44,  -1,0x54,  -1,  -1,  -1,  -1,  -1,  -1]\<rparr>,
     \<lparr>Mne = ''BIT'', CPU = 0, Opc = [0x24,0x2c,0x34,0x3c,  -1,0x89,  -1,  -1,  -1]\<rparr>,
     \<lparr>Mne = ''JMP'', CPU = 0, Opc = [  -1,0x4c,  -1,  -1,0x7c,  -1,  -1,  -1,0x6c]\<rparr>,
     \<lparr>Mne = ''JSR'', CPU = 0, Opc = [  -1,0x20,  -1,  -1,0x23,  -1,  -1,  -1,0x22]\<rparr>,
     \<lparr>Mne = ''CPX'', CPU = 0, Opc = [0xe4,0xec,  -1,  -1,  -1,0xe0,  -1,  -1,  -1]\<rparr>,
     \<lparr>Mne = ''CPY'', CPU = 0, Opc = [0xc4,0xcc,  -1,  -1,  -1,0xc0,  -1,  -1,  -1]\<rparr>,
     \<lparr>Mne = ''LDX'', CPU = 0, Opc = [0xa6,0xae,  -1,  -1,  -1,0xa2,  -1,0xbe,  -1]\<rparr>,
     \<lparr>Mne = ''LDY'', CPU = 0, Opc = [0xa4,0xac,0xb4,0xbc,  -1,0xa0,  -1,  -1,  -1]\<rparr>,
     \<lparr>Mne = ''STX'', CPU = 0, Opc = [0x86,0x8e,  -1,  -1,  -1,  -1,  -1,0x9b,  -1]\<rparr>,
     \<lparr>Mne = ''STY'', CPU = 0, Opc = [0x84,0x8c,0x94,0x8b,  -1,  -1,  -1,  -1,  -1]\<rparr>,
     \<lparr>Mne = ''STZ'', CPU = 1, Opc = [0x64,0x9c,0x74,0x9e,  -1,  -1,  -1,  -1,  -1]\<rparr>,
     \<lparr>Mne = ''CPZ'', CPU = C45, Opc = [0xd4,0xdc,  -1,  -1,  -1,0xc2,  -1,  -1,  -1]\<rparr>,
     \<lparr>Mne = ''LDZ'', CPU = C45, Opc = [  -1,0xab,  -1,0xbb,  -1,0xa3,  -1,  -1,  -1]\<rparr>,
     \<lparr>Mne = ''ASW'', CPU = C45, Opc = [  -1,0xcb,  -1,  -1,  -1,  -1,  -1,  -1,  -1]\<rparr>,
     \<lparr>Mne = ''ROW'', CPU = C45, Opc = [  -1,0xeb,  -1,  -1,  -1,  -1,  -1,  -1,  -1]\<rparr>,
     \<lparr>Mne = ''DEW'', CPU = C45, Opc = [0xc3,  -1,  -1,  -1,  -1,  -1,  -1,  -1,  -1]\<rparr>,
     \<lparr>Mne = ''INW'', CPU = C45, Opc = [0xe3,  -1,  -1,  -1,  -1,  -1,  -1,  -1,  -1]\<rparr>,
     \<lparr>Mne = ''PHW'', CPU = C45, Opc = [  -1,0xfc,  -1,  -1,  -1,0xf4,  -1,  -1,  -1]\<rparr>,
     \<lparr>Mne = ''TSB'', CPU = C45, Opc = [0x04,0x0c,  -1,  -1,  -1,  -1,  -1,  -1,  -1]\<rparr>,
     \<lparr>Mne = ''TRB'', CPU = C45, Opc = [0x14,0x1c,  -1,  -1,  -1,  -1,  -1,  -1,  -1]\<rparr>]"

text \<open>\<open>Gen[i].Opc[m]\<close> for an index and a mode inside the arrays.\<close>

definition Gen_Opc :: "int \<Rightarrow> int \<Rightarrow> int" where
  "Gen_Opc i m = (Opc (Gen ! nat i) @ replicate 6 0) ! nat m"

fun index_of :: "string \<Rightarrow> GenStruct list \<Rightarrow> nat \<Rightarrow> nat option" where
  "index_of mne [] i = None"
| "index_of mne (g # gs) i = (if Mne g = mne then Some i else index_of mne gs (Suc i))"

definition GetIndex :: "string \<Rightarrow> error + int" where
  "GetIndex mne =
    (case index_of mne Gen 0 of
       Some i \<Rightarrow> Inr (int i)
     | None \<Rightarrow> Inl (Exit ''internal error in GetIndex''))"

text \<open>The indices \<open>main\<close> stores: \<open>JMPIndex = GetIndex("JMP")\<close> and so on.\<close>

definition JMPIndex :: int where "JMPIndex = 16"
definition JSRIndex :: int where "JSRIndex = 17"
definition BITIndex :: int where "BITIndex = 15"
definition STYIndex :: int where "STYIndex = 23"
definition PHWIndex :: int where "PHWIndex = 31"
definition LDAIndex :: int where "LDAIndex = 5"
definition STAIndex :: int where "STAIndex = 4"

text \<open>
  \<open>SplitOperand\<close> (with \<open>AddressMode\<close>) classifies the operand of the general
  mnemonics. It is a parameter \<open>S\<close> of the model of \<open>GenerateCode\<close>: a function that
  returns the rest of the line and what \<open>SplitOperand\<close> assigns, the variables \<open>am\<close>,
  \<open>oc\<close>, \<open>il\<close>, \<open>o16\<close> and \<open>Operand\<close>.
\<close>

record operand_split =
  sp_am :: int
  sp_oc :: int
  sp_il :: int
  sp_o16 :: int
  sp_Operand :: string

type_synonym split_fun = "string \<Rightarrow> asm \<Rightarrow> error + (string \<times> operand_split)"

definition ROM_load :: "int \<Rightarrow> asm \<Rightarrow> error + int" where
  "ROM_load a st =
    (if 0 \<le> a \<and> a < ROM_SIZE then Inr (uint (ROM st a))
     else Inl (Undefined_Behaviour ''ROM index out of range''))"

text \<open>
  The first part of \<open>GenerateCode\<close>, by addressing mode. Each function returns the
  line pointer \<open>p\<close>, the operand pointer \<open>o\<close>, the value \<open>v\<close> and the state.
\<close>

definition gen_impl :: "string \<Rightarrow> asm \<Rightarrow> error + (string \<times> string \<times> int \<times> asm)" where
  "gen_impl p st =
    (if oc st > 511
     then bindE (advance (nat (ml st)) p) (\<lambda>p1. Inr (p1, Operand st, 0, st\<lparr>il := 3, oc := oc st - 512\<rparr>))
     else bindE (advance 3 p) (\<lambda>p1. Inr (p1, Operand st, 0, st\<lparr>il := 1\<rparr>)))"

definition gen_bits :: "string \<Rightarrow> asm \<Rightarrow> error + (string \<times> string \<times> int \<times> asm)" where
  "gen_bits p st0 =
    (let st = st0\<lparr>il := 3\<rparr> in
     bindE (advance 4 p) (\<lambda>p4.
     bindE (EvalOperand FUEL p4 0 st) (\<lambda>(o1, lo0, st1).
       let lo = int32 (lo0 - c_shl (bp st1) 8) in
       if Pass st1 = MaxPass \<and> (lo < 0 \<or> lo > 255) then Inl (Exit ''Need direct page address'')
       else if peek (SkipSpace o1) \<noteq> CHR '','' then Inl (Exit ''Need two arguments'')
       else
         bindE (EvalOperand FUEL (tl (SkipSpace o1)) 0 st1) (\<lambda>(o2, hi0, st2).
           let hi = (if hi0 \<noteq> UNDEF then int32 (hi0 - (pc st2 + 3)) else hi0) in
           if Pass st2 = MaxPass \<and> hi = UNDEF then Inl (Exit ''Branch to undefined label'')
           else if Pass st2 = MaxPass \<and> (hi < -128 \<or> hi > 127) then Inl (Exit ''Branch too long'')
           else Inr (p, o2, if lo \<noteq> UNDEF \<and> hi \<noteq> UNDEF then lo OR c_shl hi 8 else UNDEF, st2)))))"

text \<open>
  Automatic branch optimisation, \<open>am == AM_Rela && BranchOpt && CPU_Type == CPU_45GS02\<close>,
  in its three steps. The choice between the short and the long branch:
  \<^verbatim>\<open>if (v != UNDEF) v -= (pc + 2);
  if (v == UNDEF) { il = 3; oc |= 3; }
  else if (v < -128 || v > 127) { il = 3; oc |= 3; v &= 0xffff; }\<close>
\<close>

definition branch_select :: "int \<Rightarrow> asm \<Rightarrow> int \<times> asm" where
  "branch_select v0 st =
    (let v = (if v0 \<noteq> UNDEF then int32 (v0 - (pc st + 2)) else v0) in
     if v = UNDEF then (v, st\<lparr>il := 3, oc := oc st OR 3\<rparr>)
     else if v < -128 \<or> v > 127 then (v AND 0xffff, st\<lparr>il := 3, oc := oc st OR 3\<rparr>)
     else (v, st))"

text \<open>The lock of the opcode in the pass before the final one: \<open>if (Pass == MaxPass-1) ROM[pc] = oc;\<close>\<close>

definition branch_lock :: "asm \<Rightarrow> error + asm" where
  "branch_lock st = (if Pass st = MaxPass - 1 then ROM_store (pc st) (oc st) st else Inr st)"

text \<open>
  The use of the locked opcode in the final pass:
  \<^verbatim>\<open>if (Pass == MaxPass) { if (v == UNDEF) exit; oc = ROM[pc]; il = 2;
     if ((oc & 3) == 3) { il = 3; v &= 0xffff; } }\<close>
\<close>

definition branch_locked :: "int \<Rightarrow> asm \<Rightarrow> error + (int \<times> asm)" where
  "branch_locked v st =
    (if Pass st = MaxPass then
       (if v = UNDEF then Inl (Exit ''Branch to undefined label'')
        else bindE (ROM_load (pc st) st) (\<lambda>c.
          if c AND 3 = 3 then Inr (v AND 0xffff, st\<lparr>oc := c, il := 3\<rparr>)
          else Inr (v, st\<lparr>oc := c, il := 2\<rparr>)))
     else Inr (v, st))"

definition gen_rela_opt :: "string \<Rightarrow> asm \<Rightarrow> error + (string \<times> string \<times> int \<times> asm)" where
  "gen_rela_opt p st0 =
    bindE (advance 3 p) (\<lambda>p3.
    bindE (EvalOperand FUEL p3 0 (st0\<lparr>il := 2\<rparr>)) (\<lambda>(o1, v0, st1).
      let (v1, st2) = branch_select v0 st1 in
      bindE (branch_lock st2) (\<lambda>st3.
      bindE (branch_locked v1 st3) (\<lambda>(v2, st4). Inr (p, o1, v2, st4)))))"

definition gen_rela :: "string \<Rightarrow> asm \<Rightarrow> error + (string \<times> string \<times> int \<times> asm)" where
  "gen_rela p st0 =
    bindE (advance 3 p) (\<lambda>p3.
    bindE (EvalOperand FUEL p3 0 (st0\<lparr>il := 2\<rparr>)) (\<lambda>(o1, v0, st1).
      let v = (if v0 \<noteq> UNDEF then int32 (v0 - (pc st1 + 2)) else v0) in
      if Pass st1 = MaxPass \<and> v = UNDEF then Inl (Exit ''Branch to undefined label'')
      else if Pass st1 = MaxPass \<and> (v < -128 \<or> v > 127) then Inl (Exit ''Branch too long'')
      else Inr (p, o1, v, st1)))"

definition gen_relo :: "string \<Rightarrow> asm \<Rightarrow> error + (string \<times> string \<times> int \<times> asm)" where
  "gen_relo p st0 =
    bindE (advance 4 p) (\<lambda>p4.
    bindE (EvalOperand FUEL p4 0 (st0\<lparr>il := 3\<rparr>)) (\<lambda>(o1, v0, st1).
      let v = (if v0 \<noteq> UNDEF then int32 (v0 - pc st1 - 2) AND 0xffff else v0) in
      if Pass st1 = MaxPass \<and> v = UNDEF then Inl (Exit ''Branch to undefined label'')
      else Inr (p, o1, v, st1)))"

definition gen_other :: "split_fun \<Rightarrow> string \<Rightarrow> asm \<Rightarrow> error + (string \<times> string \<times> int \<times> asm)" where
  "gen_other S p st =
    bindE (advance 4 p) (\<lambda>p4.
    bindE (S (SkipSpace p4) st) (\<lambda>(p1, r).
      Inr (p1, sp_Operand r, 0,
           st\<lparr>am := sp_am r, oc := sp_oc r, il := sp_il r, o16 := sp_o16 r,
              Operand := sp_Operand r\<rparr>)))"

definition gen_mode :: "split_fun \<Rightarrow> string \<Rightarrow> asm \<Rightarrow> error + (string \<times> string \<times> int \<times> asm)" where
  "gen_mode S p st =
    (if am st = AM_Impl then gen_impl p st
     else if am st = AM_Bits then gen_bits p st
     else if am st = AM_Rela \<and> BranchOpt st \<and> CPU_Type st = CPU_45GS02 then gen_rela_opt p st
     else if am st = AM_Rela then gen_rela p st
     else if am st = AM_Relo then gen_relo p st
     else gen_other S p st)"

text \<open>The part \<open>if (Operand[0]) ... else if (am != AM_Impl && ...)\<close>.\<close>

definition gen_narrow :: "int \<Rightarrow> int \<Rightarrow> asm \<Rightarrow> int \<times> asm" where
  "gen_narrow v w st =
    (if w \<ge> 0 \<and> w < 256 \<and> GenIndex st \<ge> 0 \<and> o16 st = 0 then
       (if am st = AM_Abso \<and> Gen_Opc (GenIndex st) AM_Dpag \<ge> 0
          then (w, st\<lparr>am := AM_Dpag, oc := Gen_Opc (GenIndex st) AM_Dpag, il := il st - 1\<rparr>)
        else if am st = AM_Absx \<and> Gen_Opc (GenIndex st) AM_Dpgx \<ge> 0
          then (w, st\<lparr>am := AM_Dpgx, oc := Gen_Opc (GenIndex st) AM_Dpgx, il := 2\<rparr>)
        else if oc st = 0xbe then (w, st\<lparr>oc := 0xb6, il := 2\<rparr>)
        else if oc st = 0x9b then (w, st\<lparr>oc := 0x96, il := 2\<rparr>)
        else (v, st))
     else (v, st))"

definition gen_operand :: "string \<Rightarrow> int \<Rightarrow> asm \<Rightarrow> error + (string \<times> int \<times> asm)" where
  "gen_operand o0 v0 st =
    (if Operand st \<noteq> [] then
       (if peek (Operand st) = CHR 0x27 then Inl (Exit ''Operand cannot start with apostrophe'')
        else
          bindE (EvalOperand FUEL (Operand st) 0 st) (\<lambda>(o1, v, st1).
            let w = int32 (v - c_shl (bp st1) 8) in
            if GenIndex st1 \<noteq> PHWIndex \<and> am st1 = AM_Imme \<and> Pass st1 = MaxPass
               \<and> (v < -128 \<or> v > 255)
              then Inl (Exit ''Immediate value out of range'')
            else if am st1 = AM_Dpag then
              (if w < -128 \<or> w > 255 then Inl (Exit ''base page value out of range'')
               else Inr (o1, w, st1\<lparr>il := 2\<rparr>))
            else (let (v1, st2) = gen_narrow v w st1 in Inr (o1, v1, st2))))
     else if am st \<noteq> AM_Impl \<and> am st \<noteq> AM_Rela \<and> am st \<noteq> AM_Relo \<and> am st \<noteq> AM_Bits
       then Inl (Exit ''Operand missing'')
     else Inr (o0, v0, st))"

text \<open>\<open>LDA (bp,SP),Y\<close> and \<open>STA (bp,SP),Y\<close>: \<open>*o = 0\<close> cuts the operand at \<open>o\<close>.\<close>

definition gen_sp :: "string \<Rightarrow> asm \<Rightarrow> string \<times> asm" where
  "gen_sp o1 st =
    (if CPU_Type st = CPU_45GS02 \<and> am st = AM_Indy \<and> Strncasecmp o1 '',SP'' 3 = 0
        \<and> (GenIndex st = LDAIndex \<or> GenIndex st = STAIndex)
     then ([], st\<lparr>oc := (if GenIndex st = STAIndex then 0x82 else 0xe2),
                   Operand := take (length (Operand st) - length o1) (Operand st)\<rparr>)
     else (o1, st))"

definition CPU_Error :: "error" where
  "CPU_Error = Exit ''Illegal instruction or operand for CPU''"

definition AdjustOpcode :: "int \<Rightarrow> asm \<Rightarrow> error + (int \<times> asm)" where
  "AdjustOpcode v st0 =
    (let st = st0\<lparr>NegNeg := False, PreNop := False\<rparr> in
     if GenIndex st = JMPIndex then
       (if am st = AM_Indx \<and> CPU_Type st < CPU_65SC02 then Inl CPU_Error
        else Inr (v, st\<lparr>il := 3\<rparr>))
     else if GenIndex st = JSRIndex then
       (if am st = AM_Indx \<and> CPU_Type st < CPU_45GS02 then Inl CPU_Error
        else Inr (v, if CPU_Type st = CPU_65816 then st\<lparr>il := 3, oc := 0xfc\<rparr> else st\<lparr>il := 3\<rparr>))
     else if GenIndex st = BITIndex then
       (if am st > AM_Abso \<and> CPU_Type st < CPU_65SC02 then Inl CPU_Error else Inr (v, st))
     else if GenIndex st = STYIndex then
       (if am st = AM_Absx \<and> CPU_Type st \<noteq> CPU_45GS02 then Inl CPU_Error else Inr (v, st))
     else if GenIndex st = PHWIndex then
       Inr (v, if am st = AM_Imme then st\<lparr>il := 3\<rparr> else st)
     else if am st = AM_Indz \<and> il st = 3 then Inr (c_shl v 8 OR oc st, st\<lparr>oc := 0xea\<rparr>)
     else if am st = AM_Impl \<and> il st = 3 then Inr (v, st\<lparr>NegNeg := True\<rparr>)
     else if am st = AM_Dpag \<and> il st = 4 then Inr (v, st\<lparr>NegNeg := True\<rparr>)
     else if am st = AM_Abso \<and> il st = 5 then Inr (v, st\<lparr>NegNeg := True\<rparr>)
     else if am st = AM_Indz \<and> il st = 4 then Inr (v, st\<lparr>NegNeg := True\<rparr>)
     else if am st = AM_Indz \<and> il st = 5 then Inr (v, st\<lparr>NegNeg := True, PreNop := True\<rparr>)
     else Inr (v, st))"

text \<open>
  The bytes of the instruction in the order they are stored from \<open>pl = pc\<close> on: the
  prefixes, the opcode, then \<open>lo\<close> and \<open>hi\<close> while \<open>pl < pc+il\<close>.
\<close>

definition insn_bytes :: "int \<Rightarrow> asm \<Rightarrow> int list" where
  "insn_bytes v st =
    (let pre = (if NegNeg st then [0x42, 0x42] else []) @ (if PreNop st then [0xea] else [])
               @ [oc st];
         lo = v AND 0xff;
         hi = (if c_shr v 8 = bp st \<and> il st < 3 then 0 else c_shr v 8)
     in pre @ (if int (length pre) < il st then [lo] else [])
            @ (if int (length pre) + 1 < il st then [hi] else []))"

definition gen_emit :: "int \<Rightarrow> asm \<Rightarrow> error + asm" where
  "gen_emit v st =
    (if Pass st = MaxPass then
       (if v = UNDEF then Inl (Exit ''Use of an undefined label'')
        else
          (let v1 = (if c_shr v 8 = bp st \<and> il st < 3 then v AND 0xff else v);
               st1 = (if il st < 3 \<and> (v1 < -128 \<or> v1 > 255) then st\<lparr>ErrNum := ErrNum st + 1\<rparr> else st)
           in store_bytes (pc st1) (map word_of_int (insn_bytes v st1)) st1))
     else Inr st)"

definition gen_advance :: "asm \<Rightarrow> asm" where
  "gen_advance st =
    (if pc st + il st > 0xffff then
       (if Pass st = MaxPass then st\<lparr>ErrNum := ErrNum st + 1\<rparr> else st)
     else st\<lparr>pc := pc st + il st\<rparr>)"

definition GenerateCode :: "split_fun \<Rightarrow> string \<Rightarrow> asm \<Rightarrow> error + (string \<times> asm)" where
  "GenerateCode S p st =
    (if pc st < 0 then Inl (Exit ''Undefined program counter (PC)'')
     else
       bindE (gen_mode S p st) (\<lambda>(p1, o0, v0, st1).
       bindE (gen_operand o0 v0 st1) (\<lambda>(o1, v1, st2).
         let (o2, st3) = gen_sp o1 st2 in
         if o2 \<noteq> [] \<and> peek o2 \<noteq> CHR '';'' then Inl (Exit ''Operand syntax error'')
         else
           bindE (AdjustOpcode v1 st3) (\<lambda>(v2, st4).
           bindE (gen_emit v2 st4) (\<lambda>st5. Inr (p1, gen_advance st5))))))"

section \<open>The pass driver\<close>

text \<open>
  \<open>Pass1\<close> and \<open>Pass2\<close> read the source line by line and hand each line to
  \<open>ParseLine\<close>, here a parameter. The source is the list of its lines that end with a
  line feed: the loops test \<open>feof\<close> after \<open>fgets\<close>, so a last line without a line
  feed is read but never parsed. Include files and macro expansion, which feed further
  lines, are outside the model; \<open>ForcedEnd\<close> is never set by the source.
\<close>

definition chomp :: "string \<Rightarrow> string" where
  "chomp l = (if l \<noteq> [] \<and> last l = CHR 0x0D then butlast l else l)"

fun pass_lines :: "(string \<Rightarrow> asm \<Rightarrow> error + asm) \<Rightarrow> string list \<Rightarrow> asm \<Rightarrow> error + asm" where
  "pass_lines PL [] st = Inr st"
| "pass_lines PL (l # ls) st =
    bindE (PL (chomp l) (st\<lparr>LiNo := LiNo st + 1, Line := chomp l\<rparr>)) (pass_lines PL ls)"

definition Pass1 :: "(string \<Rightarrow> asm \<Rightarrow> error + asm) \<Rightarrow> string list \<Rightarrow> asm \<Rightarrow> error + asm" where
  "Pass1 PL src st = pass_lines PL src (st\<lparr>pc := -1, bp := 0, LiNo := 0, Scope := ''Main''\<rparr>)"

text \<open>\<open>Pass2\<close> stops once \<open>ErrNum >= ERRMAX\<close> after a line.\<close>

definition ERRMAX :: int where
  "ERRMAX = 10"

fun pass2_lines :: "(string \<Rightarrow> asm \<Rightarrow> error + asm) \<Rightarrow> string list \<Rightarrow> asm \<Rightarrow> error + asm" where
  "pass2_lines PL [] st = Inr st"
| "pass2_lines PL (l # ls) st =
    bindE (PL (chomp l) (st\<lparr>LiNo := LiNo st + 1, Line := chomp l\<rparr>)) (\<lambda>st1.
      if ErrNum st1 \<ge> ERRMAX then Inr st1 else pass2_lines PL ls st1)"

definition Pass2 :: "(string \<Rightarrow> asm \<Rightarrow> error + asm) \<Rightarrow> string list \<Rightarrow> asm \<Rightarrow> error + asm" where
  "Pass2 PL src st =
    bindE (Pass2_check (st\<lparr>pc := -1, bp := 0, Scope := ''Main''\<rparr>))
      (\<lambda>st1. pass2_lines PL src (st1\<lparr>LiNo := 0\<rparr>))"

text \<open>
  The loop of \<open>main\<close>, \<open>for (Pass = 1 ; Pass < MaxPass ; ++Pass) Pass1();\<close>, from the
  value \<open>k\<close> of \<open>Pass\<close> on; \<open>n\<close> bounds the iterations that remain. The result pairs the
  state with the log of the passes run: the value of \<open>Pass\<close> in each and the label
  changes \<open>BOC[Pass-1]\<close> counted in it.
\<close>

fun pass_loop :: "nat \<Rightarrow> (string \<Rightarrow> asm \<Rightarrow> error + asm) \<Rightarrow> string list \<Rightarrow> int \<Rightarrow> asm
    \<Rightarrow> error + ((int \<times> int) list \<times> asm)" where
  "pass_loop 0 PL src k st = (if k < MaxPass then Inl Out_Of_Fuel else Inr ([], st\<lparr>Pass := k\<rparr>))"
| "pass_loop (Suc n) PL src k st =
    (if k < MaxPass then
       bindE (Pass1 PL src (st\<lparr>Pass := k\<rparr>)) (\<lambda>st1.
       bindE (pass_loop n PL src (Pass st1 + 1) st1) (\<lambda>(log, st2).
         Inr ((Pass st1, BOC st1 ! nat (Pass st1 - 1)) # log, st2)))
     else Inr ([], st\<lparr>Pass := k\<rparr>))"

text \<open>The passes of \<open>main\<close>: the loop over \<open>Pass1\<close>, then \<open>Pass2\<close>.\<close>

definition run_passes :: "(string \<Rightarrow> asm \<Rightarrow> error + asm) \<Rightarrow> string list \<Rightarrow> asm
    \<Rightarrow> error + ((int \<times> int) list \<times> asm)" where
  "run_passes PL src st =
    bindE (pass_loop (nat MAXPASS) PL src 1 st) (\<lambda>(log, st1).
    bindE (Pass2 PL src st1) (\<lambda>st2. Inr (log @ [(Pass st2, BOC st2 ! nat (Pass st2 - 1))], st2)))"

section \<open>Notions used to state the properties\<close>

text \<open>Two states that differ at most in the symbol table.\<close>

definition only_lab :: "asm \<Rightarrow> asm \<Rightarrow> bool" where
  "only_lab st st' \<longleftrightarrow> (\<exists>L. st' = st\<lparr>lab := L\<rparr>)"

text \<open>The variables a function leaves as they are: the image, the program counter, the pass.\<close>

definition keeps_image :: "asm \<Rightarrow> asm \<Rightarrow> bool" where
  "keeps_image st st' \<longleftrightarrow> ROM st' = ROM st \<and> pc st' = pc st \<and> Pass st' = Pass st"

text \<open>
  The values of the items of a \<open>.WORD\<close> line: what \<open>EvalOperand\<close> returns at each turn
  of the loop of \<open>ParseWordData\<close>.
\<close>

fun word_values :: "nat \<Rightarrow> string \<Rightarrow> asm \<Rightarrow> int list" where
  "word_values 0 p st = []"
| "word_values (Suc n) p st =
    (if p \<noteq> [] \<and> peek p \<noteq> CHR '';'' then
       (case EvalOperand FUEL (SkipSpace p) 0 st of
          Inl e \<Rightarrow> []
        | Inr (p1, v, st1) \<Rightarrow>
            v # word_values n (if peek (SkipToComma p1) = CHR '','' then tl (SkipToComma p1)
                               else SkipToComma p1) st1)
     else [])"

text \<open>
  The reading of the pass driver under which a pass without label changes is followed
  by the last pass: in the log of the passes run, an entry with zero changes is the
  last but one.
\<close>

fun stops_when_converged :: "(int \<times> int) list \<Rightarrow> bool" where
  "stops_when_converged [] = True"
| "stops_when_converged [x] = True"
| "stops_when_converged (x # y # r) = ((snd x \<noteq> 0 \<or> r = []) \<and> stops_when_converged (y # r))"

text \<open>The conditional directives of a sequence of lines, each handed to \<open>CheckCondition\<close>.\<close>

fun conditions :: "string list \<Rightarrow> asm \<Rightarrow> error + asm" where
  "conditions [] st = Inr st"
| "conditions (l # ls) st = bindE (CheckCondition l st) (\<lambda>(r, st1). conditions ls st1)"

text \<open>A stand-in for \<open>SplitOperand\<close> in examples that use no general mnemonic.\<close>

definition no_split :: split_fun where
  "no_split p st = Inl (Exit ''syntax error'')"

text \<open>The symbol table keeps its entries: their names, addresses, lengths and locks.\<close>

definition lab_grows :: "LabelStruct list \<Rightarrow> LabelStruct list \<Rightarrow> bool" where
  "lab_grows L L' \<longleftrightarrow>
    length L \<le> length L' \<and>
    (\<forall>i < length L. Name (L' ! i) = Name (L ! i) \<and> Address (L' ! i) = Address (L ! i)
       \<and> Locked (L' ! i) = Locked (L ! i) \<and> Bytes (L' ! i) = Bytes (L ! i))"

definition evolves :: "asm \<Rightarrow> asm \<Rightarrow> bool" where
  "evolves st st' \<longleftrightarrow> only_lab st st' \<and> lab_grows (lab st) (lab st')"

text \<open>
  The opcode of a relative branch to \<open>t\<close> under the automatic branch optimisation: the
  opcode of the short branch when the displacement \<open>t - (pc + 2)\<close> fits a signed byte,
  and otherwise that of the long branch, which has the two low bits set.
\<close>

definition branch_opcode :: "int \<Rightarrow> asm \<Rightarrow> int" where
  "branch_opcode t st =
    (if t \<noteq> UNDEF \<and> -128 \<le> signed_take_bit 31 (t - (pc st + 2))
        \<and> signed_take_bit 31 (t - (pc st + 2)) \<le> 127
     then oc st else oc st OR 3)"

text \<open>What holds of the result of a call that returns.\<close>

definition returns :: "error + 'a \<Rightarrow> ('a \<Rightarrow> bool) \<Rightarrow> bool" where
  "returns m Q \<longleftrightarrow> (\<forall>y. m = Inr y \<longrightarrow> Q y)"

section \<open>The state before the first pass\<close>

text \<open>
  The static initialisers and what \<open>main\<close> sets before the pass loop, for a source that
  is not in BSO mode: \<open>memset(ROM,ROM_Fill,sizeof(ROM))\<close> with \<open>ROM_Fill = 0\<close>.
\<close>

definition init_state :: asm where
  "init_state =
    \<lparr>Pass = 0, pc = -1, bp = 0, bss = 0, ROM = (\<lambda>a. 0), lab = [],
     BOC = replicate 20 0, IfLevel = 0, Skipping = 0, SkipLine = replicate 10 0,
     ErrNum = 0, Scope = [], BSO_Mode = False, IgnoreCase = False,
     unastring = unastring_default, unaops = UNAOPS - 1, LiNo = 0,
     am = 0, oc = 0, il = 0, ml = 0, o16 = 0, GenIndex = 0, CPU_Type = CPU_6502,
     BranchOpt = False, NegNeg = False, PreNop = False, ModuleStart = 0,
     LoadAddress = UNDEF, GenStart = 0x10000, Label = [], Operand = [], Line = []\<rparr>"

section \<open>States of the examples\<close>

text \<open>Pass \<open>k\<close> at \<open>pc = $1000\<close> with the symbol \<open>LOOP\<close> known at \<open>$0ffe\<close>.\<close>

definition st_loop :: "int \<Rightarrow> asm" where
  "st_loop k = init_state\<lparr>Pass := k, pc := 0x1000, lab := [new_label ''LOOP'' 0x0ffe 0 LPOS]\<rparr>"

text \<open>
  The same state after \<open>IsInstruction\<close> has read the mnemonic of \<open>BNE LOOP\<close>: the
  addressing mode, the opcode and no index in \<open>Gen\<close>; then with the automatic branch
  optimisation of the 45GS02.
\<close>

definition st_branch :: "int \<Rightarrow> asm" where
  "st_branch k = (st_loop k)\<lparr>am := AM_Rela, oc := 0xd0, o16 := 0, GenIndex := -1, ml := 3\<rparr>"

definition st_branch_opt :: "int \<Rightarrow> asm" where
  "st_branch_opt k = (st_branch k)\<lparr>BranchOpt := True, CPU_Type := CPU_45GS02\<rparr>"


section \<open>Properties of the operators\<close>

lemma int32_id: "in_int32 x \<Longrightarrow> int32 x = x"
  unfolding int32_def in_int32_def
  by (rule signed_take_bit_int_eq_self) simp_all





lemma c_div_examples: "c_div (-7) 2 = -3" "c_div 7 (-2) = -3" "c_div (-7) (-2) = 3"
  by (simp_all add: c_div_def)




text \<open>The division the hypothesis leaves out: the model stops there, as the program does.\<close>

lemma division_overflow_stops:
  "apply_binop \<lparr>op = ''/'', prio = 11, foo = op_div\<rparr> (- (2 ^ 31)) (-1)
     = Inl (Undefined_Behaviour ''division: quotient out of range'')"
  by (simp add: apply_binop_def op_div_def c_div_def in_int32_def UNDEF_def)

section \<open>Frames of the expression evaluator\<close>

lemma bindE_Inr: "bindE m f = Inr y \<longleftrightarrow> (\<exists>x. m = Inr x \<and> f x = Inr y)"
  by (cases m) (simp_all add: bindE_def)

lemma bindE_Inl: "bindE m f = Inl e \<longleftrightarrow> (m = Inl e \<or> (\<exists>x. m = Inr x \<and> f x = Inl e))"
  by (cases m) (simp_all add: bindE_def)

lemma only_lab_refl: "only_lab st st"
  unfolding only_lab_def by (rule exI [of _ "lab st"]) simp

lemma only_lab_trans: "only_lab st st1 \<Longrightarrow> only_lab st1 st2 \<Longrightarrow> only_lab st st2"
  unfolding only_lab_def by auto

lemma lab_grows_refl: "lab_grows L L"
  by (simp add: lab_grows_def)

lemma lab_grows_trans: "lab_grows L L1 \<Longrightarrow> lab_grows L1 L2 \<Longrightarrow> lab_grows L L2"
  unfolding lab_grows_def by auto

lemma lab_grows_append: "lab_grows L (L @ X)"
  by (simp add: lab_grows_def nth_append)

lemma lab_grows_refs:
  "lab_grows L (L[i := (L ! i)\<lparr>NumRef := n, Ref := r, Att := a\<rparr>])"
proof (cases "i < length L")
  case True
  then show ?thesis by (auto simp: lab_grows_def nth_list_update)
next
  case False
  then show ?thesis by (simp add: lab_grows_def)
qed

lemma evolves_refl: "evolves st st"
  by (simp add: evolves_def only_lab_refl lab_grows_refl)

lemma evolves_trans: "evolves st st1 \<Longrightarrow> evolves st1 st2 \<Longrightarrow> evolves st st2"
  unfolding evolves_def only_lab_def
  by (auto intro: lab_grows_trans)

lemma AddLabel_frame: "AddLabel s st = Inr st' \<Longrightarrow> evolves st st'"
  by (auto simp: AddLabel_def evolves_def only_lab_def lab_grows_append split: if_splits)

lemma SymRefs_frame: "evolves st (SymRefs i st)"
proof (cases "Pass st = MaxPass")
  case True
  then have "only_lab st (SymRefs i st)"
    unfolding only_lab_def SymRefs_def by auto
  moreover from True have "lab_grows (lab st) (lab (SymRefs i st))"
    by (simp add: SymRefs_def lab_grows_refs)
  ultimately show ?thesis by (simp add: evolves_def)
next
  case False
  then show ?thesis by (simp add: SymRefs_def evolves_refl)
qed

lemma EvalSymValue_frame: "EvalSymValue p st = Inr (q, v, st') \<Longrightarrow> evolves st st'"
  unfolding EvalSymValue_def
  by (auto simp: bindE_Inr Let_def SymRefs_frame dest!: AddLabel_frame split: prod.splits option.splits if_splits)

lemma EvalSymBytes_frame: "EvalSymBytes p st = Inr (q, v, st') \<Longrightarrow> evolves st st'"
  unfolding EvalSymBytes_def
  by (auto simp: bindE_Inr Let_def SymRefs_frame dest!: AddLabel_frame split: prod.splits option.splits if_splits)

lemma EvalDecValue_frame: "EvalDecValue p st = Inr (q, v, st') \<Longrightarrow> evolves st st'"
  unfolding EvalDecValue_def by (auto simp: bindE_Inr Let_def evolves_refl split: if_splits)

lemma EvalCharValue_frame: "EvalCharValue p st = Inr (q, v, st') \<Longrightarrow> evolves st st'"
  unfolding EvalCharValue_def by (auto simp: Let_def evolves_refl split: if_splits)

lemma EvalHexValue_frame: "EvalHexValue p st = Inr (q, v, st') \<Longrightarrow> evolves st st'"
  unfolding EvalHexValue_def by (auto simp: bindE_Inr evolves_refl)

lemma EvalOctValue_frame: "EvalOctValue p st = Inr (q, v, st') \<Longrightarrow> evolves st st'"
  unfolding EvalOctValue_def by (auto simp: bindE_Inr evolves_refl)

lemma EvalBinValue_frame: "EvalBinValue p st = Inr (q, v, st') \<Longrightarrow> evolves st st'"
  unfolding EvalBinValue_def by (auto simp: Let_def evolves_refl split: prod.splits)

lemma EvalOperand_frame_aux:
  "(\<forall>p pr st q v st'. EvalOperand n p pr st = Inr (q, v, st') \<longrightarrow> evolves st st')
   \<and> (\<forall>f p st q v st'. call_unaop n f p st = Inr (q, v, st') \<longrightarrow> evolves st st')
   \<and> (\<forall>p v0 pr st q v st'. binop_loop n p v0 pr st = Inr (q, v, st') \<longrightarrow> evolves st st')"
proof (induction n)
  case 0
  show ?case by simp
next
  case (Suc n)
  have E: "evolves st st'" if "EvalOperand n p pr st = Inr (q, v, st')" for p pr st q v st'
    using Suc that by blast
  have U: "evolves st st'" if "call_unaop n f p st = Inr (q, v, st')" for f p st q v st'
    using Suc that by blast
  have B: "evolves st st'" if "binop_loop n p v0 pr st = Inr (q, v, st')" for p v0 pr st q v st'
    using Suc that by blast
  have 1: "evolves st st'" if h: "EvalOperand (Suc n) p pr st = Inr (q, v, st')" for p pr st q v st'
  proof (cases "peek (SkipSpace p) = CHR '',''")
    case True
    with h show ?thesis by (simp add: Let_def evolves_refl)
  next
    case False
    with h obtain p1 v1 st1 where
      a: "(if SkipSpace p \<noteq> [] \<and> peek (SkipSpace p) \<in> set (unastring st) then
            (case map_of (take (unaops st) unaop) (peek (SkipSpace p)) of
               None \<Rightarrow> Inr (SkipSpace p, UNDEF, st)
             | Some f \<Rightarrow> call_unaop n f (SkipSpace p) st)
          else if isdigit (peek (SkipSpace p)) \<and> \<not> isnnd (SkipSpace p) then EvalDecValue (SkipSpace p) st
          else if isym (SkipSpace p) \<or> isnnd (SkipSpace p) then EvalSymValue (SkipSpace p) st
          else Inl (Exit ''Illegal operand'')) = Inr (p1, v1, st1)"
      and b: "binop_loop n (SkipSpace p1) v1 pr st1 = Inr (q, v, st')"
      by (auto simp: Let_def bindE_Inr)
    from a have "evolves st st1"
      by (auto simp: evolves_refl dest: U EvalDecValue_frame EvalSymValue_frame
          split: if_splits option.splits)
    with B [OF b] show ?thesis by (blast intro: evolves_trans)
  qed
  have 2: "evolves st st'" if h: "call_unaop (Suc n) f p st = Inr (q, v, st')" for f p st q v st'
    using h
    by (cases f)
      (auto simp: bindE_Inr evolves_refl
        dest: E EvalHexValue_frame EvalOctValue_frame EvalCharValue_frame EvalBinValue_frame
          EvalSymBytes_frame
        split: option.splits)
  have 3: "evolves st st'" if h: "binop_loop (Suc n) p v0 pr st = Inr (q, v, st')" for p v0 pr st q v st'
    using h
    by (auto simp: bindE_Inr evolves_refl dest: B dest!: E intro: evolves_trans
        split: if_splits option.splits)
  from 1 2 3 show ?case by blast
qed

lemma EvalOperand_frame: "EvalOperand n p pr st = Inr (q, v, st') \<Longrightarrow> evolves st st'"
  using EvalOperand_frame_aux by blast

text \<open>What a frame gives.\<close>

lemma only_lab_fields:
  assumes "only_lab st st'"
  shows "ROM st' = ROM st" "Pass st' = Pass st" "pc st' = pc st" "bss st' = bss st"
    "bp st' = bp st" "BOC st' = BOC st" "am st' = am st" "oc st' = oc st" "il st' = il st"
    "Operand st' = Operand st" "GenIndex st' = GenIndex st" "CPU_Type st' = CPU_Type st"
    "BranchOpt st' = BranchOpt st" "o16 st' = o16 st" "IfLevel st' = IfLevel st"
    "SkipLine st' = SkipLine st" "ErrNum st' = ErrNum st" "NegNeg st' = NegNeg st"
    "PreNop st' = PreNop st" "LiNo st' = LiNo st"
  using assms by (auto simp: only_lab_def)

lemmas evolves_fields = only_lab_fields [OF evolves_def [THEN iffD1, THEN conjunct1]]

section \<open>Unary operators on the sentinel\<close>

lemma una_assign_simps:
  "una_assign Op_plu v = v" "una_assign Op_min v = int32 (- v)"
  "una_assign Op_lno v = c_bool (v = 0)" "una_assign Op_bno v = NOT v"
  "una_assign Op_low v = (if v \<noteq> UNDEF then v AND 0xff else v)"
  "una_assign Op_hig v = (if v \<noteq> UNDEF then c_shr v 8 else v)"
  by (simp_all add: una_assign_def op_plu_def op_min_def op_lno_def op_bno_def op_low_def op_hig_def)

text \<open>
  The one-line operators of the table return the assignment applied to the value of
  their operand.
\<close>

lemma call_unaop_value:
  assumes "EvalOperand n (tl p) 12 st = Inr (q, v, st')"
    and "f \<in> {Op_plu, Op_min, Op_lno, Op_bno, Op_low, Op_hig}"
  shows "call_unaop (Suc n) f p st = Inr (q, una_assign f v, st')"
  using assms by (auto simp: bindE_def)

lemma eval_unary_examples:
  "(case EvalOperand 20 ''+FOO'' 0 init_state of Inr (q, v, st) \<Rightarrow> q = [] \<and> v = UNDEF | Inl e \<Rightarrow> False)"
  "(case EvalOperand 20 ''-FOO'' 0 init_state of Inr (q, v, st) \<Rightarrow> q = [] \<and> v = - 0xff0000 | Inl e \<Rightarrow> False)"
  "(case EvalOperand 20 ''!FOO'' 0 init_state of Inr (q, v, st) \<Rightarrow> q = [] \<and> v = 0 | Inl e \<Rightarrow> False)"
  "(case EvalOperand 20 ''~FOO'' 0 init_state of Inr (q, v, st) \<Rightarrow> q = [] \<and> v = - 0xff0001 | Inl e \<Rightarrow> False)"
  "(case EvalOperand 20 ''<FOO'' 0 init_state of Inr (q, v, st) \<Rightarrow> q = [] \<and> v = UNDEF | Inl e \<Rightarrow> False)"
  "(case EvalOperand 20 ''>FOO'' 0 init_state of Inr (q, v, st) \<Rightarrow> q = [] \<and> v = UNDEF | Inl e \<Rightarrow> False)"
  "(case EvalOperand 20 ''(FOO)'' 0 init_state of Inr (q, v, st) \<Rightarrow> q = [] \<and> v = UNDEF | Inl e \<Rightarrow> False)"
  by code_simp+

text \<open>
  Claim C9, as stated: of the unary operators only \<open><\<close> and \<open>>\<close> preserve \<open>UNDEF\<close>.
  Unary plus is an operator of the table, is neither of the two, and returns \<open>UNDEF\<close>
  for an operand that is \<open>UNDEF\<close>.
\<close>

theorem unary_plus_preserves_undefined:
  "map_of unaop (CHR ''+'') = Some Op_plu \<and> una_assign Op_plu UNDEF = UNDEF
   \<and> Op_plu \<noteq> Op_low \<and> Op_plu \<noteq> Op_hig"
  by (simp add: unaop_def una_assign_simps)

text \<open>
  Claim C9, amended. For an operand whose value is \<open>UNDEF\<close>, unary minus, logical not
  and bitwise not return the arithmetic result on the sentinel, which is not \<open>UNDEF\<close>;
  the low-byte and high-byte operators test for the sentinel and return \<open>UNDEF\<close>
  (not the byte of the sentinel); unary plus returns its operand as it is, so it
  returns \<open>UNDEF\<close> too.
\<close>

theorem unary_operators_on_undefined:
  "una_assign Op_min UNDEF = - 0xff0000 \<and> una_assign Op_min UNDEF \<noteq> UNDEF
   \<and> una_assign Op_lno UNDEF = 0 \<and> una_assign Op_lno UNDEF \<noteq> UNDEF
   \<and> una_assign Op_bno UNDEF = - 0xff0001 \<and> una_assign Op_bno UNDEF \<noteq> UNDEF
   \<and> una_assign Op_low UNDEF = UNDEF \<and> UNDEF AND 0xff \<noteq> UNDEF
   \<and> una_assign Op_hig UNDEF = UNDEF \<and> c_shr UNDEF 8 \<noteq> UNDEF
   \<and> una_assign Op_plu UNDEF = UNDEF"
  by (simp add: una_assign_simps UNDEF_def int32_def c_bool_def c_shr_def)

section \<open>Numeric items of a byte list\<close>

lemma push_byte_ok: "length buf < LINE_LEN \<Longrightarrow> push_byte buf v = Inr (buf @ [word_of_int v])"
  by (simp add: push_byte_def)

text \<open>
  Claim C10, as stated: a numeric item whose value exceeds 255 emits two bytes. An item
  that begins with \<open>>\<close> (or \<open><\<close>) emits one byte whatever its value: \<open>>$1234+$1000\<close>
  has the value \<open>$1012\<close> and adds the single byte \<open>$12\<close>.
\<close>

theorem byte_item_counterexample:
  "(case EvalOperand FUEL ''>$1234+$1000'' 0 init_state of
      Inr (q, v, st) \<Rightarrow> q = [] \<and> v = 0x1012 \<and> v > 255 | Inl e \<Rightarrow> False)
   \<and> byte_item (CHR ''>'') 0x1012 = [0x12]
   \<and> (case byte_item_step ASCII ''>$1234+$1000'' [] init_state of
        Inr (q, buf, st) \<Rightarrow> q = [] \<and> buf = [0x12] | Inl e \<Rightarrow> False)"
  by code_simp

text \<open>
  Claim C10, amended. A numeric item of a \<open>.BYTE\<close> list (one that is neither a string nor
  a packed form) whose text does not begin with \<open><\<close> or \<open>>\<close> and whose value \<open>v\<close> is
  above 255 or below -127 adds the two bytes \<open>v & 0xff\<close> and \<open>v >> 8\<close> to the buffer;
  every other numeric item adds the single byte \<open>v & 0xff\<close>.
\<close>

theorem byte_item_two_bytes:
  assumes "peek p \<noteq> CHR 0x22" and "peek p \<noteq> CHR 0x27" and "at p 1 \<noteq> CHR 0x22"
    and "EvalOperand FUEL p 0 st = Inr (p1, v, st1)"
    and "\<not> (v = UNDEF \<and> Pass st1 = MaxPass)"
    and "length buf + 2 \<le> LINE_LEN"
  shows "byte_item_step cs p buf st =
    Inr (p1,
         buf @ (if peek p \<noteq> CHR ''<'' \<and> peek p \<noteq> CHR ''>'' \<and> (v > 255 \<or> v < -127)
                then [word_of_int (v AND 0xff), word_of_int (c_shr v 8)]
                else [word_of_int (v AND 0xff)]),
         st1)"
proof -
  have b1: "length buf < LINE_LEN" and b2: "length (buf @ [word_of_int (v AND 0xff) :: byte]) < LINE_LEN"
    using assms(6) by simp_all
  have pb: "push_bytes buf (byte_item (peek p) v) =
      Inr (buf @ (if peek p \<noteq> CHR ''<'' \<and> peek p \<noteq> CHR ''>'' \<and> (v > 255 \<or> v < -127)
                then [word_of_int (v AND 0xff), word_of_int (c_shr v 8)]
                else [word_of_int (v AND 0xff)]))"
    using push_byte_ok [OF b1, of "v AND 0xff"] push_byte_ok [OF b2, of "c_shr v 8"]
    by (simp add: byte_item_def bindE_def)
  show ?thesis
    unfolding byte_item_step_def Let_def
    using assms(1-5) pb by (simp add: bindE_def)
qed

theorem byte_item_two_bytes_witness:
  "byte_item_step ASCII ''$1234'' [] init_state = Inr ([], [0x34, 0x12], init_state)
   \<and> byte_item_step ASCII ''<$1234+$1000'' [] init_state = Inr ([], [0x34], init_state)
   \<and> (case ParseByteData '' 1,$1234'' ASCII (init_state\<lparr>pc := 0x1000\<rparr>) of
        Inr (q, st) \<Rightarrow> pc st = 0x1003 | Inl e \<Rightarrow> False)"
proof -
  have e1: "EvalOperand FUEL ''$1234'' 0 init_state = Inr ([], 0x1234, init_state)"
  proof -
    have "case EvalOperand FUEL ''$1234'' 0 init_state of
        Inr (q, v, st) \<Rightarrow> q = [] \<and> v = 0x1234 \<and> lab st = [] | Inl e \<Rightarrow> False"
      by code_simp
    moreover have "\<And>q v st. EvalOperand FUEL ''$1234'' 0 init_state = Inr (q, v, st)
        \<Longrightarrow> lab st = [] \<Longrightarrow> st = init_state"
      by (drule EvalOperand_frame) (auto simp: evolves_def only_lab_def init_state_def)
    ultimately show ?thesis
      by (auto split: sum.splits)
  qed
  have e2: "EvalOperand FUEL ''<$1234+$1000'' 0 init_state = Inr ([], 0x1034, init_state)"
  proof -
    have "case EvalOperand FUEL ''<$1234+$1000'' 0 init_state of
        Inr (q, v, st) \<Rightarrow> q = [] \<and> v = 0x1034 \<and> lab st = [] | Inl e \<Rightarrow> False"
      by code_simp
    moreover have "\<And>q v st. EvalOperand FUEL ''<$1234+$1000'' 0 init_state = Inr (q, v, st)
        \<Longrightarrow> lab st = [] \<Longrightarrow> st = init_state"
      by (drule EvalOperand_frame) (auto simp: evolves_def only_lab_def init_state_def)
    ultimately show ?thesis
      by (auto split: sum.splits)
  qed
  have p: "Pass init_state \<noteq> MaxPass"
    by (simp add: init_state_def MaxPass_def MAXPASS_def)
  have w1: "byte_item_step ASCII ''$1234'' [] init_state = Inr ([], [0x34, 0x12], init_state)"
    using byte_item_two_bytes [of "''$1234''" init_state "[]" "0x1234" init_state "[]" ASCII] e1 p
    by (simp add: peek_def at_def LINE_LEN_def c_shr_def)
  have w2: "byte_item_step ASCII ''<$1234+$1000'' [] init_state = Inr ([], [0x34], init_state)"
    using byte_item_two_bytes [of "''<$1234+$1000''" init_state "[]" "0x1034" init_state "[]" ASCII] e2 p
    by (simp add: peek_def at_def LINE_LEN_def c_shr_def)
  have w3: "case ParseByteData '' 1,$1234'' ASCII (init_state\<lparr>pc := 0x1000\<rparr>) of
        Inr (q, st) \<Rightarrow> pc st = 0x1003 | Inl e \<Rightarrow> False"
    by code_simp
  from w1 w2 w3 show ?thesis by simp
qed

section \<open>Symbol definition\<close>

lemma find_label_Some: "find_label st s L i = Some j \<Longrightarrow> i \<le> j \<and> j - i < length L"
proof (induction L arbitrary: i)
  case Nil
  then show ?case by simp
next
  case (Cons a L)
  show ?case
  proof (cases "StrCmp st s (Name a)")
    case True
    with Cons.prems have "find_label st s L (Suc i) = Some j" by simp
    from Cons.IH [OF this] show ?thesis by auto
  next
    case False
    with Cons.prems show ?thesis by simp
  qed
qed

lemma find_label_bound: "find_label st s (lab st) 0 = Some j \<Longrightarrow> j < length (lab st)"
  using find_label_Some [of st s "lab st" 0 j] by simp

lemma set_def_fields:
  "j < length (lab st) \<Longrightarrow> Address (lab (set_def j t st) ! j) = Address (lab st ! j)"
  "j < length (lab st) \<Longrightarrow> Locked (lab (set_def j t st) ! j) = Locked (lab st ! j)"
  "length (lab (set_def j t st)) = length (lab st)"
  "Pass (set_def j t st) = Pass st" "BOC (set_def j t st) = BOC st" "pc (set_def j t st) = pc st"
  "ROM (set_def j t st) = ROM st" "bss (set_def j t st) = bss st"
  by (simp_all add: set_def_def upd_lab_def)

lemma upd_lab_fields:
  "Pass (upd_lab j f st) = Pass st" "BOC (upd_lab j f st) = BOC st" "pc (upd_lab j f st) = pc st"
  "ROM (upd_lab j f st) = ROM st" "bss (upd_lab j f st) = bss st"
  "length (lab (upd_lab j f st)) = length (lab st)"
  "j < length (lab st) \<Longrightarrow> lab (upd_lab j f st) ! j = f (lab st ! j)"
  by (simp_all add: upd_lab_def)

lemma evolves_lab:
  assumes "evolves st st'" and "j < length (lab st)"
  shows "Address (lab st' ! j) = Address (lab st ! j)" "Locked (lab st' ! j) = Locked (lab st ! j)"
    "j < length (lab st')"
  using assms by (auto simp: evolves_def lab_grows_def)

lemma position_redefinition:
  assumes f: "find_label st s (lab st) 0 = Some j"
    and a: "Address (lab st ! j) \<noteq> UNDEF" and l: "Locked (lab st ! j) = 0"
    and b: "length (BOC st) = 20"
    and d: "Address (lab st ! j) \<noteq> pc st"
  shows "Pass st = 1 \<Longrightarrow> define_position s p st = Inl (Exit ''Multiple label definition'')"
    and "1 < Pass st \<Longrightarrow> Pass st < MaxPass \<Longrightarrow>
          \<exists>st'. define_position s p st = Inr (p, Some (pc st), st')
             \<and> Address (lab st' ! j) = pc st
             \<and> BOC st' = (BOC st)[nat (Pass st - 1) := int32 (BOC st ! nat (Pass st - 1) + 1)]"
    and "MaxPass \<le> Pass st \<Longrightarrow> define_position s p st = Inl (Exit ''Phase error label'')"
proof -
  have j: "j < length (lab st)" using f by (rule find_label_bound)
  show "define_position s p st = Inl (Exit ''Multiple label definition'')" if "Pass st = 1"
    using that f a l d by (simp add: define_position_def)
  show "define_position s p st = Inl (Exit ''Phase error label'')" if "MaxPass \<le> Pass st"
    using that f a l d by (simp add: define_position_def MaxPass_def MAXPASS_def)
  show "\<exists>st'. define_position s p st = Inr (p, Some (pc st), st')
             \<and> Address (lab st' ! j) = pc st
             \<and> BOC st' = (BOC st)[nat (Pass st - 1) := int32 (BOC st ! nat (Pass st - 1) + 1)]"
    if "1 < Pass st" "Pass st < MaxPass"
    using that f a l d b j
    by (simp add: define_position_def BOC_incr_def bindE_def define_finish_def upd_lab_def
        set_def_def MaxPass_def MAXPASS_def)
qed

lemma assign_redefinition:
  assumes f: "find_label st s (lab st) 0 = Some j"
    and a: "Address (lab st ! j) \<noteq> UNDEF" and l: "Locked (lab st ! j) = 0"
    and e: "EvalOperand FUEL (tl p) 0 (set_def j LDEF st) = Inr (q, v, st1)"
    and d: "Address (lab st ! j) \<noteq> v"
  shows "Pass st < MaxPass \<Longrightarrow>
          \<exists>st'. define_assign s p Lock st = Inr (q, Some v, st')
             \<and> Address (lab st' ! j) = v \<and> BOC st' = BOC st"
    and "MaxPass \<le> Pass st \<Longrightarrow> define_assign s p Lock st = Inl (Exit ''Multiple assignments for label'')"
proof -
  have j: "j < length (lab st)" using f by (rule find_label_bound)
  have fn: "find_or_new s UNDEF st = (j, st)"
    using f by (simp add: find_or_new_def)
  have ev: "evolves (set_def j LDEF st) st1"
    using e by (rule EvalOperand_frame)
  have j2: "j < length (lab (set_def j LDEF st))"
    using j by (simp add: set_def_fields)
  have A: "Address (lab st1 ! j) = Address (lab st ! j)"
    using evolves_lab(1) [OF ev j2] j by (simp add: set_def_fields)
  have L: "Locked (lab st1 ! j) = 0"
    using evolves_lab(2) [OF ev j2] j l by (simp add: set_def_fields)
  have j1: "j < length (lab st1)"
    using evolves_lab(3) [OF ev j2] .
  have P: "Pass st1 = Pass st" and B: "BOC st1 = BOC st"
    using evolves_fields [OF ev] by (simp_all add: set_def_fields)
  show "\<exists>st'. define_assign s p Lock st = Inr (q, Some v, st')
             \<and> Address (lab st' ! j) = v \<and> BOC st' = BOC st" if "Pass st < MaxPass"
    using that fn e A L P B a d j1
    by (simp add: define_assign_def bindE_def upd_lab_def)
  show "define_assign s p Lock st = Inl (Exit ''Multiple assignments for label'')"
    if "MaxPass \<le> Pass st"
    using that fn e A L P B a d j1
    by (simp add: define_assign_def bindE_def)
qed


text \<open>
  Claim C3, as stated: every conflicting redefinition of a symbol that is not locked is
  fatal in pass 1 and is counted in the passes between. An assignment \<open>LOOP = 2\<close> to a
  symbol known at \<open>$0ffe\<close> is accepted in pass 1, and in pass 5 it overwrites the
  address without counting a label change.
\<close>

theorem assignment_redefinition_counterexample:
  "(case DefineLabel ''LOOP = 2'' 0 (st_loop 1) of
      Inr (q, val, st') \<Rightarrow> val = Some 2 \<and> Address (lab st' ! 0) = 2 \<and> Locked (lab st' ! 0) = 0
    | Inl e \<Rightarrow> False)
   \<and> (case DefineLabel ''LOOP = 2'' 0 (st_loop 5) of
      Inr (q, val, st') \<Rightarrow> Address (lab st' ! 0) = 2 \<and> BOC st' = BOC (st_loop 5)
    | Inl e \<Rightarrow> False)"
  by code_simp

text \<open>
  Claim C3, amended. Let a symbol that is not locked have a stored address. When a label
  line defines it at a different \<open>pc\<close>, pass 1 ends with a fatal error, a pass between
  (\<open>1 < Pass < MaxPass\<close>) overwrites the address and counts \<open>BOC[Pass-1]\<close>, and the
  final pass ends with a fatal phase error. When an assignment \<open>NAME = expr\<close> gives it a
  different value, every pass before the final one overwrites the address and counts
  nothing, and the final pass ends with a fatal error.
\<close>

theorem phase_error_policy:
  assumes "find_label st s (lab st) 0 = Some j"
    and "Address (lab st ! j) \<noteq> UNDEF" and "Locked (lab st ! j) = 0"
    and "length (BOC st) = 20"
  shows
    "(Address (lab st ! j) \<noteq> pc st \<longrightarrow>
        (Pass st = 1 \<longrightarrow> define_position s p st = Inl (Exit ''Multiple label definition''))
      \<and> (1 < Pass st \<and> Pass st < MaxPass \<longrightarrow>
           (\<exists>st'. define_position s p st = Inr (p, Some (pc st), st')
              \<and> Address (lab st' ! j) = pc st
              \<and> BOC st' = (BOC st)[nat (Pass st - 1) := int32 (BOC st ! nat (Pass st - 1) + 1)]))
      \<and> (MaxPass \<le> Pass st \<longrightarrow> define_position s p st = Inl (Exit ''Phase error label'')))
     \<and> (\<forall>q v st1. EvalOperand FUEL (tl p) 0 (set_def j LDEF st) = Inr (q, v, st1)
            \<and> Address (lab st ! j) \<noteq> v \<longrightarrow>
          (Pass st < MaxPass \<longrightarrow>
             (\<exists>st'. define_assign s p Lock st = Inr (q, Some v, st')
                \<and> Address (lab st' ! j) = v \<and> BOC st' = BOC st))
        \<and> (MaxPass \<le> Pass st \<longrightarrow>
             define_assign s p Lock st = Inl (Exit ''Multiple assignments for label'')))"
proof (intro conjI impI allI)
  assume d: "Address (lab st ! j) \<noteq> pc st"
  note P = position_redefinition [OF assms(1-4) d, where p = p]
  show "define_position s p st = Inl (Exit ''Multiple label definition'')" if "Pass st = 1"
    using that by (rule P(1))
  show "\<exists>st'. define_position s p st = Inr (p, Some (pc st), st')
      \<and> Address (lab st' ! j) = pc st
      \<and> BOC st' = (BOC st)[nat (Pass st - 1) := int32 (BOC st ! nat (Pass st - 1) + 1)]"
    if "1 < Pass st \<and> Pass st < MaxPass"
    using that P(2) by simp
  show "define_position s p st = Inl (Exit ''Phase error label'')" if "MaxPass \<le> Pass st"
    using that by (rule P(3))
next
  fix q v st1
  assume e: "EvalOperand FUEL (tl p) 0 (set_def j LDEF st) = Inr (q, v, st1)
      \<and> Address (lab st ! j) \<noteq> v"
  note A = assign_redefinition [OF assms(1-3) conjunct1 [OF e] conjunct2 [OF e], where Lock = Lock]
  show "\<exists>st'. define_assign s p Lock st = Inr (q, Some v, st')
      \<and> Address (lab st' ! j) = v \<and> BOC st' = BOC st" if "Pass st < MaxPass"
    using that by (rule A(1))
  show "define_assign s p Lock st = Inl (Exit ''Multiple assignments for label'')"
    if "MaxPass \<le> Pass st"
    using that by (rule A(2))
qed

lemma st_loop_facts:
  "find_label (st_loop k) ''LOOP'' (lab (st_loop k)) 0 = Some 0"
  "Address (lab (st_loop k) ! 0) = 0x0ffe" "Locked (lab (st_loop k) ! 0) = 0"
  "length (BOC (st_loop k)) = 20" "pc (st_loop k) = 0x1000" "Pass (st_loop k) = k"
  "BOC (st_loop k) = replicate 20 0"
  by (simp_all add: st_loop_def init_state_def new_label_def StrCmp_def strcmp_eq_def)

theorem phase_error_policy_witness:
  "define_position ''LOOP'' [] (st_loop 1) = Inl (Exit ''Multiple label definition'')
   \<and> (\<exists>st'. define_position ''LOOP'' [] (st_loop 5) = Inr ([], Some 0x1000, st')
         \<and> Address (lab st' ! 0) = 0x1000 \<and> BOC st' ! 4 = 1)
   \<and> define_position ''LOOP'' [] (st_loop 20) = Inl (Exit ''Phase error label'')
   \<and> (\<exists>st'. define_assign ''LOOP'' ''= 2'' 0 (st_loop 1) = Inr ([], Some 2, st')
         \<and> Address (lab st' ! 0) = 2 \<and> BOC st' = replicate 20 0)
   \<and> define_assign ''LOOP'' ''= 2'' 0 (st_loop 20) = Inl (Exit ''Multiple assignments for label'')"
proof -
  have u: "(0x0ffe::int) \<noteq> UNDEF" by (simp add: UNDEF_def)
  have T: "(0x0ffe \<noteq> (0x1000::int) \<longrightarrow>
        (k = 1 \<longrightarrow> define_position ''LOOP'' p (st_loop k) = Inl (Exit ''Multiple label definition''))
      \<and> (1 < k \<and> k < MaxPass \<longrightarrow>
           (\<exists>st'. define_position ''LOOP'' p (st_loop k) = Inr (p, Some 0x1000, st')
              \<and> Address (lab st' ! 0) = 0x1000
              \<and> BOC st' = (replicate 20 0)[nat (k - 1) := int32 (replicate 20 0 ! nat (k - 1) + 1)]))
      \<and> (MaxPass \<le> k \<longrightarrow> define_position ''LOOP'' p (st_loop k) = Inl (Exit ''Phase error label'')))
     \<and> (\<forall>q v st1. EvalOperand FUEL (tl p) 0 (set_def 0 LDEF (st_loop k)) = Inr (q, v, st1)
            \<and> 0x0ffe \<noteq> v \<longrightarrow>
          (k < MaxPass \<longrightarrow>
             (\<exists>st'. define_assign ''LOOP'' p Lock (st_loop k) = Inr (q, Some v, st')
                \<and> Address (lab st' ! 0) = v \<and> BOC st' = replicate 20 0))
        \<and> (MaxPass \<le> k \<longrightarrow>
             define_assign ''LOOP'' p Lock (st_loop k) = Inl (Exit ''Multiple assignments for label'')))"
    for k p Lock
    using phase_error_policy [of "st_loop k" "''LOOP''" 0 p Lock] u
    by (simp only: st_loop_facts) simp
  have e: "\<exists>st1. EvalOperand FUEL (tl ''= 2'') 0 (set_def 0 LDEF (st_loop k)) = Inr ([], 2, st1)"
    if "k = 1 \<or> k = 20" for k
  proof -
    have "case EvalOperand FUEL (tl ''= 2'') 0 (set_def 0 LDEF (st_loop 1)) of
        Inr (q, v, st1) \<Rightarrow> q = [] \<and> v = 2 | Inl e \<Rightarrow> False"
      "case EvalOperand FUEL (tl ''= 2'') 0 (set_def 0 LDEF (st_loop 20)) of
        Inr (q, v, st1) \<Rightarrow> q = [] \<and> v = 2 | Inl e \<Rightarrow> False"
      by code_simp+
    with that show ?thesis by (auto split: sum.splits)
  qed
  have p1: "define_position ''LOOP'' [] (st_loop 1) = Inl (Exit ''Multiple label definition'')"
    using T [of 1 "[]" 0] by simp
  have p5: "\<exists>st'. define_position ''LOOP'' [] (st_loop 5) = Inr ([], Some 0x1000, st')
         \<and> Address (lab st' ! 0) = 0x1000 \<and> BOC st' ! 4 = 1"
  proof -
    have "1 < (5::int) \<and> 5 < MaxPass" by (simp add: MaxPass_def MAXPASS_def)
    with T [of 5 "[]" 0] obtain st' where
      "define_position ''LOOP'' [] (st_loop 5) = Inr ([], Some 0x1000, st')"
      "Address (lab st' ! 0) = 0x1000"
      "BOC st' = (replicate 20 0)[nat (5 - 1) := int32 (replicate 20 0 ! nat (5 - 1) + 1)]"
      by auto
    moreover have "(replicate 20 0)[nat (5 - 1) := int32 (replicate 20 0 ! nat (5 - 1) + 1)] ! 4 = 1"
      by (simp add: int32_def)
    ultimately show ?thesis by auto
  qed
  have p20: "define_position ''LOOP'' [] (st_loop 20) = Inl (Exit ''Phase error label'')"
    using T [of 20 "[]" 0] by (simp add: MaxPass_def MAXPASS_def)
  have a1: "\<exists>st'. define_assign ''LOOP'' ''= 2'' 0 (st_loop 1) = Inr ([], Some 2, st')
         \<and> Address (lab st' ! 0) = 2 \<and> BOC st' = replicate 20 0"
    using T [of 1 "''= 2''" 0] e [of 1] by (auto simp: MaxPass_def MAXPASS_def)
  have a20: "define_assign ''LOOP'' ''= 2'' 0 (st_loop 20) = Inl (Exit ''Multiple assignments for label'')"
    using T [of 20 "''= 2''" 0] e [of 20] by (auto simp: MaxPass_def MAXPASS_def)
  from p1 p5 p20 a1 a20 show ?thesis by blast
qed

section \<open>Frames of symbol definition and of the BSS directives\<close>

lemma keeps_image_refl: "keeps_image st st"
  by (simp add: keeps_image_def)

lemma keeps_image_trans: "keeps_image st st1 \<Longrightarrow> keeps_image st1 st2 \<Longrightarrow> keeps_image st st2"
  by (simp add: keeps_image_def)

lemma evolves_keeps: "evolves st st' \<Longrightarrow> keeps_image st st'"
  by (simp add: keeps_image_def evolves_fields)

lemma keeps_simps:
  "keeps_image st (upd_lab j f st)" "keeps_image st (set_def j t st)"
  "keeps_image st (st\<lparr>lab := L\<rparr>)" "keeps_image st (st\<lparr>bss := b\<rparr>)"
  "keeps_image st (st\<lparr>Label := s\<rparr>)" "keeps_image st (st\<lparr>Scope := s, ModuleStart := m\<rparr>)"
  by (simp_all add: keeps_image_def upd_lab_def set_def_def)

lemma find_or_new_keeps: "find_or_new s a st = (j, st') \<Longrightarrow> keeps_image st st'"
  by (auto simp: find_or_new_def keeps_image_def split: option.splits)

lemma BOC_incr_keeps: "BOC_incr i st = Inr st' \<Longrightarrow> keeps_image st st'"
  by (auto simp: BOC_incr_def keeps_image_def split: if_splits)

lemma define_finish_keeps: "define_finish p j st = Inr (q, val, st') \<Longrightarrow> keeps_image st st'"
  by (auto simp: define_finish_def keeps_simps)

lemma define_assign_keeps:
  assumes "define_assign s p Lock st = Inr (q, val, st')"
  shows "keeps_image st st'"
proof -
  obtain j st1 where fn: "find_or_new s UNDEF st = (j, st1)"
    by (cases "find_or_new s UNDEF st")
  from assms fn obtain p1 v st3 st4 where
    e: "EvalOperand FUEL (tl p) 0 (set_def j LDEF st1) = Inr (p1, v, st3)"
    and u: "(if Address (lab st3 ! j) = UNDEF then Inr (upd_lab j (\<lambda>e. e\<lparr>Address := v\<rparr>) st3)
          else if Address (lab st3 ! j) \<noteq> v \<and> Locked (lab st3 ! j) = 0 then
            (if Pass st3 < MaxPass then Inr (upd_lab j (\<lambda>e. e\<lparr>Address := v\<rparr>) st3)
             else Inl (Exit ''Multiple assignments for label''))
          else Inr st3) = Inr st4"
    and r: "st' = (if Lock \<noteq> 0 then upd_lab j (\<lambda>e. e\<lparr>Locked := Lock\<rparr>) st4 else st4)"
    by (auto simp: define_assign_def bindE_Inr Let_def)
  have "keeps_image st st1" using fn by (rule find_or_new_keeps)
  moreover have "keeps_image st1 (set_def j LDEF st1)" by (rule keeps_simps)
  moreover have "keeps_image (set_def j LDEF st1) st3"
    using e by (intro evolves_keeps EvalOperand_frame)
  moreover have "keeps_image st3 st4"
    using u by (auto simp: keeps_simps keeps_image_refl split: if_splits)
  moreover have "keeps_image st4 st'"
    using r by (simp add: keeps_simps keeps_image_refl)
  ultimately show ?thesis by (blast intro: keeps_image_trans)
qed

lemma define_bss_result:
  assumes "define_bss s p st = Inr (q, val, st')"
  shows "keeps_image st st' \<and> val = Some (bss st)
    \<and> (\<exists>p1 v st1. EvalOperand FUEL (drop 4 p) 0 st = Inr (p1, v, st1) \<and> bss st' = int32 (bss st + v))"
proof -
  from assms obtain p1 v st1 where e: "EvalOperand FUEL (drop 4 p) 0 st = Inr (p1, v, st1)"
    and r: "(let (j, st2) = find_or_new s UNDEF st1; st3 = set_def j LBSS st2 in
      bindE
        (if Address (lab st3 ! j) = UNDEF then Inr (upd_lab j (\<lambda>e. e\<lparr>Address := bss st3\<rparr>) st3)
         else if Address (lab st3 ! j) \<noteq> bss st3 then Inl (Exit ''Multiple assignments for label'')
         else Inr st3)
        (\<lambda>st4. Inr (p1, Some (bss st4), st4\<lparr>bss := int32 (bss st4 + v)\<rparr>))) = Inr (q, val, st')"
    by (auto simp: define_bss_def bindE_Inr)
  obtain j st2 where fn: "find_or_new s UNDEF st1 = (j, st2)"
    by (cases "find_or_new s UNDEF st1")
  from r fn obtain st4 where
    u: "(if Address (lab (set_def j LBSS st2) ! j) = UNDEF
         then Inr (upd_lab j (\<lambda>e. e\<lparr>Address := bss (set_def j LBSS st2)\<rparr>) (set_def j LBSS st2))
         else if Address (lab (set_def j LBSS st2) ! j) \<noteq> bss (set_def j LBSS st2)
           then Inl (Exit ''Multiple assignments for label'')
         else Inr (set_def j LBSS st2)) = Inr st4"
    and v: "val = Some (bss st4)" and s: "st' = st4\<lparr>bss := int32 (bss st4 + v)\<rparr>"
    by (auto simp: bindE_Inr Let_def)
  have b1: "bss st1 = bss st" and k1: "keeps_image st st1"
    using EvalOperand_frame [OF e] by (simp_all add: evolves_fields evolves_keeps)
  have b2: "bss st2 = bss st1" and k2: "keeps_image st1 st2"
    using fn by (auto simp: find_or_new_def keeps_image_def split: option.splits)
  have b4: "bss st4 = bss st2" and k4: "keeps_image st2 st4"
    using u by (auto simp: set_def_fields upd_lab_fields keeps_image_def split: if_splits)
  have k5: "keeps_image st4 st'"
    using s by (simp add: keeps_simps)
  have "keeps_image st st'"
    using k1 k2 k4 k5 by (blast intro: keeps_image_trans)
  moreover have "val = Some (bss st)"
    using v b1 b2 b4 by simp
  moreover have "bss st' = int32 (bss st + v)"
    using s b1 b2 b4 by simp
  ultimately show ?thesis using e by blast
qed

lemma define_position_keeps:
  assumes "define_position s p st = Inr (q, val, st')"
  shows "keeps_image st st'"
  using assms unfolding define_position_def
  by (auto simp: bindE_Inr keeps_simps split: option.splits if_splits
      dest!: define_finish_keeps BOC_incr_keeps
      intro: keeps_image_trans [OF keeps_simps(1)] keeps_image_trans [OF keeps_simps(3)]
        keeps_image_trans)

lemma DefineLabel_keeps:
  assumes "DefineLabel p Lock st = Inr (q, val, st')"
  shows "keeps_image st st'"
proof -
  obtain p1 s where g: "GetSymbol p st = (p1, s)"
    by (cases "GetSymbol p st")
  define st2 where "st2 = (if BSO_Mode st \<and> isalpha (peek s) \<and> starts_with (Line st) s
      then st\<lparr>Label := s, Scope := s, ModuleStart := pc st\<rparr> else st\<lparr>Label := s\<rparr>)"
  have k: "keeps_image st st2"
    by (simp add: st2_def keeps_image_def)
  from assms g have
    "define_assign s (SkipSpace (if peek p1 = CHR '':'' then tl p1 else p1)) Lock st2 = Inr (q, val, st')
     \<or> define_bss s (SkipSpace (if peek p1 = CHR '':'' then tl p1 else p1)) st2 = Inr (q, val, st')
     \<or> define_position s (SkipSpace (if peek p1 = CHR '':'' then tl p1 else p1)) st2 = Inr (q, val, st')"
    by (auto simp: DefineLabel_def Let_def st2_def split: if_splits)
  then have "keeps_image st2 st'"
    using define_assign_keeps define_bss_result define_position_keeps by blast
  with k show ?thesis by (rule keeps_image_trans)
qed

lemma ParseBSSData_result:
  assumes "ParseBSSData p st = Inr (q, st')"
  shows "keeps_image st st' \<and> (\<exists>m. 1 \<le> m \<and> m \<le> 32767 \<and> bss st' = int32 (bss st + m))"
proof -
  from assms obtain p1 m st1 where e: "EvalOperand FUEL p 0 st = Inr (p1, m, st1)"
    and m: "\<not> (m < 1 \<or> m > 32767)" and s: "st' = st1\<lparr>bss := int32 (bss st1 + m)\<rparr>"
    by (auto simp: ParseBSSData_def bindE_Inr split: if_splits)
  have "keeps_image st st1" "bss st1 = bss st"
    using EvalOperand_frame [OF e] by (simp_all add: evolves_keeps evolves_fields)
  with m s show ?thesis
    by (intro conjI exI [of _ m]) (auto simp: keeps_image_def)
qed

text \<open>
  Claim C8. A \<open>.BSS\<close> directive and a definition \<open>NAME .BSS n\<close> leave every byte of the
  image (and the program counter) as it was and move the BSS pointer by the size: by
  1 .. 32767 for the directive, by the value of the size expression for the definition,
  whose symbol gets the pointer's value before the move. No branch of \<open>DefineLabel\<close>
  writes the image.
\<close>

theorem bss_never_writes_image:
  "(\<forall>q st'. ParseBSSData p st = Inr (q, st') \<longrightarrow>
      ROM st' = ROM st \<and> pc st' = pc st
      \<and> (\<exists>m. 1 \<le> m \<and> m \<le> 32767 \<and> bss st' = int32 (bss st + m)))
   \<and> (\<forall>q val st'. define_bss s p st = Inr (q, val, st') \<longrightarrow>
      ROM st' = ROM st \<and> pc st' = pc st \<and> val = Some (bss st)
      \<and> (\<exists>p1 v st1. EvalOperand FUEL (drop 4 p) 0 st = Inr (p1, v, st1)
            \<and> bss st' = int32 (bss st + v)))
   \<and> (\<forall>q val st'. DefineLabel p Lock st = Inr (q, val, st') \<longrightarrow>
      ROM st' = ROM st \<and> pc st' = pc st)"
proof (intro conjI allI impI)
  fix q st'
  assume a: "ParseBSSData p st = Inr (q, st')"
  from ParseBSSData_result [OF a]
  show "ROM st' = ROM st" "pc st' = pc st"
    "\<exists>m. 1 \<le> m \<and> m \<le> 32767 \<and> bss st' = int32 (bss st + m)"
    by (simp_all add: keeps_image_def)
next
  fix q val st'
  assume a: "define_bss s p st = Inr (q, val, st')"
  from define_bss_result [OF a]
  show "ROM st' = ROM st" "pc st' = pc st" "val = Some (bss st)"
    "\<exists>p1 v st1. EvalOperand FUEL (drop 4 p) 0 st = Inr (p1, v, st1) \<and> bss st' = int32 (bss st + v)"
    by (simp_all add: keeps_image_def)
next
  fix q val st'
  assume a: "DefineLabel p Lock st = Inr (q, val, st')"
  from DefineLabel_keeps [OF a]
  show "ROM st' = ROM st" "pc st' = pc st"
    by (simp_all add: keeps_image_def)
qed

theorem bss_never_writes_image_witness:
  "(\<exists>q st'. ParseBSSData '' 2'' init_state = Inr (q, st')
      \<and> ROM st' = ROM init_state \<and> pc st' = -1 \<and> bss st' = 2)
   \<and> (\<exists>q val st'. DefineLabel ''TXTTAB .BSS 2'' 0 (init_state\<lparr>bss := 0x33a\<rparr>) = Inr (q, val, st')
      \<and> ROM st' = ROM init_state \<and> val = Some 0x33a \<and> bss st' = 0x33c
      \<and> map Name (lab st') = [''TXTTAB''] \<and> map Address (lab st') = [0x33a])"
proof -
  have 1: "case ParseBSSData '' 2'' init_state of
      Inr (q, st') \<Rightarrow> bss st' = 2 \<and> pc st' = -1 | Inl e \<Rightarrow> False"
    by code_simp
  have 2: "case DefineLabel ''TXTTAB .BSS 2'' 0 (init_state\<lparr>bss := 0x33a\<rparr>) of
      Inr (q, val, st') \<Rightarrow> val = Some 0x33a \<and> bss st' = 0x33c
        \<and> map Name (lab st') = [''TXTTAB''] \<and> map Address (lab st') = [0x33a]
    | Inl e \<Rightarrow> False"
    by code_simp
  from 1 obtain q st' where a: "ParseBSSData '' 2'' init_state = Inr (q, st')"
    and b: "bss st' = 2" "pc st' = -1"
    by (auto split: sum.splits)
  from 2 obtain q2 val st2 where
    c: "DefineLabel ''TXTTAB .BSS 2'' 0 (init_state\<lparr>bss := 0x33a\<rparr>) = Inr (q2, val, st2)"
    and d: "val = Some 0x33a" "bss st2 = 0x33c" "map Name (lab st2) = [''TXTTAB'']"
      "map Address (lab st2) = [0x33a]"
    by (auto split: sum.splits)
  have r1: "ROM st' = ROM init_state"
    using bss_never_writes_image [where p = "'' 2''" and st = init_state] a by blast
  have r2: "ROM st2 = ROM init_state"
    using bss_never_writes_image [where p = "''TXTTAB .BSS 2''" and Lock = 0
        and st = "init_state\<lparr>bss := 0x33a\<rparr>"] c
    by auto
  have "\<exists>q st'. ParseBSSData '' 2'' init_state = Inr (q, st')
      \<and> ROM st' = ROM init_state \<and> pc st' = -1 \<and> bss st' = 2"
    using a b r1 by auto
  moreover have "\<exists>q val st'. DefineLabel ''TXTTAB .BSS 2'' 0 (init_state\<lparr>bss := 0x33a\<rparr>) = Inr (q, val, st')
      \<and> ROM st' = ROM init_state \<and> val = Some 0x33a \<and> bss st' = 0x33c
      \<and> map Name (lab st') = [''TXTTAB''] \<and> map Address (lab st') = [0x33a]"
    using c d r2 by auto
  ultimately show ?thesis by (rule conjI)
qed

section \<open>Word data\<close>

lemma ROM_store_result:
  "ROM_store a v st = Inr st' \<Longrightarrow> st' = st\<lparr>ROM := (ROM st)(a := word_of_int v)\<rparr>"
  by (auto simp: ROM_store_def split: if_splits)

lemma store_bytes_result:
  "store_bytes a bs st = Inr st' \<Longrightarrow>
     (\<exists>R. st' = st\<lparr>ROM := R\<rparr>)
     \<and> (\<forall>i < length bs. ROM st' (a + int i) = bs ! i)
     \<and> (\<forall>x. x < a \<or> a + int (length bs) \<le> x \<longrightarrow> ROM st' x = ROM st x)"
proof (induction bs arbitrary: a st)
  case Nil
  then show ?case by (auto intro: exI [of _ "ROM st"])
next
  case (Cons b bs)
  from Cons.prems obtain st1 where s: "ROM_store a (uint b) st = Inr st1"
    and r: "store_bytes (a + 1) bs st1 = Inr st'"
    by (auto simp: bindE_Inr)
  have st1: "st1 = st\<lparr>ROM := (ROM st)(a := b)\<rparr>"
    using ROM_store_result [OF s] by simp
  from Cons.IH [OF r] obtain R where R: "st' = st1\<lparr>ROM := R\<rparr>"
    and I: "\<forall>i < length bs. ROM st' (a + 1 + int i) = bs ! i"
    and O: "\<forall>x. x < a + 1 \<or> a + 1 + int (length bs) \<le> x \<longrightarrow> ROM st' x = ROM st1 x"
    by blast
  have 1: "\<exists>R. st' = st\<lparr>ROM := R\<rparr>"
    using R st1 by auto
  have 2: "ROM st' (a + int i) = (b # bs) ! i" if "i < length (b # bs)" for i
  proof (cases i)
    case 0
    with O st1 show ?thesis by simp
  next
    case (Suc k)
    with that I have "ROM st' (a + 1 + int k) = bs ! k" by simp
    with Suc show ?thesis by (simp add: add.assoc)
  qed
  have 3: "ROM st' x = ROM st x" if "x < a \<or> a + int (length (b # bs)) \<le> x" for x
  proof -
    from that have "ROM st' x = ROM st1 x" using O by auto
    with that st1 show ?thesis by auto
  qed
  from 1 2 3 show ?case by blast
qed

lemma push_byte_Inr: "push_byte buf v = Inr b \<Longrightarrow> b = buf @ [word_of_int v]"
  by (auto simp: push_byte_def split: if_splits)

lemma word_bytes_two: "word_bytes be v = [word_bytes be v ! 0, word_bytes be v ! 1]"
  by (simp add: word_bytes_def)

lemma word_loop_values:
  "word_loop n be p buf st = Inr (q, buf', st') \<Longrightarrow>
     buf' = buf @ map word_of_int (concat (map (word_bytes be) (word_values n p st)))
     \<and> evolves st st'"
proof (induction n arbitrary: p buf st)
  case 0
  then show ?case by simp
next
  case (Suc n)
  show ?case
  proof (cases "p \<noteq> [] \<and> peek p \<noteq> CHR '';''")
    case False
    then have c: "\<not> (p \<noteq> [] \<and> peek p \<noteq> CHR '';'')" .
    have "word_loop (Suc n) be p buf st = Inr (p, buf, st)"
      by (simp only: word_loop.simps c if_False)
    with Suc.prems have "q = p" "buf' = buf" "st' = st" by simp_all
    moreover have "word_values (Suc n) p st = []"
      by (simp only: word_values.simps c if_False)
    ultimately show ?thesis by (simp add: evolves_refl)
  next
    case True
    define F where "F = (\<lambda>(p1, v, st1).
         if v = UNDEF \<and> Pass st1 = MaxPass then Inl (Exit ''Undefined symbol in WORD data'')
         else
           bindE (push_byte buf (word_bytes be v ! 0)) (\<lambda>buf1.
           bindE (push_byte buf1 (word_bytes be v ! 1)) (\<lambda>buf2.
             let p2 = SkipToComma p1 in
             word_loop n be (if peek p2 = CHR '','' then tl p2 else p2) buf2 st1)))"
    have "word_loop (Suc n) be p buf st = bindE (EvalOperand FUEL (SkipSpace p) 0 st) F"
      using True by (simp add: F_def)
    with Suc.prems have "bindE (EvalOperand FUEL (SkipSpace p) 0 st) F = Inr (q, buf', st')"
      by simp
    then obtain x where e0: "EvalOperand FUEL (SkipSpace p) 0 st = Inr x"
      and c00: "F x = Inr (q, buf', st')"
      unfolding bindE_Inr by blast
    note c0 = c00 [unfolded F_def]
    obtain p1 v st1 where x: "x = (p1, v, st1)" by (cases x)
    have e: "EvalOperand FUEL (SkipSpace p) 0 st = Inr (p1, v, st1)"
      using e0 x by simp
    from c0 x obtain buf1 buf2 where
      b1: "push_byte buf (word_bytes be v ! 0) = Inr buf1"
      and b2: "push_byte buf1 (word_bytes be v ! 1) = Inr buf2"
      and r: "word_loop n be (if peek (SkipToComma p1) = CHR '','' then tl (SkipToComma p1)
                else SkipToComma p1) buf2 st1 = Inr (q, buf', st')"
      by (auto simp: bindE_Inr Let_def split: if_splits)
    have buf2: "buf2 = buf @ map word_of_int (word_bytes be v)"
      using push_byte_Inr [OF b1] push_byte_Inr [OF b2]
      by (cases be) (simp_all add: word_bytes_def)
    from Suc.IH [OF r] have
      "buf' = buf2 @ map word_of_int (concat (map (word_bytes be)
          (word_values n (if peek (SkipToComma p1) = CHR '','' then tl (SkipToComma p1)
                else SkipToComma p1) st1)))"
      and ev: "evolves st1 st'"
      by simp_all
    moreover have "word_values (Suc n) p st =
        v # word_values n (if peek (SkipToComma p1) = CHR '','' then tl (SkipToComma p1)
                else SkipToComma p1) st1"
      using True e by simp
    ultimately have "buf' = buf @ map word_of_int (concat (map (word_bytes be) (word_values (Suc n) p st)))"
      using buf2 by simp
    moreover have "evolves st st'"
      using EvalOperand_frame [OF e] ev by (rule evolves_trans)
    ultimately show ?thesis by simp
  qed
qed

lemma nth_concat_pairs:
  assumes "k < length vs"
  shows "concat (map (word_bytes be) vs) ! (2 * k) = word_bytes be (vs ! k) ! 0"
    and "concat (map (word_bytes be) vs) ! (2 * k + 1) = word_bytes be (vs ! k) ! 1"
    and "2 * k + 1 < length (concat (map (word_bytes be) vs))"
  using assms
proof (induction vs arbitrary: k)
  case Nil
  {
    case 1 then show ?case by simp
  next
    case 2 then show ?case by simp
  next
    case 3 then show ?case by simp
  }
next
  case (Cons a vs)
  have w: "word_bytes be a = [word_bytes be a ! 0, word_bytes be a ! 1]"
    by (rule word_bytes_two)
  {
    case 1
    then show ?case
      by (cases k) (use Cons.IH(1) w in \<open>auto simp: nth_append word_bytes_def\<close>)
  next
    case 2
    then show ?case
      by (cases k) (use Cons.IH(2) w in \<open>auto simp: nth_append word_bytes_def\<close>)
  next
    case 3
    then show ?case
      by (cases k) (use Cons.IH(3) w in \<open>auto simp: word_bytes_def\<close>)
  }
qed

lemma emit_data_final:
  assumes "emit_data buf st = Inr st'" and "Pass st = MaxPass"
  shows "\<forall>i < length buf. ROM st' (pc st + int i) = buf ! i"
proof -
  from assms obtain st1 where
    s: "store_bytes (pc st) buf (set_Bytes (int (length buf)) st) = Inr st1"
    and r: "st' = st1\<lparr>pc := int32 (pc st1 + int (length buf))\<rparr>"
    by (auto simp: emit_data_def bindE_Inr)
  from store_bytes_result [OF s] r show ?thesis by simp
qed


lemma and_255_mod: "(v::int) AND 0xff = v mod 256"
proof -
  have "v AND mask 8 = v mod 2 ^ 8"
    by (simp only: take_bit_eq_mask [symmetric] take_bit_eq_mod)
  then show ?thesis by (simp add: mask_eq_exp_minus_1)
qed

lemma c_shr_8_div: "c_shr v 8 = v div 256"
  by (simp add: c_shr_def drop_bit_eq_div)

lemma byte_of_int_uint: "uint (word_of_int v :: byte) = v mod 256"
  by (simp add: uint_word_of_int)

text \<open>
  Claim C7. In the final pass the \<open>k\<close>-th value \<open>v\<close> of a \<open>.WORD\<close> list is stored at
  \<open>pc + 2k\<close> and \<open>pc + 2k + 1\<close> as the bytes \<open>v & 0xff\<close> and \<open>v >> 8\<close>, and for \<open>.BIGW\<close>
  (\<open>bigendian\<close>) in the swapped order; for a 16-bit value these are \<open>v mod 256\<close> and
  \<open>v div 256\<close>.
\<close>

theorem word_data_bytes:
  assumes "ParseWordData p be st = Inr (q, st')" and "Pass st = MaxPass"
    and "k < length (word_values FUEL p st)"
  shows "(\<not> be \<longrightarrow>
            ROM st' (pc st + 2 * int k) = word_of_int (word_values FUEL p st ! k AND 0xff)
          \<and> ROM st' (pc st + 2 * int k + 1) = word_of_int (c_shr (word_values FUEL p st ! k) 8))
       \<and> (be \<longrightarrow>
            ROM st' (pc st + 2 * int k) = word_of_int (c_shr (word_values FUEL p st ! k) 8)
          \<and> ROM st' (pc st + 2 * int k + 1) = word_of_int (word_values FUEL p st ! k AND 0xff))
       \<and> (0 \<le> word_values FUEL p st ! k \<and> word_values FUEL p st ! k \<le> 0xffff \<longrightarrow>
            uint (word_of_int (word_values FUEL p st ! k AND 0xff) :: byte) = word_values FUEL p st ! k mod 256
          \<and> uint (word_of_int (c_shr (word_values FUEL p st ! k) 8) :: byte) = word_values FUEL p st ! k div 256)"
proof -
  define vs where "vs = word_values FUEL p st"
  define v where "v = vs ! k"
  from assms(1) obtain p1 buf st1 where
    w: "word_loop FUEL be p [] st = Inr (p1, buf, st1)"
    and e: "emit_data buf st1 = Inr st'"
    by (auto simp: ParseWordData_def bindE_Inr split: if_splits)
  from word_loop_values [OF w] have
    buf: "buf = map word_of_int (concat (map (word_bytes be) vs))" and ev: "evolves st st1"
    by (simp_all add: vs_def)
  have P: "Pass st1 = MaxPass" and pc: "pc st1 = pc st"
    using ev assms(2) by (simp_all add: evolves_fields)
  have k: "k < length vs" using assms(3) by (simp add: vs_def)
  note N = nth_concat_pairs [OF k, of be]
  have l0: "2 * k < length buf" and l1: "2 * k + 1 < length buf"
    using N(3) by (simp_all add: buf)
  from emit_data_final [OF e P] pc have R: "\<forall>i < length buf. ROM st' (pc st + int i) = buf ! i"
    by simp
  have r0: "ROM st' (pc st + 2 * int k) = word_of_int (word_bytes be v ! 0)"
    using R l0 N(1) by (auto simp: buf v_def dest!: spec [of _ "2 * k"])
  have r1: "ROM st' (pc st + 2 * int k + 1) = word_of_int (word_bytes be v ! 1)"
  proof -
    have a: "pc st + 2 * int k + 1 = pc st + int (2 * k + 1)" by simp
    have "ROM st' (pc st + 2 * int k + 1) = ROM st' (pc st + int (2 * k + 1))"
      by (simp only: a)
    also have "\<dots> = buf ! (2 * k + 1)"
      using R l1 by blast
    also have "\<dots> = word_of_int (word_bytes be v ! 1)"
      using l1 N(2) N(3) by (simp add: buf v_def)
    finally show ?thesis .
  qed
  have m: "0 \<le> v \<and> v \<le> 0xffff \<longrightarrow>
      uint (word_of_int (v AND 0xff) :: byte) = v mod 256
      \<and> uint (word_of_int (c_shr v 8) :: byte) = v div 256"
    by (auto simp: byte_of_int_uint and_255_mod c_shr_8_div)
  from r0 r1 m show ?thesis
    unfolding v_def vs_def by (cases be) (simp_all add: word_bytes_def)
qed

theorem word_data_bytes_witness:
  "\<exists>q st'. ParseWordData '' $1234,LOOP'' False (st_loop 20) = Inr (q, st')
      \<and> word_values FUEL '' $1234,LOOP'' (st_loop 20) = [0x1234, 0x0ffe]
      \<and> ROM st' 0x1000 = 0x34 \<and> ROM st' 0x1001 = 0x12
      \<and> ROM st' 0x1002 = 0xfe \<and> ROM st' 0x1003 = 0x0f \<and> pc st' = 0x1004"
proof -
  have v: "word_values FUEL '' $1234,LOOP'' (st_loop 20) = [0x1234, 0x0ffe]"
    by code_simp
  have "case ParseWordData '' $1234,LOOP'' False (st_loop 20) of
      Inr (q, st') \<Rightarrow> pc st' = 0x1004 | Inl e \<Rightarrow> False"
    by code_simp
  then obtain q st' where r: "ParseWordData '' $1234,LOOP'' False (st_loop 20) = Inr (q, st')"
    and p: "pc st' = 0x1004"
    by (auto split: sum.splits)
  have P: "Pass (st_loop 20) = MaxPass"
    by (simp add: st_loop_facts MaxPass_def MAXPASS_def)
  have "ROM st' 0x1000 = 0x34 \<and> ROM st' 0x1001 = 0x12"
    using word_data_bytes [OF r P, of 0] by (simp add: v st_loop_facts c_shr_8_div)
  moreover have "ROM st' 0x1002 = 0xfe \<and> ROM st' 0x1003 = 0x0f"
    using word_data_bytes [OF r P, of 1] by (simp add: v st_loop_facts c_shr_8_div)
  ultimately show ?thesis using r v p by auto
qed

section \<open>Conditional assembly\<close>

text \<open>
  Claim C6. The header of the source says that the maximum nesting depth is 10, and the
  message of the check says "more than 10". The check \<open>IfLevel > 9\<close> after the
  increment accepts nine nested conditions and ends the run at the tenth. An \<open>#endif\<close>
  without \<open>#if\<close> is fatal, and so is a condition still open at the head of \<open>Pass2\<close>.
\<close>

theorem tenth_nested_condition_is_fatal:
  "(case conditions (replicate 9 ''#if 1'') (init_state\<lparr>Pass := 1\<rparr>) of
      Inr st \<Rightarrow> IfLevel st = 9 \<and> Skipping st = 0 | Inl e \<Rightarrow> False)
   \<and> (case conditions (replicate 10 ''#if 1'') (init_state\<lparr>Pass := 1\<rparr>) of
      Inr st \<Rightarrow> False
    | Inl e \<Rightarrow> e = Exit ''More than 10  #IF or #IFDEF conditions nested'')
   \<and> (case CheckCondition ''#endif'' (init_state\<lparr>Pass := 1\<rparr>) of
      Inr st \<Rightarrow> False | Inl e \<Rightarrow> e = Exit ''endif without if'')
   \<and> (case Pass2_check (init_state\<lparr>Pass := 20, IfLevel := 1\<rparr>) of
      Inr st \<Rightarrow> False | Inl e \<Rightarrow> e = Exit ''Error in conditional assembly: #endif missing'')"
  by code_simp

text \<open>
  \<open>#endif\<close> is looked for where \<open>EvalOperand\<close> has left the pointer: a condition
  followed by \<open>endif\<close> on its line is opened and closed by that line.
\<close>

lemma condition_closed_on_its_line:
  "case CheckCondition ''#if 1 endif'' (init_state\<lparr>Pass := 1\<rparr>) of
     Inr (r, st) \<Rightarrow> r = 1 \<and> IfLevel st = 0 | Inl e \<Rightarrow> False"
  "case CheckCondition ''#ifdef FOO endif'' (init_state\<lparr>Pass := 1\<rparr>) of
     Inr (r, st) \<Rightarrow> r = 1 \<and> IfLevel st = 0 | Inl e \<Rightarrow> False"
  by code_simp+

lemma if_directive_matches:
  "Strncasecmp (''if '' @ e) ''error'' 5 \<noteq> 0"
  "Strncasecmp (''if '' @ e) ''ifdef '' 6 \<noteq> 0"
  "Strncasecmp (''if '' @ e) ''if '' 3 = 0"
  by (simp_all add: eval_nat_numeral peek_def tolower_def isupper_def ord_def)

lemma condition_depth_limit:
  assumes "IfLevel st \<ge> 9"
  shows "CheckCondition (''#if '' @ e) st = Inl (Exit ''More than 10  #IF or #IFDEF conditions nested'')"
  using assms
  by (simp add: CheckCondition_def peek_def SkipSpace_def isspace_def ord_def Let_def
      if_directive_matches [simplified])

section \<open>The pass driver\<close>

lemma pass_lines_Pass:
  assumes "\<forall>l s s'. PL l s = Inr s' \<longrightarrow> Pass s' = Pass s"
  shows "pass_lines PL src st = Inr st' \<Longrightarrow> Pass st' = Pass st"
proof (induction src arbitrary: st)
  case Nil
  then show ?case by simp
next
  case (Cons l ls)
  from Cons.prems obtain st1 where
    a: "PL (chomp l) (st\<lparr>LiNo := LiNo st + 1, Line := chomp l\<rparr>) = Inr st1"
    and b: "pass_lines PL ls st1 = Inr st'"
    by (auto simp: bindE_Inr)
  from assms a have "Pass st1 = Pass st" by fastforce
  with Cons.IH [OF b] show ?case by simp
qed

lemma pass_lines_Inl:
  "pass_lines PL src st = Inl e \<Longrightarrow> \<exists>l s. PL l s = Inl e"
proof (induction src arbitrary: st)
  case Nil
  then show ?case by simp
next
  case (Cons l ls)
  then show ?case by (auto simp: bindE_Inl)
qed

lemma pass2_lines_Pass:
  assumes "\<forall>l s s'. PL l s = Inr s' \<longrightarrow> Pass s' = Pass s"
  shows "pass2_lines PL src st = Inr st' \<Longrightarrow> Pass st' = Pass st"
proof (induction src arbitrary: st)
  case Nil
  then show ?case by simp
next
  case (Cons l ls)
  from Cons.prems obtain st1 where
    a: "PL (chomp l) (st\<lparr>LiNo := LiNo st + 1, Line := chomp l\<rparr>) = Inr st1"
    and b: "(if ErrNum st1 \<ge> ERRMAX then Inr st1 else pass2_lines PL ls st1) = Inr st'"
    by (auto simp: bindE_Inr)
  from assms a have p: "Pass st1 = Pass st" by fastforce
  show ?case
  proof (cases "ErrNum st1 \<ge> ERRMAX")
    case True
    with b p show ?thesis by simp
  next
    case False
    with b have "pass2_lines PL ls st1 = Inr st'" by simp
    from Cons.IH [OF this] p show ?thesis by simp
  qed
qed

lemma pass2_lines_Inl:
  "pass2_lines PL src st = Inl e \<Longrightarrow> \<exists>l s. PL l s = Inl e"
proof (induction src arbitrary: st)
  case Nil
  then show ?case by simp
next
  case (Cons l ls)
  then show ?case by (auto simp: bindE_Inl split: if_splits)
qed

lemma Pass1_Pass:
  assumes "\<forall>l s s'. PL l s = Inr s' \<longrightarrow> Pass s' = Pass s"
    and "Pass1 PL src st = Inr st'"
  shows "Pass st' = Pass st"
  using pass_lines_Pass [OF assms(1)] assms(2) by (fastforce simp: Pass1_def)

lemma Pass2_Pass:
  assumes "\<forall>l s s'. PL l s = Inr s' \<longrightarrow> Pass s' = Pass s"
    and "Pass2 PL src st = Inr st'"
  shows "Pass st' = Pass st"
proof -
  from assms(2) obtain st1 where
    a: "Pass2_check (st\<lparr>pc := -1, bp := 0, Scope := ''Main''\<rparr>) = Inr st1"
    and b: "pass2_lines PL src (st1\<lparr>LiNo := 0\<rparr>) = Inr st'"
    by (auto simp: Pass2_def bindE_Inr)
  from a have "Pass st1 = Pass st" by (auto simp: Pass2_check_def split: if_splits)
  with pass2_lines_Pass [OF assms(1) b] show ?thesis by simp
qed

lemma Pass2_fuel:
  "Pass2 PL src st = Inl Out_Of_Fuel \<Longrightarrow> \<exists>l s. PL l s = Inl Out_Of_Fuel"
  by (auto simp: Pass2_def bindE_Inl Pass2_check_def dest: pass2_lines_Inl split: if_splits)

lemma pass_loop_log:
  assumes "\<forall>l s s'. PL l s = Inr s' \<longrightarrow> Pass s' = Pass s"
  shows "pass_loop n PL src k st = Inr (log, st') \<Longrightarrow> k \<le> MaxPass \<Longrightarrow>
    map fst log = [k .. MaxPass - 1] \<and> Pass st' = MaxPass"
proof (induction n arbitrary: k st log)
  case 0
  then have "k = MaxPass" "log = []" "st' = st\<lparr>Pass := k\<rparr>"
    by (auto split: if_splits)
  then show ?case by simp
next
  case (Suc n)
  show ?case
  proof (cases "k < MaxPass")
    case False
    with Suc.prems have "k = MaxPass" "log = []" "st' = st\<lparr>Pass := k\<rparr>"
      by auto
    then show ?thesis by simp
  next
    case True
    with Suc.prems(1) obtain st1 log1 where
      a: "Pass1 PL src (st\<lparr>Pass := k\<rparr>) = Inr st1"
      and b: "pass_loop n PL src (Pass st1 + 1) st1 = Inr (log1, st')"
      and c: "log = (Pass st1, BOC st1 ! nat (Pass st1 - 1)) # log1"
      by (auto simp: bindE_Inr)
    have p: "Pass st1 = k"
      using Pass1_Pass [OF assms a] by simp
    from Suc.IH [of "k + 1" st1 log1] b p True
    have "map fst log1 = [k + 1 .. MaxPass - 1]" "Pass st' = MaxPass"
      by simp_all
    moreover have "[k .. MaxPass - 1] = k # [k + 1 .. MaxPass - 1]"
      using True by (simp add: upto_rec1)
    ultimately show ?thesis using c p by simp
  qed
qed

lemma pass_loop_fuel:
  assumes "\<forall>l s s'. PL l s = Inr s' \<longrightarrow> Pass s' = Pass s"
  shows "pass_loop n PL src k st = Inl Out_Of_Fuel \<Longrightarrow> nat (MaxPass - k) \<le> n \<Longrightarrow>
    \<exists>l s. PL l s = Inl Out_Of_Fuel"
proof (induction n arbitrary: k st)
  case 0
  then show ?case by (auto split: if_splits)
next
  case (Suc n)
  show ?case
  proof (cases "k < MaxPass")
    case False
    with Suc.prems show ?thesis by simp
  next
    case True
    with Suc.prems(1) consider
      (a) "Pass1 PL src (st\<lparr>Pass := k\<rparr>) = Inl Out_Of_Fuel"
      | (b) st1 where "Pass1 PL src (st\<lparr>Pass := k\<rparr>) = Inr st1"
          "pass_loop n PL src (Pass st1 + 1) st1 = Inl Out_Of_Fuel"
      by (auto simp: bindE_Inl split: prod.splits)
    then show ?thesis
    proof cases
      case a
      then show ?thesis by (auto simp: Pass1_def dest: pass_lines_Inl)
    next
      case b
      have p: "Pass st1 = k"
        using Pass1_Pass [OF assms b(1)] by simp
      from Suc.prems(2) True have "nat (MaxPass - (k + 1)) \<le> n" by simp
      with Suc.IH [of "k + 1" st1] b(2) p show ?thesis by simp
    qed
  qed
qed

text \<open>
  Claim C1, as stated: a pass without label changes is followed by the last pass. For
  an empty source no pass changes a label, and passes 2 to 19 are run all the same.
\<close>

theorem pass_loop_ignores_convergence:
  "(case run_passes (\<lambda>l st. Inr st) [] init_state of
      Inr (log, st') \<Rightarrow>
        log = map (\<lambda>k. (k, 0)) [1 .. 20] \<and> \<not> stops_when_converged log
    | Inl e \<Rightarrow> False)"
  by code_simp

lemma bindE_simps: "bindE (Inl e) f = Inl e" "bindE (Inr x) f = f x"
  by (simp_all add: bindE_def)

lemma fold_bindE_Inl: "fold (\<lambda>k m. bindE m (f k)) ks (Inl e) = Inl e"
  by (induction ks) (simp_all add: bindE_simps)

lemma map_sum_snd_bindE:
  "map_sum (\<lambda>e. e) snd (bindE m (\<lambda>(log, s). Inr (g log s, s))) = map_sum (\<lambda>e. e) snd m"
  by (cases m) (auto simp: bindE_def)

lemma pass_loop_state:
  assumes "\<forall>l s s'. PL l s = Inr s' \<longrightarrow> Pass s' = Pass s"
  shows "k \<le> MaxPass \<Longrightarrow> nat (MaxPass - k) \<le> n \<Longrightarrow>
    map_sum (\<lambda>e. e) snd (pass_loop n PL src k st) =
      bindE (fold (\<lambda>k m. bindE m (\<lambda>s. Pass1 PL src (s\<lparr>Pass := k\<rparr>))) [k .. MaxPass - 1] (Inr st))
        (\<lambda>s. Inr (s\<lparr>Pass := MaxPass\<rparr>))"
proof (induction n arbitrary: k st)
  case 0
  then have "k = MaxPass" by simp
  then show ?case by (simp add: bindE_simps)
next
  case (Suc n)
  show ?case
  proof (cases "k < MaxPass")
    case False
    with Suc.prems have "k = MaxPass" by simp
    then show ?thesis by (simp add: bindE_simps)
  next
    case True
    then have u: "[k .. MaxPass - 1] = k # [k + 1 .. MaxPass - 1]"
      by (simp add: upto_rec1)
    show ?thesis
    proof (cases "Pass1 PL src (st\<lparr>Pass := k\<rparr>)")
      case (Inl e)
      with True show ?thesis
        by (simp add: u fold_bindE_Inl bindE_simps)
    next
      case (Inr s1)
      have p: "Pass s1 = k"
        using Pass1_Pass [OF assms Inr] by simp
      have "map_sum (\<lambda>e. e) snd (pass_loop (Suc n) PL src k st) =
          map_sum (\<lambda>e. e) snd (pass_loop n PL src (k + 1) s1)"
        using True Inr p
        by (simp add: bindE_simps map_sum_snd_bindE)
      also have "\<dots> =
          bindE (fold (\<lambda>k m. bindE m (\<lambda>s. Pass1 PL src (s\<lparr>Pass := k\<rparr>))) [k + 1 .. MaxPass - 1] (Inr s1))
            (\<lambda>s. Inr (s\<lparr>Pass := MaxPass\<rparr>))"
        using True Suc.prems by (intro Suc.IH) simp_all
      finally show ?thesis
        using Inr by (simp add: u bindE_simps)
    qed
  qed
qed

text \<open>
  Claim C1, amended. Whatever the lines do (as long as they leave the variable \<open>Pass\<close>
  alone, which only \<open>main\<close> assigns), the driver runs \<open>Pass1\<close> with
  \<open>Pass = 1, 2, ..., MaxPass - 1\<close>, each on the state the pass before has left, and then
  \<open>Pass2\<close> with \<open>Pass = MaxPass\<close>: the state it returns is the state of that sequence,
  and it ends with an error exactly when one of these passes does. The label changes
  counted in \<open>BOC\<close> have no part in it, and the loop itself never fails to end.
\<close>

theorem pass_driver_runs_all_passes:
  assumes "\<forall>l s s'. PL l s = Inr s' \<longrightarrow> Pass s' = Pass s"
  shows "map_sum (\<lambda>e. e) snd (run_passes PL src st) =
           bindE (fold (\<lambda>k m. bindE m (\<lambda>s. Pass1 PL src (s\<lparr>Pass := k\<rparr>))) [1 .. MaxPass - 1] (Inr st))
             (\<lambda>s. Pass2 PL src (s\<lparr>Pass := MaxPass\<rparr>))
       \<and> (\<forall>log st'. run_passes PL src st = Inr (log, st') \<longrightarrow>
            map fst log = [1 .. MaxPass] \<and> Pass st' = MaxPass)"
proof
  have "map_sum (\<lambda>e. e) snd (run_passes PL src st) =
      bindE (map_sum (\<lambda>e. e) snd (pass_loop (nat MAXPASS) PL src 1 st)) (Pass2 PL src)"
    by (cases "pass_loop (nat MAXPASS) PL src 1 st")
      (auto simp: run_passes_def bindE_def split: sum.splits)
  also have "map_sum (\<lambda>e. e) snd (pass_loop (nat MAXPASS) PL src 1 st) =
      bindE (fold (\<lambda>k m. bindE m (\<lambda>s. Pass1 PL src (s\<lparr>Pass := k\<rparr>))) [1 .. MaxPass - 1] (Inr st))
        (\<lambda>s. Inr (s\<lparr>Pass := MaxPass\<rparr>))"
    by (rule pass_loop_state [OF assms]) (simp_all add: MaxPass_def MAXPASS_def)
  finally show "map_sum (\<lambda>e. e) snd (run_passes PL src st) =
      bindE (fold (\<lambda>k m. bindE m (\<lambda>s. Pass1 PL src (s\<lparr>Pass := k\<rparr>))) [1 .. MaxPass - 1] (Inr st))
        (\<lambda>s. Pass2 PL src (s\<lparr>Pass := MaxPass\<rparr>))"
    by (simp add: bindE_def split: sum.splits)
next
  show "\<forall>log st'. run_passes PL src st = Inr (log, st') \<longrightarrow>
      map fst log = [1 .. MaxPass] \<and> Pass st' = MaxPass"
  proof (intro allI impI)
    fix log st'
    assume r: "run_passes PL src st = Inr (log, st')"
    then obtain log1 st1 where
      a: "pass_loop (nat MAXPASS) PL src 1 st = Inr (log1, st1)"
      and b: "Pass2 PL src st1 = Inr st'"
      and c: "log = log1 @ [(Pass st', BOC st' ! nat (Pass st' - 1))]"
      by (auto simp: run_passes_def bindE_Inr)
    have "(1::int) \<le> MaxPass" by (simp add: MaxPass_def MAXPASS_def)
    from pass_loop_log [OF assms a this] have l: "map fst log1 = [1 .. MaxPass - 1]"
      and p: "Pass st1 = MaxPass"
      by simp_all
    from Pass2_Pass [OF assms b] p have p': "Pass st' = MaxPass" by simp
    have "[1 .. MaxPass] = [1 .. MaxPass - 1] @ [MaxPass]"
      by (simp add: MaxPass_def MAXPASS_def upto_rec2)
    with l c p' show "map fst log = [1 .. MaxPass] \<and> Pass st' = MaxPass" by simp
  qed
qed

theorem pass_driver_runs_all_passes_witness:
  "\<exists>log st'. run_passes (\<lambda>l st. Inr (st\<lparr>ErrNum := ErrNum st + 1\<rparr>)) [''NOP'', ''RTS''] init_state
        = Inr (log, st')
     \<and> map fst log = [1, 2, 3, 4, 5, 6, 7, 8, 9, 10, 11, 12, 13, 14, 15, 16, 17, 18, 19, 20]
     \<and> Pass st' = 20 \<and> ErrNum st' = 39 \<and> LiNo st' = 1"
proof -
  have "case run_passes (\<lambda>l st. Inr (st\<lparr>ErrNum := ErrNum st + 1\<rparr>)) [''NOP'', ''RTS''] init_state of
      Inr (log, st') \<Rightarrow> True | Inl e \<Rightarrow> False"
    by code_simp
  then obtain log st' where
    r: "run_passes (\<lambda>l st. Inr (st\<lparr>ErrNum := ErrNum st + 1\<rparr>)) [''NOP'', ''RTS''] init_state
        = Inr (log, st')"
    by (auto split: sum.splits)
  have h: "\<forall>l s s'. (\<lambda>l st. Inr (st\<lparr>ErrNum := ErrNum st + 1\<rparr>)) l s = Inr s' \<longrightarrow> Pass s' = Pass s"
    by auto
  note T = pass_driver_runs_all_passes [OF h, of "[''NOP'', ''RTS'']" init_state]
  from T r have "map fst log = [1 .. MaxPass]" "Pass st' = MaxPass"
    by blast+
  moreover have "[1 .. MaxPass] = [1, 2, 3, 4, 5, 6, 7, 8, 9, 10, 11, 12, 13, 14, 15, 16, 17, 18, 19, 20]"
    by (simp add: MaxPass_def MAXPASS_def upto_rec1)
  moreover have "case bindE (fold (\<lambda>k m. bindE m (\<lambda>s.
        Pass1 (\<lambda>l st. Inr (st\<lparr>ErrNum := ErrNum st + 1\<rparr>)) [''NOP'', ''RTS''] (s\<lparr>Pass := k\<rparr>)))
          [1 .. MaxPass - 1] (Inr init_state))
        (\<lambda>s. Pass2 (\<lambda>l st. Inr (st\<lparr>ErrNum := ErrNum st + 1\<rparr>)) [''NOP'', ''RTS'']
           (s\<lparr>Pass := MaxPass\<rparr>)) of
      Inr s \<Rightarrow> ErrNum s = 39 \<and> LiNo s = 1 | Inl e \<Rightarrow> False"
    by code_simp
  with T [THEN conjunct1, symmetric] r have "ErrNum st' = 39 \<and> LiNo st' = 1"
    by simp
  ultimately show ?thesis using r by (auto simp: MaxPass_def MAXPASS_def)
qed

section \<open>Frames of code generation\<close>

lemma returns_Inl: "returns (Inl e) Q"
  by (simp add: returns_def)

lemma returns_Inr: "returns (Inr y) Q \<longleftrightarrow> Q y"
  by (simp add: returns_def)

lemma returns_bind: "returns (bindE m f) Q \<longleftrightarrow> returns m (\<lambda>x. returns (f x) Q)"
  by (cases m) (simp_all add: returns_def bindE_def)

lemma returnsD: "returns m Q \<Longrightarrow> m = Inr y \<Longrightarrow> Q y"
  by (simp add: returns_def)

lemma returns_EvalOperand:
  "(\<And>q v st'. evolves st st' \<Longrightarrow> Q (q, v, st')) \<Longrightarrow> returns (EvalOperand n p pr st) Q"
  unfolding returns_def by (auto dest: EvalOperand_frame)

lemma returns_advance:
  "(k \<le> length p \<Longrightarrow> Q (drop k p)) \<Longrightarrow> returns (advance k p) Q"
  by (simp add: advance_def returns_Inl returns_Inr)

lemmas returns_simps = returns_Inl returns_Inr returns_bind Let_def

lemma evolves_il: "evolves (st\<lparr>il := x\<rparr>) st' \<Longrightarrow> keeps_image st st'"
  by (drule evolves_keeps) (simp add: keeps_image_def)

lemma gen_impl_returns: "returns (gen_impl p st) (\<lambda>(p1, o1, v, st'). keeps_image st st')"
  unfolding gen_impl_def
  by (auto simp: returns_simps keeps_image_def intro!: returns_advance)

lemma gen_bits_returns: "returns (gen_bits p st) (\<lambda>(p1, o1, v, st'). keeps_image st st')"
  unfolding gen_bits_def
  apply (simp add: returns_simps)
  apply (rule returns_advance)
  apply (rule returns_EvalOperand)
  apply (clarsimp simp: returns_simps)
  apply (rule returns_EvalOperand)
  apply (clarsimp simp: returns_simps)
  apply (drule evolves_il)
  apply (drule evolves_keeps)
  apply (simp add: keeps_image_def)
  done

lemma gen_rela_returns: "returns (gen_rela p st) (\<lambda>(p1, o1, v, st'). keeps_image st st')"
  unfolding gen_rela_def
  apply (simp add: returns_simps)
  apply (rule returns_advance)
  apply (rule returns_EvalOperand)
  apply (clarsimp simp: returns_simps)
  apply (drule evolves_il)
  apply simp
  done

lemma gen_relo_returns: "returns (gen_relo p st) (\<lambda>(p1, o1, v, st'). keeps_image st st')"
  unfolding gen_relo_def
  apply (simp add: returns_simps)
  apply (rule returns_advance)
  apply (rule returns_EvalOperand)
  apply (clarsimp simp: returns_simps)
  apply (drule evolves_il)
  apply simp
  done

lemma gen_other_returns: "returns (gen_other S p st) (\<lambda>(p1, o1, v, st'). keeps_image st st')"
  unfolding gen_other_def
  apply (simp add: returns_simps)
  apply (rule returns_advance)
  apply (simp add: returns_def keeps_image_def split_beta)
  done


text \<open>The branch with the lock of the opcode: the only store before the final pass.\<close>

lemma branch_select_keeps_aux: "keeps_image st (snd (branch_select v0 st))"
  by (simp add: branch_select_def Let_def keeps_image_def)

lemma branch_select_keeps: "branch_select v0 st = (v, st') \<Longrightarrow> keeps_image st st'"
  using branch_select_keeps_aux [where st = st and ?v0.0 = v0] by simp

lemma branch_select_oc: "oc (snd (branch_select v0 st)) = branch_opcode v0 st"
  by (simp add: branch_select_def branch_opcode_def Let_def int32_def UNDEF_def)

lemma branch_lock_frame:
  "branch_lock st = Inr st' \<Longrightarrow>
     pc st' = pc st \<and> Pass st' = Pass st
     \<and> (if Pass st = MaxPass - 1 then ROM st' = (ROM st)(pc st := word_of_int (oc st))
        else ROM st' = ROM st)"
  by (auto simp: branch_lock_def dest!: ROM_store_result split: if_splits)

lemma branch_locked_returns: "returns (branch_locked v st) (\<lambda>(v', st'). keeps_image st st')"
  unfolding branch_locked_def ROM_load_def
  by (simp add: returns_simps keeps_image_def)

lemma gen_rela_opt_frame:
  assumes "gen_rela_opt p st = Inr (p1, o1, v, st')"
  shows "pc st' = pc st \<and> Pass st' = Pass st
    \<and> (\<exists>oa t st1. EvalOperand FUEL (drop 3 p) 0 (st\<lparr>il := 2\<rparr>) = Inr (oa, t, st1)
          \<and> (if Pass st = MaxPass - 1
               then ROM st' = (ROM st)(pc st := word_of_int (branch_opcode t st))
               else ROM st' = ROM st))"
proof -
  from assms obtain p3 x where a1: "advance 3 p = Inr p3"
    and a0: "EvalOperand FUEL p3 0 (st\<lparr>il := 2\<rparr>) = Inr x"
    and r0: "(case x of (oa, v0, st1) \<Rightarrow> let (v1, st2) = branch_select v0 st1 in
      bindE (branch_lock st2) (\<lambda>st3.
      bindE (branch_locked v1 st3) (\<lambda>(v2, st4). Inr (p, oa, v2, st4)))) = Inr (p1, o1, v, st')"
    by (auto simp: gen_rela_opt_def bindE_Inr)
  from a1 have p3: "p3 = drop 3 p"
    by (auto simp: advance_def split: if_splits)
  obtain oa v0 st1 where x: "x = (oa, v0, st1)" by (cases x)
  obtain v1 st2 where b: "branch_select v0 st1 = (v1, st2)"
    by (cases "branch_select v0 st1")
  from r0 x b have "bindE (branch_lock st2) (\<lambda>st3.
      bindE (branch_locked v1 st3) (\<lambda>(v2, st4). Inr (p, oa, v2, st4))) = Inr (p1, o1, v, st')"
    by simp
  then obtain st3 y where c: "branch_lock st2 = Inr st3"
    and d0: "branch_locked v1 st3 = Inr y" and y: "snd y = st'"
    by (auto simp: bindE_Inr split_beta)
  have d: "keeps_image st3 st'"
    using returnsD [OF branch_locked_returns d0] y by (simp add: split_beta)
  note e = EvalOperand_frame [OF a0 [unfolded x]]
  have k1: "keeps_image st st1"
    using e by (rule evolves_il)
  have k: "keeps_image st st2"
    using k1 branch_select_keeps [OF b] by (simp add: keeps_image_def)
  have "oc st1 = oc st" "pc st1 = pc st"
    using evolves_fields [OF e] by simp_all
  then have "branch_opcode v0 st1 = branch_opcode v0 st"
    by (simp add: branch_opcode_def)
  with branch_select_oc [of v0 st1] b have o: "oc st2 = branch_opcode v0 st"
    by simp
  from branch_lock_frame [OF c] d k o
  have "pc st' = pc st \<and> Pass st' = Pass st
      \<and> (if Pass st = MaxPass - 1
          then ROM st' = (ROM st)(pc st := word_of_int (branch_opcode v0 st))
          else ROM st' = ROM st)"
    by (auto simp: keeps_image_def)
  with a0 x p3 show ?thesis by blast
qed

lemma returns_if:
  "(c \<Longrightarrow> returns a Q) \<Longrightarrow> (\<not> c \<Longrightarrow> returns b Q) \<Longrightarrow> returns (if c then a else b) Q"
  by simp

lemma keeps_snd_if:
  "(c \<Longrightarrow> keeps_image st (snd a)) \<Longrightarrow> (\<not> c \<Longrightarrow> keeps_image st (snd b))
    \<Longrightarrow> keeps_image st (snd (if c then a else b))"
  by simp

lemma gen_narrow_keeps_aux: "keeps_image st (snd (gen_narrow v w st))"
  unfolding gen_narrow_def
  by (intro keeps_snd_if) (simp_all add: keeps_image_def)

lemma gen_operand_returns: "returns (gen_operand o0 v0 st) (\<lambda>(o1, v1, st'). keeps_image st st')"
  unfolding gen_operand_def
  apply (simp add: returns_simps keeps_image_refl)
  apply (intro conjI impI)
  apply (rule returns_EvalOperand; drule evolves_keeps; clarsimp simp: returns_simps split_beta;
      insert gen_narrow_keeps_aux; simp add: keeps_image_def)+
  done

lemma gen_sp_keeps_aux: "keeps_image st (snd (gen_sp o1 st))"
  unfolding gen_sp_def
  by (intro keeps_snd_if) (simp_all add: keeps_image_def)

lemma gen_sp_keeps: "gen_sp o1 st = (o2, st') \<Longrightarrow> keeps_image st st'"
  using gen_sp_keeps_aux [where st = st and ?o1.0 = o1] by simp

lemma AdjustOpcode_returns: "returns (AdjustOpcode v st) (\<lambda>(v1, st'). keeps_image st st')"
  unfolding AdjustOpcode_def Let_def
  by (intro returns_if) (simp_all add: returns_Inl returns_Inr keeps_image_def)

lemma gen_emit_not_final: "Pass st \<noteq> MaxPass \<Longrightarrow> gen_emit v st = Inr st' \<Longrightarrow> st' = st"
  by (simp add: gen_emit_def)

lemma gen_advance_ROM: "ROM (gen_advance st) = ROM st" "Pass (gen_advance st) = Pass st"
  by (simp_all add: gen_advance_def)

lemma gen_mode_frame:
  assumes "gen_mode S p st = Inr (p1, o1, v, st')"
  shows "pc st' = pc st \<and> Pass st' = Pass st
    \<and> (if Pass st = MaxPass - 1 \<and> am st = AM_Rela \<and> BranchOpt st \<and> CPU_Type st = CPU_45GS02
        then \<exists>oa t st1. EvalOperand FUEL (drop 3 p) 0 (st\<lparr>il := 2\<rparr>) = Inr (oa, t, st1)
               \<and> ROM st' = (ROM st)(pc st := word_of_int (branch_opcode t st))
        else ROM st' = ROM st)"
proof (cases "am st = AM_Rela \<and> BranchOpt st \<and> CPU_Type st = CPU_45GS02")
  case T: True
  with assms have "gen_rela_opt p st = Inr (p1, o1, v, st')"
    by (simp add: gen_mode_def AM_Rela_def AM_Impl_def AM_Bits_def)
  from gen_rela_opt_frame [OF this] obtain oa t st1 where
    f: "pc st' = pc st" "Pass st' = Pass st"
    and e: "EvalOperand FUEL (drop 3 p) 0 (st\<lparr>il := 2\<rparr>) = Inr (oa, t, st1)"
    and r: "if Pass st = MaxPass - 1
     then ROM st' = (ROM st)(pc st := word_of_int (branch_opcode t st))
     else ROM st' = ROM st"
    by blast
  show ?thesis
  proof (cases "Pass st = MaxPass - 1")
    case True
    with r have "ROM st' = (ROM st)(pc st := word_of_int (branch_opcode t st))"
      by simp
    with e have "\<exists>oa t st1. EvalOperand FUEL (drop 3 p) 0 (st\<lparr>il := 2\<rparr>) = Inr (oa, t, st1)
        \<and> ROM st' = (ROM st)(pc st := word_of_int (branch_opcode t st))"
      by blast
    with f T True show ?thesis by simp
  next
    case False
    with r f show ?thesis by simp
  qed
next
  case False
  have "returns (gen_mode S p st) (\<lambda>(p1, o1, v, st'). keeps_image st st')"
    using False
    by (auto simp: gen_mode_def gen_impl_returns gen_bits_returns gen_rela_returns
        gen_relo_returns gen_other_returns)
  from returnsD [OF this assms] have "keeps_image st st'" by simp
  with False show ?thesis by (auto simp: keeps_image_def)
qed

lemma GenerateCode_frame:
  assumes "GenerateCode S p st = Inr (q, st')" and "Pass st \<noteq> MaxPass"
  shows "if Pass st = MaxPass - 1 \<and> am st = AM_Rela \<and> BranchOpt st \<and> CPU_Type st = CPU_45GS02
        then \<exists>oa t st1. EvalOperand FUEL (drop 3 p) 0 (st\<lparr>il := 2\<rparr>) = Inr (oa, t, st1)
               \<and> ROM st' = (ROM st)(pc st := word_of_int (branch_opcode t st))
        else ROM st' = ROM st"
proof -
  from assms(1) have g: "bindE (gen_mode S p st) (\<lambda>(p1, o0, v0, st1).
       bindE (gen_operand o0 v0 st1) (\<lambda>(o1, v1, st2).
         let (o2, st3) = gen_sp o1 st2 in
         if o2 \<noteq> [] \<and> peek o2 \<noteq> CHR '';'' then Inl (Exit ''Operand syntax error'')
         else
           bindE (AdjustOpcode v1 st3) (\<lambda>(v2, st4).
           bindE (gen_emit v2 st4) (\<lambda>st5. Inr (p1, gen_advance st5))))) = Inr (q, st')"
    by (simp add: GenerateCode_def split: if_splits)
  then obtain x where m0: "gen_mode S p st = Inr x"
    and r1: "(case x of (p1, o0, v0, st1) \<Rightarrow>
       bindE (gen_operand o0 v0 st1) (\<lambda>(o1, v1, st2).
         let (o2, st3) = gen_sp o1 st2 in
         if o2 \<noteq> [] \<and> peek o2 \<noteq> CHR '';'' then Inl (Exit ''Operand syntax error'')
         else
           bindE (AdjustOpcode v1 st3) (\<lambda>(v2, st4).
           bindE (gen_emit v2 st4) (\<lambda>st5. Inr (p1, gen_advance st5))))) = Inr (q, st')"
    by (auto simp: bindE_Inr)
  obtain p1 o0 v0 st1 where x: "x = (p1, o0, v0, st1)" by (cases x)
  note m = m0 [unfolded x]
  from r1 x obtain y where o0: "gen_operand o0 v0 st1 = Inr y"
    and r2: "(case y of (o1, v1, st2) \<Rightarrow>
         let (o2, st3) = gen_sp o1 st2 in
         if o2 \<noteq> [] \<and> peek o2 \<noteq> CHR '';'' then Inl (Exit ''Operand syntax error'')
         else
           bindE (AdjustOpcode v1 st3) (\<lambda>(v2, st4).
           bindE (gen_emit v2 st4) (\<lambda>st5. Inr (p1, gen_advance st5)))) = Inr (q, st')"
    by (auto simp: bindE_Inr)
  obtain o1 v1 st2 where y: "y = (o1, v1, st2)" by (cases y)
  obtain o2 st3 where sp: "gen_sp o1 st2 = (o2, st3)" by (cases "gen_sp o1 st2")
  from r2 y sp have "bindE (AdjustOpcode v1 st3) (\<lambda>(v2, st4).
           bindE (gen_emit v2 st4) (\<lambda>st5. Inr (p1, gen_advance st5))) = Inr (q, st')"
    by (simp split: if_splits)
  then obtain z where a0: "AdjustOpcode v1 st3 = Inr z"
    and r3: "(case z of (v2, st4) \<Rightarrow>
           bindE (gen_emit v2 st4) (\<lambda>st5. Inr (p1, gen_advance st5))) = Inr (q, st')"
    by (auto simp: bindE_Inr)
  obtain v2 st4 where z: "z = (v2, st4)" by (cases z)
  from r3 z obtain st5 where e: "gen_emit v2 st4 = Inr st5" and f: "st' = gen_advance st5"
    by (auto simp: bindE_Inr)
  note M = gen_mode_frame [OF m]
  have k1: "keeps_image st1 st2"
    using returnsD [OF gen_operand_returns o0] y by simp
  have k3: "keeps_image st3 st4"
    using returnsD [OF AdjustOpcode_returns a0] z by simp
  have k: "keeps_image st1 st4"
    using k1 gen_sp_keeps [OF sp] k3 by (simp add: keeps_image_def)
  have "Pass st4 \<noteq> MaxPass"
    using M k assms(2) by (simp add: keeps_image_def)
  from gen_emit_not_final [OF this e] have "st5 = st4" .
  with f k have R: "ROM st' = ROM st1"
    by (simp add: gen_advance_ROM keeps_image_def)
  show ?thesis
  proof (cases "Pass st = MaxPass - 1 \<and> am st = AM_Rela \<and> BranchOpt st \<and> CPU_Type st = CPU_45GS02")
    case True
    with M obtain oa t s where
      "EvalOperand FUEL (drop 3 p) 0 (st\<lparr>il := 2\<rparr>) = Inr (oa, t, s)"
      "ROM st1 = (ROM st)(pc st := word_of_int (branch_opcode t st))"
      by auto
    with R have "\<exists>oa t st1. EvalOperand FUEL (drop 3 p) 0 (st\<lparr>il := 2\<rparr>) = Inr (oa, t, st1)
        \<and> ROM st' = (ROM st)(pc st := word_of_int (branch_opcode t st))"
      by auto
    with True show ?thesis by simp
  next
    case False
    then have c: "(Pass st = MaxPass - 1 \<and> am st = AM_Rela \<and> BranchOpt st
        \<and> CPU_Type st = CPU_45GS02) = False"
      by simp
    from M R show ?thesis unfolding c by simp
  qed
qed


section \<open>Data directives before the final pass\<close>

lemma returns_cons: "returns m P \<Longrightarrow> (\<And>y. P y \<Longrightarrow> Q y) \<Longrightarrow> returns m Q"
  by (simp add: returns_def)

lemma returns_triv: "(\<And>y. Q y) \<Longrightarrow> returns m Q"
  by (simp add: returns_def)

lemma emit_data_not_final:
  "Pass st \<noteq> MaxPass \<Longrightarrow> emit_data buf st = Inr st' \<Longrightarrow> ROM st' = ROM st \<and> Pass st' = Pass st"
  by (auto simp: emit_data_def bindE_Inr set_Bytes_def)

lemma ParseWordData_not_final:
  assumes "ParseWordData p be st = Inr (q, st')" and "Pass st \<noteq> MaxPass"
  shows "ROM st' = ROM st \<and> Pass st' = Pass st"
proof -
  from assms(1) obtain x where w0: "word_loop FUEL be p [] st = Inr x"
    and r: "(case x of (p1, buf, st1) \<Rightarrow>
      if length buf < 1 then Inl (Exit ''Missing WORD data'')
      else bindE (emit_data buf st1) (\<lambda>st2. Inr (p1, st2))) = Inr (q, st')"
    by (auto simp: ParseWordData_def bindE_Inr)
  obtain p1 buf st1 where x: "x = (p1, buf, st1)" by (cases x)
  from r x have e: "emit_data buf st1 = Inr st'"
    by (auto simp: bindE_Inr split: if_splits)
  from word_loop_values [OF w0 [unfolded x]] have "keeps_image st st1"
    by (simp add: evolves_keeps)
  with emit_data_not_final [OF _ e] assms(2) show ?thesis
    by (simp add: keeps_image_def)
qed

lemma byte_item_step_returns:
  "returns (byte_item_step cs p buf st) (\<lambda>(p1, b, st'). evolves st st')"
  unfolding byte_item_step_def Let_def
  apply (intro returns_if)
      apply (simp_all add: returns_simps evolves_refl split_beta)
   apply (rule returns_triv, simp)
  apply (rule returns_EvalOperand)
  apply (simp add: returns_simps)
  apply (intro impI returns_triv)
  apply simp
  done

lemma byte_loop_returns:
  "returns (byte_loop n cs p buf st) (\<lambda>(p1, b, st'). evolves st st')"
proof (induction n arbitrary: p buf st)
  case 0
  show ?case by (simp add: returns_Inl)
next
  case (Suc n)
  show ?case
    apply (simp add: returns_simps evolves_refl)
    apply (intro impI)
    apply (rule returns_cons [OF byte_item_step_returns])
    apply clarsimp
    apply (intro conjI impI; rule returns_cons [OF Suc.IH]; clarsimp; erule (1) evolves_trans)
    done
qed

lemma ParseByteData_not_final:
  assumes "ParseByteData p cs st = Inr (q, st')" and "Pass st \<noteq> MaxPass"
  shows "ROM st' = ROM st \<and> Pass st' = Pass st"
proof -
  from assms(1) obtain x where w0: "byte_loop FUEL cs p [] st = Inr x"
    and r: "(case x of (p1, buf, st1) \<Rightarrow>
      if length buf < 1 then Inl (Exit ''Missing byte data'')
      else bindE (emit_data buf st1) (\<lambda>st2. Inr (p1, st2))) = Inr (q, st')"
    by (auto simp: ParseByteData_def bindE_Inr)
  obtain p1 buf st1 where x: "x = (p1, buf, st1)" by (cases x)
  from r x have e: "emit_data buf st1 = Inr st'"
    by (auto simp: bindE_Inr split: if_splits)
  from returnsD [OF byte_loop_returns w0] x have "keeps_image st st1"
    by (simp add: evolves_keeps)
  with emit_data_not_final [OF _ e] assms(2) show ?thesis
    by (simp add: keeps_image_def)
qed

lemma ParseFillData_not_final:
  assumes "Pass st \<noteq> MaxPass"
  shows "returns (ParseFillData p st) (\<lambda>(q, st'). ROM st' = ROM st \<and> Pass st' = Pass st)"
  unfolding ParseFillData_def
  apply (rule returns_bind [THEN iffD2])
  apply (rule returns_EvalOperand)
  apply (drule evolves_keeps)
  apply (simp add: returns_simps split: option.splits)
  apply (intro impI allI)
  apply (rule returns_EvalOperand)
  apply (drule evolves_keeps)
  apply (use assms in \<open>simp add: returns_simps keeps_image_def\<close>)
  done


section \<open>The other data directives before the final pass\<close>

lemma ParseHex4Data_not_final:
  assumes "Pass st \<noteq> MaxPass"
  shows "returns (ParseHex4Data p st) (\<lambda>(q, st'). ROM st' = ROM st \<and> Pass st' = Pass st)"
  unfolding ParseHex4Data_def
  apply (rule returns_bind [THEN iffD2])
  apply (rule returns_EvalOperand)
  apply (drule evolves_keeps)
  apply (use assms in \<open>simp add: returns_simps keeps_image_def\<close>)
  done

lemma ParseDec4Data_not_final:
  assumes "Pass st \<noteq> MaxPass"
  shows "returns (ParseDec4Data p st) (\<lambda>(q, st'). ROM st' = ROM st \<and> Pass st' = Pass st)"
  unfolding ParseDec4Data_def
  apply (rule returns_bind [THEN iffD2])
  apply (rule returns_EvalOperand)
  apply (drule evolves_keeps)
  apply (use assms in \<open>simp add: returns_simps keeps_image_def\<close>)
  done

lemma ParseBitData_not_final:
  assumes "Pass st \<noteq> MaxPass"
  shows "returns (ParseBitData p st) (\<lambda>(q, st'). ROM st' = ROM st \<and> Pass st' = Pass st)"
  unfolding ParseBitData_def
  apply (rule returns_bind [THEN iffD2])
  apply (rule returns_triv)
  apply (use assms in \<open>simp add: returns_simps split_beta\<close>)
  done

lemma ParseLitData_not_final:
  assumes "Pass st \<noteq> MaxPass"
  shows "returns (ParseLitData p st) (\<lambda>(q, st'). ROM st' = ROM st \<and> Pass st' = Pass st)"
  unfolding ParseLitData_def
  apply (rule returns_bind [THEN iffD2])
  apply (rule returns_triv)
  apply (use assms in \<open>simp add: returns_simps split_beta\<close>)
  done

lemma ParseLongData_not_final:
  assumes "Pass st \<noteq> MaxPass"
  shows "returns (ParseLongData rest p l st) (\<lambda>(q, st'). ROM st' = ROM st \<and> Pass st' = Pass st)"
  unfolding ParseLongData_def Let_def
  apply (rule returns_bind [THEN iffD2])
  apply (rule returns_triv)
  apply (use assms in \<open>simp add: returns_simps split_beta\<close>)
  done

lemma ParseRealData_not_final:
  assumes "Pass st \<noteq> MaxPass"
  shows "returns (ParseRealData D p st) (\<lambda>(q, st'). ROM st' = ROM st \<and> Pass st' = Pass st)"
  unfolding ParseRealData_def Let_def
  apply (rule returns_bind [THEN iffD2])
  apply (rule returns_triv)
  apply (use assms in \<open>simp add: returns_simps split_beta split: option.splits\<close>)
  done

section \<open>Writes to the image\<close>

text \<open>
  Claim C2, a counterexample. \<open>BNE LOOP\<close> at \<open>$1000\<close> in pass 19, the pass before the
  final pass 20, with the automatic branch optimisation of the 45GS02: the image holds 0
  at \<open>$1000\<close> before the line and the opcode \<open>$d0\<close> after it.
\<close>

theorem penultimate_pass_writes_image:
  "Pass (st_branch_opt 19) = MaxPass - 1 \<and> ROM (st_branch_opt 19) 0x1000 = 0
   \<and> (case GenerateCode no_split ''BNE LOOP'' (st_branch_opt 19) of
         Inr (q, st') \<Rightarrow> ROM st' 0x1000 = 0xd0 \<and> Pass st' = 19
       | Inl e \<Rightarrow> False)"
  by code_simp

text \<open>
  Claim C2, as the code has it. The image is written by \<open>GenerateCode\<close> and by the data
  directives \<open>.WORD\<close> and \<open>.BIGW\<close>, \<open>.BYTE\<close> (with \<open>.PET\<close> and \<open>.DISP\<close>), \<open>.FILL\<close>, \<open>.QUAD\<close>,
  \<open>.REAL\<close>, \<open>.HEX4\<close>, \<open>.DEC4\<close>, \<open>.BITS\<close> and \<open>.LITS\<close>. In a pass that is not the final one
  each of them leaves the image as it was, with one exception: in the pass before the
  final one, a relative branch under the automatic branch optimisation stores its
  opcode at the program counter, the opcode of the short branch when the displacement
  to the value \<open>t\<close> of its operand fits a signed byte and that of the long branch
  otherwise, and changes no other byte.
\<close>

theorem image_written_in_final_pass_or_branch_lock:
  assumes "Pass st \<noteq> MaxPass"
  shows "(\<forall>S p q st'. GenerateCode S p st = Inr (q, st') \<longrightarrow>
           (if Pass st = MaxPass - 1 \<and> am st = AM_Rela \<and> BranchOpt st \<and> CPU_Type st = CPU_45GS02
            then \<exists>oa t st1. EvalOperand FUEL (drop 3 p) 0 (st\<lparr>il := 2\<rparr>) = Inr (oa, t, st1)
                   \<and> ROM st' = (ROM st)(pc st := word_of_int (branch_opcode t st))
            else ROM st' = ROM st))
       \<and> (\<forall>p be q st'. ParseWordData p be st = Inr (q, st') \<longrightarrow> ROM st' = ROM st)
       \<and> (\<forall>p cs q st'. ParseByteData p cs st = Inr (q, st') \<longrightarrow> ROM st' = ROM st)
       \<and> (\<forall>p q st'. ParseFillData p st = Inr (q, st') \<longrightarrow> ROM st' = ROM st)
       \<and> (\<forall>rest p l q st'. ParseLongData rest p l st = Inr (q, st') \<longrightarrow> ROM st' = ROM st)
       \<and> (\<forall>D p q st'. ParseRealData D p st = Inr (q, st') \<longrightarrow> ROM st' = ROM st)
       \<and> (\<forall>p q st'. ParseHex4Data p st = Inr (q, st') \<longrightarrow> ROM st' = ROM st)
       \<and> (\<forall>p q st'. ParseDec4Data p st = Inr (q, st') \<longrightarrow> ROM st' = ROM st)
       \<and> (\<forall>p q st'. ParseBitData p st = Inr (q, st') \<longrightarrow> ROM st' = ROM st)
       \<and> (\<forall>p q st'. ParseLitData p st = Inr (q, st') \<longrightarrow> ROM st' = ROM st)"
proof (intro conjI allI impI)
  fix S p q st'
  assume "GenerateCode S p st = Inr (q, st')"
  from GenerateCode_frame [OF this assms]
  show "if Pass st = MaxPass - 1 \<and> am st = AM_Rela \<and> BranchOpt st \<and> CPU_Type st = CPU_45GS02
        then \<exists>oa t st1. EvalOperand FUEL (drop 3 p) 0 (st\<lparr>il := 2\<rparr>) = Inr (oa, t, st1)
               \<and> ROM st' = (ROM st)(pc st := word_of_int (branch_opcode t st))
        else ROM st' = ROM st" .
next
  fix p be q st'
  assume "ParseWordData p be st = Inr (q, st')"
  from ParseWordData_not_final [OF this assms] show "ROM st' = ROM st" by simp
next
  fix p cs q st'
  assume "ParseByteData p cs st = Inr (q, st')"
  from ParseByteData_not_final [OF this assms] show "ROM st' = ROM st" by simp
next
  fix p q st'
  assume "ParseFillData p st = Inr (q, st')"
  from returnsD [OF ParseFillData_not_final [OF assms] this] show "ROM st' = ROM st" by simp
next
  fix rest p l q st'
  assume "ParseLongData rest p l st = Inr (q, st')"
  from returnsD [OF ParseLongData_not_final [OF assms] this] show "ROM st' = ROM st" by simp
next
  fix D p q st'
  assume "ParseRealData D p st = Inr (q, st')"
  from returnsD [OF ParseRealData_not_final [OF assms] this] show "ROM st' = ROM st" by simp
next
  fix p q st'
  assume "ParseHex4Data p st = Inr (q, st')"
  from returnsD [OF ParseHex4Data_not_final [OF assms] this] show "ROM st' = ROM st" by simp
next
  fix p q st'
  assume "ParseDec4Data p st = Inr (q, st')"
  from returnsD [OF ParseDec4Data_not_final [OF assms] this] show "ROM st' = ROM st" by simp
next
  fix p q st'
  assume "ParseBitData p st = Inr (q, st')"
  from returnsD [OF ParseBitData_not_final [OF assms] this] show "ROM st' = ROM st" by simp
next
  fix p q st'
  assume "ParseLitData p st = Inr (q, st')"
  from returnsD [OF ParseLitData_not_final [OF assms] this] show "ROM st' = ROM st" by simp
qed


theorem image_written_in_final_pass_or_branch_lock_witness:
  "Pass (st_branch_opt 5) \<noteq> MaxPass
   \<and> (\<exists>q st'. GenerateCode no_split ''BNE LOOP'' (st_branch_opt 5) = Inr (q, st')
        \<and> ROM st' = ROM (st_branch_opt 5))
   \<and> (\<exists>q st'. ParseWordData '' LOOP'' False (st_branch_opt 5) = Inr (q, st')
        \<and> ROM st' = ROM (st_branch_opt 5))
   \<and> (\<exists>q st'. ParseByteData '' 1,2'' ASCII (st_branch_opt 5) = Inr (q, st')
        \<and> ROM st' = ROM (st_branch_opt 5))
   \<and> (\<exists>q st'. ParseFillData '' 3 (0)'' (st_branch_opt 5) = Inr (q, st')
        \<and> ROM st' = ROM (st_branch_opt 5))
   \<and> (\<exists>q st'. ParseLongData [] '' $01020304'' 4 (st_branch_opt 5) = Inr (q, st')
        \<and> ROM st' = ROM (st_branch_opt 5))
   \<and> (\<exists>q st'. ParseRealData (\<lambda>p. None) '' $8149000000'' (st_branch_opt 5) = Inr (q, st')
        \<and> ROM st' = ROM (st_branch_opt 5))
   \<and> (\<exists>q st'. ParseHex4Data '' $12ab'' (st_branch_opt 5) = Inr (q, st')
        \<and> ROM st' = ROM (st_branch_opt 5))
   \<and> (\<exists>q st'. ParseDec4Data '' 42'' (st_branch_opt 5) = Inr (q, st')
        \<and> ROM st' = ROM (st_branch_opt 5))
   \<and> (\<exists>q st'. ParseBitData '' *.*.*.*.'' (st_branch_opt 5) = Inr (q, st')
        \<and> ROM st' = ROM (st_branch_opt 5))
   \<and> (\<exists>q st'. ParseLitData '' *.*.*.*.'' (st_branch_opt 5) = Inr (q, st')
        \<and> ROM st' = ROM (st_branch_opt 5))
   \<and> Pass (st_branch_opt 19) \<noteq> MaxPass
   \<and> (\<exists>q st'. GenerateCode no_split ''BNE LOOP'' (st_branch_opt 19) = Inr (q, st')
        \<and> ROM st' = (ROM (st_branch_opt 19))(0x1000 := 0xd0))
   \<and> (\<exists>q st'. GenerateCode no_split ''BNE $2000'' (st_branch_opt 19) = Inr (q, st')
        \<and> ROM st' = (ROM (st_branch_opt 19))(0x1000 := 0xd3))"
proof -
  have P: "Pass (st_branch_opt 5) \<noteq> MaxPass"
    by code_simp
  have c: "(Pass (st_branch_opt 5) = MaxPass - 1 \<and> am (st_branch_opt 5) = AM_Rela
      \<and> BranchOpt (st_branch_opt 5) \<and> CPU_Type (st_branch_opt 5) = CPU_45GS02) = False"
    by code_simp
  note T = image_written_in_final_pass_or_branch_lock [OF P]
  have "case GenerateCode no_split ''BNE LOOP'' (st_branch_opt 5) of
      Inr x \<Rightarrow> True | Inl e \<Rightarrow> False"
    by code_simp
  then obtain q1 s1 where 1: "GenerateCode no_split ''BNE LOOP'' (st_branch_opt 5) = Inr (q1, s1)"
    by (auto split: sum.splits)
  have "case ParseWordData '' LOOP'' False (st_branch_opt 5) of
      Inr x \<Rightarrow> True | Inl e \<Rightarrow> False"
    by code_simp
  then obtain q2 s2 where 2: "ParseWordData '' LOOP'' False (st_branch_opt 5) = Inr (q2, s2)"
    by (auto split: sum.splits)
  have "case ParseByteData '' 1,2'' ASCII (st_branch_opt 5) of
      Inr x \<Rightarrow> True | Inl e \<Rightarrow> False"
    by code_simp
  then obtain q3 s3 where 3: "ParseByteData '' 1,2'' ASCII (st_branch_opt 5) = Inr (q3, s3)"
    by (auto split: sum.splits)
  have "case ParseFillData '' 3 (0)'' (st_branch_opt 5) of
      Inr x \<Rightarrow> True | Inl e \<Rightarrow> False"
    by code_simp
  then obtain q4 s4 where 4: "ParseFillData '' 3 (0)'' (st_branch_opt 5) = Inr (q4, s4)"
    by (auto split: sum.splits)
  have "case ParseLongData [] '' $01020304'' 4 (st_branch_opt 5) of
      Inr x \<Rightarrow> True | Inl e \<Rightarrow> False"
    by code_simp
  then obtain q5 s5 where 5: "ParseLongData [] '' $01020304'' 4 (st_branch_opt 5) = Inr (q5, s5)"
    by (auto split: sum.splits)
  have "case ParseRealData (\<lambda>p. None) '' $8149000000'' (st_branch_opt 5) of
      Inr x \<Rightarrow> True | Inl e \<Rightarrow> False"
    by code_simp
  then obtain q6 s6 where
    6: "ParseRealData (\<lambda>p. None) '' $8149000000'' (st_branch_opt 5) = Inr (q6, s6)"
    by (auto split: sum.splits)
  have "case ParseHex4Data '' $12ab'' (st_branch_opt 5) of
      Inr x \<Rightarrow> True | Inl e \<Rightarrow> False"
    by code_simp
  then obtain q7 s7 where 7: "ParseHex4Data '' $12ab'' (st_branch_opt 5) = Inr (q7, s7)"
    by (auto split: sum.splits)
  have "case ParseDec4Data '' 42'' (st_branch_opt 5) of
      Inr x \<Rightarrow> True | Inl e \<Rightarrow> False"
    by code_simp
  then obtain q8 s8 where 8: "ParseDec4Data '' 42'' (st_branch_opt 5) = Inr (q8, s8)"
    by (auto split: sum.splits)
  have "case ParseBitData '' *.*.*.*.'' (st_branch_opt 5) of
      Inr x \<Rightarrow> True | Inl e \<Rightarrow> False"
    by code_simp
  then obtain q9 s9 where 9: "ParseBitData '' *.*.*.*.'' (st_branch_opt 5) = Inr (q9, s9)"
    by (auto split: sum.splits)
  have "case ParseLitData '' *.*.*.*.'' (st_branch_opt 5) of
      Inr x \<Rightarrow> True | Inl e \<Rightarrow> False"
    by code_simp
  then obtain q10 s10 where 10: "ParseLitData '' *.*.*.*.'' (st_branch_opt 5) = Inr (q10, s10)"
    by (auto split: sum.splits)
  note T1 = T [THEN conjunct1, rule_format] and R1 = T [THEN conjunct2]
  note T2 = R1 [THEN conjunct1, rule_format] and R2 = R1 [THEN conjunct2]
  note T3 = R2 [THEN conjunct1, rule_format] and R3 = R2 [THEN conjunct2]
  note T4 = R3 [THEN conjunct1, rule_format] and R4 = R3 [THEN conjunct2]
  note T5 = R4 [THEN conjunct1, rule_format] and R5 = R4 [THEN conjunct2]
  note T6 = R5 [THEN conjunct1, rule_format] and R6 = R5 [THEN conjunct2]
  note T7 = R6 [THEN conjunct1, rule_format] and R7 = R6 [THEN conjunct2]
  note T8 = R7 [THEN conjunct1, rule_format] and R8 = R7 [THEN conjunct2]
  note T9 = R8 [THEN conjunct1, rule_format] and T10 = R8 [THEN conjunct2, rule_format]
  have r1: "ROM s1 = ROM (st_branch_opt 5)"
    using T1 [OF 1] unfolding c by simp
  note r2 = T2 [OF 2] and r3 = T3 [OF 3] and r4 = T4 [OF 4] and r5 = T5 [OF 5]
    and r6 = T6 [OF 6] and r7 = T7 [OF 7] and r8 = T8 [OF 8] and r9 = T9 [OF 9]
    and r10 = T10 [OF 10]
  have P19: "Pass (st_branch_opt 19) \<noteq> MaxPass"
    by code_simp
  have c19: "(Pass (st_branch_opt 19) = MaxPass - 1 \<and> am (st_branch_opt 19) = AM_Rela
      \<and> BranchOpt (st_branch_opt 19) \<and> CPU_Type (st_branch_opt 19) = CPU_45GS02) = True"
    by code_simp
  have pc19: "pc (st_branch_opt 19) = 0x1000"
    by (simp add: st_branch_opt_def st_branch_def st_loop_def)
  note T19 = image_written_in_final_pass_or_branch_lock [OF P19, THEN conjunct1, rule_format,
      unfolded c19 if_True pc19]
  have "case GenerateCode no_split ''BNE LOOP'' (st_branch_opt 19) of
      Inr x \<Rightarrow> True | Inl e \<Rightarrow> False"
    by code_simp
  then obtain q11 s11 where
    11: "GenerateCode no_split ''BNE LOOP'' (st_branch_opt 19) = Inr (q11, s11)"
    by (auto split: sum.splits)
  have "case EvalOperand FUEL (drop 3 ''BNE LOOP'') 0 ((st_branch_opt 19)\<lparr>il := 2\<rparr>) of
      Inr (oa, t, s) \<Rightarrow> branch_opcode t (st_branch_opt 19) = 0xd0 | Inl e \<Rightarrow> False"
    by code_simp
  with T19 [OF 11] have r11: "ROM s11 = (ROM (st_branch_opt 19))(0x1000 := 0xd0)"
    by auto
  have "case GenerateCode no_split ''BNE $2000'' (st_branch_opt 19) of
      Inr x \<Rightarrow> True | Inl e \<Rightarrow> False"
    by code_simp
  then obtain q12 s12 where
    12: "GenerateCode no_split ''BNE $2000'' (st_branch_opt 19) = Inr (q12, s12)"
    by (auto split: sum.splits)
  have "case EvalOperand FUEL (drop 3 ''BNE $2000'') 0 ((st_branch_opt 19)\<lparr>il := 2\<rparr>) of
      Inr (oa, t, s) \<Rightarrow> branch_opcode t (st_branch_opt 19) = 0xd3 | Inl e \<Rightarrow> False"
    by code_simp
  with T19 [OF 12] have r12: "ROM s12 = (ROM (st_branch_opt 19))(0x1000 := 0xd3)"
    by auto
  show ?thesis
    apply (intro conjI)
    apply (rule P)
    apply (rule exI, rule exI, rule conjI [OF 1 r1])
    apply (rule exI, rule exI, rule conjI [OF 2 r2])
    apply (rule exI, rule exI, rule conjI [OF 3 r3])
    apply (rule exI, rule exI, rule conjI [OF 4 r4])
    apply (rule exI, rule exI, rule conjI [OF 5 r5])
    apply (rule exI, rule exI, rule conjI [OF 6 r6])
    apply (rule exI, rule exI, rule conjI [OF 7 r7])
    apply (rule exI, rule exI, rule conjI [OF 8 r8])
    apply (rule exI, rule exI, rule conjI [OF 9 r9])
    apply (rule exI, rule exI, rule conjI [OF 10 r10])
    apply (rule P19)
    apply (rule exI, rule exI, rule conjI [OF 11 r11])
    apply (rule exI, rule exI, rule conjI [OF 12 r12])
    done
qed

text \<open>
  Nothing keeps a line from storing to an address that holds a byte of the same pass:
  \<open>.BYTE 1\<close> at \<open>$1000\<close>, \<open>* = $1000\<close> and \<open>.BYTE 2\<close> in the final pass.
\<close>

lemma image_address_written_twice:
  "case ParseByteData '' 1'' ASCII (st_loop 20) of
     Inl e \<Rightarrow> False
   | Inr (q1, s1) \<Rightarrow> ROM s1 0x1000 = 1 \<and> Pass s1 = MaxPass \<and>
       (case SetPC ''* = $1000'' s1 of
          Inl e \<Rightarrow> False
        | Inr (q2, s2) \<Rightarrow>
            (case ParseByteData '' 2'' ASCII s2 of
               Inl e \<Rightarrow> False
             | Inr (q3, s3) \<Rightarrow> ROM s3 0x1000 = 2 \<and> Pass s3 = MaxPass))"
  by code_simp

text \<open>The bytes the other data directives store in the final pass, on examples.\<close>

lemma data_directive_examples:
  "case ParseHex4Data '' $12ab'' (st_loop 20) of Inl e \<Rightarrow> False
   | Inr (q, s) \<Rightarrow> map (ROM s) [0x1000, 0x1001, 0x1002, 0x1003] = [0x31, 0x32, 0x41, 0x42]
       \<and> pc s = 0x1004"
  "case ParseDec4Data '' 42'' (st_loop 20) of Inl e \<Rightarrow> False
   | Inr (q, s) \<Rightarrow> map (ROM s) [0x1000, 0x1001, 0x1002, 0x1003] = [0x20, 0x20, 0x34, 0x32]
       \<and> pc s = 0x1004"
  "case ParseBitData '' *.*.*.*.'' (st_loop 20) of Inl e \<Rightarrow> False
   | Inr (q, s) \<Rightarrow> ROM s 0x1000 = 0xaa \<and> pc s = 0x1001"
  "case ParseLitData '' *.*.*.*.'' (st_loop 20) of Inl e \<Rightarrow> False
   | Inr (q, s) \<Rightarrow> ROM s 0x1000 = 0x55 \<and> pc s = 0x1001"
  "case ParseLongData [] '' $01020304'' 4 (st_loop 20) of Inl e \<Rightarrow> False
   | Inr (q, s) \<Rightarrow> map (ROM s) [0x1000, 0x1001, 0x1002, 0x1003] = [1, 2, 3, 4] \<and> pc s = 0x1004"
  "case ParseLongData [] '' 258'' 4 (st_loop 20) of Inl e \<Rightarrow> False
   | Inr (q, s) \<Rightarrow> map (ROM s) [0x1000, 0x1001, 0x1002, 0x1003] = [0, 0, 1, 2] \<and> pc s = 0x1004"
  "case ParseRealData (\<lambda>p. None) '' $8149000000'' (st_loop 20) of Inl e \<Rightarrow> False
   | Inr (q, s) \<Rightarrow> map (ROM s) [0x1000, 0x1001, 0x1002, 0x1003, 0x1004] = [0x81, 0x49, 0, 0, 0]
       \<and> pc s = 0x1005"
  "case ParseRealData (\<lambda>p. Some [0x82, 0x49, 0x0f, 0xda, 0xa2, 0x80]) ''4 3.14159'' (st_loop 20) of
     Inl e \<Rightarrow> False
   | Inr (q, s) \<Rightarrow> map (ROM s) [0x1000, 0x1001, 0x1002, 0x1003] = [0x82, 0x49, 0x0f, 0xdb]
       \<and> pc s = 0x1004"
  by code_simp+

section \<open>Relative branches in the final pass\<close>

lemma store_bytes_ok:
  "0 \<le> a \<Longrightarrow> a + int (length bs) \<le> ROM_SIZE \<Longrightarrow> \<exists>st'. store_bytes a bs st = Inr st'"
proof (induction bs arbitrary: a st)
  case Nil
  show ?case by simp
next
  case (Cons b bs)
  from Cons.prems have "ROM_store a (uint b) st = Inr (st\<lparr>ROM := (ROM st)(a := word_of_int (uint b))\<rparr>)"
    by (simp add: ROM_store_def)
  moreover from Cons.prems
  have "\<exists>st'. store_bytes (a + 1) bs (st\<lparr>ROM := (ROM st)(a := word_of_int (uint b))\<rparr>) = Inr st'"
    by (intro Cons.IH) simp_all
  ultimately show ?case by (simp add: bindE_def)
qed

lemma and_ffff_ff: "((v::int) AND 0xffff) AND 0xff = v AND 0xff"
proof -
  have "(0xffff::int) AND 0xff = 0xff" by simp
  then show ?thesis by (simp only: and.assoc)
qed

lemma and_ffff_bounds: "0 \<le> (v::int) AND 0xffff" "(v::int) AND 0xffff \<le> 0xffff"
  by simp_all

text \<open>
  The second part of \<open>GenerateCode\<close> for a relative branch in the final pass: the
  branch has no operand string and no index in \<open>Gen\<close>; its length is 2 with a
  displacement of one byte, or 3 with a displacement of 16 bits.
\<close>

lemma branch_tail:
  assumes am: "am st = AM_Rela" and P: "Pass st = MaxPass" and Op: "Operand st = []"
    and G: "GenIndex st = -1" and pc: "0 \<le> pc st" "pc st \<le> 0xffff"
    and v: "il st = 2 \<and> -128 \<le> v \<and> v \<le> 127 \<or> il st = 3 \<and> 0 \<le> v \<and> v \<le> 0xffff"
    and o1: "o1 = [] \<or> peek o1 = CHR '';''"
  shows "\<exists>st'. bindE (gen_operand o1 v st) (\<lambda>(o1, v1, st2).
         let (o2, st3) = gen_sp o1 st2 in
         if o2 \<noteq> [] \<and> peek o2 \<noteq> CHR '';'' then Inl (Exit ''Operand syntax error'')
         else
           bindE (AdjustOpcode v1 st3) (\<lambda>(v2, st4).
           bindE (gen_emit v2 st4) (\<lambda>st5. Inr (p1, gen_advance st5)))) = Inr (p1, st')
       \<and> ROM st' (pc st + 1) = word_of_int (v AND 0xff)"
proof -
  define st4 where "st4 = st\<lparr>NegNeg := False, PreNop := False\<rparr>"
  have 1: "gen_operand o1 v st = Inr (o1, v, st)"
    using am Op by (simp add: gen_operand_def AM_Rela_def AM_Impl_def)
  have 2: "gen_sp o1 st = (o1, st)"
    using am by (simp add: gen_sp_def AM_Rela_def AM_Indy_def)
  have 3: "AdjustOpcode v st = Inr (v, st4)"
    using am G
    by (simp add: AdjustOpcode_def st4_def JMPIndex_def JSRIndex_def BITIndex_def STYIndex_def
        PHWIndex_def AM_Rela_def AM_Indz_def AM_Impl_def AM_Dpag_def AM_Abso_def)
  have u: "v \<noteq> UNDEF"
    using v by (auto simp: UNDEF_def)
  have f: "il st4 = il st" "pc st4 = pc st" "Pass st4 = Pass st" "oc st4 = oc st"
    "bp st4 = bp st" "NegNeg st4 = False" "PreNop st4 = False"
    by (simp_all add: st4_def)
  have b: "\<not> (v AND 0xff) < -128" "\<not> 255 < (v AND 0xff)"
    using pos_mod_bound [of 256 v] pos_mod_sign [of 256 v] unfolding and_255_mod
    by linarith+
  have 4: "gen_emit v st4 = store_bytes (pc st) (map word_of_int (insn_bytes v st4)) st4"
    using P u v b f by (auto simp: gen_emit_def Let_def)
  have 5: "length (insn_bytes v st4) \<le> 3" "1 < length (insn_bytes v st4)"
    "insn_bytes v st4 ! 1 = v AND 0xff"
    using v f by (auto simp: insn_bytes_def Let_def)
  have "\<exists>st5. store_bytes (pc st) (map word_of_int (insn_bytes v st4)) st4 = Inr st5"
    using pc 5 by (intro store_bytes_ok) (simp_all add: ROM_SIZE_def)
  then obtain st5 where 6: "store_bytes (pc st) (map word_of_int (insn_bytes v st4)) st4 = Inr st5"
    by blast
  from store_bytes_result [OF 6]
  have "\<forall>i < length (map word_of_int (insn_bytes v st4) :: byte list).
      ROM st5 (pc st + int i) = map word_of_int (insn_bytes v st4) ! i"
    by blast
  from this [rule_format, of 1] 5 have 7: "ROM st5 (pc st + 1) = word_of_int (v AND 0xff)"
    by simp
  have "bindE (gen_operand o1 v st) (\<lambda>(o1, v1, st2).
         let (o2, st3) = gen_sp o1 st2 in
         if o2 \<noteq> [] \<and> peek o2 \<noteq> CHR '';'' then Inl (Exit ''Operand syntax error'')
         else
           bindE (AdjustOpcode v1 st3) (\<lambda>(v2, st4).
           bindE (gen_emit v2 st4) (\<lambda>st5. Inr (p1, gen_advance st5)))) = Inr (p1, gen_advance st5)"
    using o1 by (auto simp: 1 2 3 4 6 bindE_def)
  with 7 show ?thesis
    by (simp add: gen_advance_ROM)
qed


text \<open>The first part of \<open>GenerateCode\<close> for a relative branch in the final pass.\<close>

lemma branch_head:
  assumes am: "am st = AM_Rela" and P: "Pass st = MaxPass" and Op: "Operand st = []"
    and G: "GenIndex st = -1" and pc: "0 \<le> pc st" "pc st \<le> 0xffff"
    and p: "3 \<le> length p"
    and e: "EvalOperand FUEL (drop 3 p) 0 (st\<lparr>il := 2\<rparr>) = Inr (o1, t, st1)"
    and d: "-128 \<le> t - (pc st + 2)" "t - (pc st + 2) \<le> 127"
  shows "\<exists>v st2. gen_mode S p st = Inr (p, o1, v, st2)
      \<and> am st2 = AM_Rela \<and> Pass st2 = MaxPass \<and> Operand st2 = [] \<and> GenIndex st2 = -1
      \<and> pc st2 = pc st
      \<and> (il st2 = 2 \<and> v = t - (pc st + 2) \<or> il st2 = 3 \<and> v = (t - (pc st + 2)) AND 0xffff)"
proof -
  from EvalOperand_frame [OF e] obtain L where st1: "st1 = st\<lparr>il := 2, lab := L\<rparr>"
    by (auto simp: evolves_def only_lab_def)
  define v where "v = t - (pc st + 2)"
  have "in_int32 v"
    using d by (simp add: in_int32_def v_def)
  then have iv: "int32 (t - (pc st + 2)) = v"
    unfolding v_def by (rule int32_id)
  have tu: "t \<noteq> UNDEF"
    using d pc by (auto simp: UNDEF_def)
  have vu: "v \<noteq> UNDEF"
    using d by (auto simp: UNDEF_def v_def)
  have r: "\<not> (v < -128 \<or> v > 127)"
    using d by (simp add: v_def)
  have a: "advance 3 p = Inr (drop 3 p)"
    using p by (simp add: advance_def)
  show ?thesis
  proof (cases "BranchOpt st \<and> CPU_Type st = CPU_45GS02")
    case False
    then have "gen_mode S p st = gen_rela p st"
      using am by (auto simp: gen_mode_def AM_Rela_def AM_Impl_def AM_Bits_def)
    moreover have "gen_rela p st = Inr (p, o1, v, st1)"
      using P tu vu r by (simp add: gen_rela_def a e bindE_def Let_def st1 iv)
    ultimately show ?thesis
      using am P Op G by (simp add: st1 v_def)
  next
    case True
    then have m: "gen_mode S p st = gen_rela_opt p st"
      using am by (auto simp: gen_mode_def AM_Rela_def AM_Impl_def AM_Bits_def)
    have s: "branch_select t st1 = (v, st1)"
      using tu vu r by (simp add: branch_select_def Let_def st1 iv)
    have l: "branch_lock st1 = Inr st1"
      using P by (simp add: branch_lock_def st1 MaxPass_def MAXPASS_def)
    define c where "c = uint (ROM st (pc st))"
    have ld: "ROM_load (pc st1) st1 = Inr c"
      using pc by (simp add: ROM_load_def ROM_SIZE_def st1 c_def)
    have k: "branch_locked v st1 =
        (if c AND 3 = 3 then Inr (v AND 0xffff, st1\<lparr>oc := c, il := 3\<rparr>)
         else Inr (v, st1\<lparr>oc := c, il := 2\<rparr>))"
      using P vu ld by (simp add: branch_locked_def bindE_def st1)
    have g: "gen_rela_opt p st =
        (if c AND 3 = 3 then Inr (p, o1, v AND 0xffff, st1\<lparr>oc := c, il := 3\<rparr>)
         else Inr (p, o1, v, st1\<lparr>oc := c, il := 2\<rparr>))"
      by (simp add: gen_rela_opt_def a e s l k bindE_def)
    show ?thesis
      using am P Op G by (simp add: m g st1 v_def)
  qed
qed

text \<open>
  Claim C5. A relative branch in the final pass, at a program counter inside the 64 KiB
  and with an operand whose value \<open>t\<close> gives a displacement \<open>t - (pc + 2)\<close> in -128 .. 127:
  \<open>GenerateCode\<close> returns, and the byte of the image at \<open>pc + 1\<close> is
  \<open>(t - (pc + 2)) & 0xff\<close>; it is 0 for a branch to the instruction that follows.
\<close>

theorem relative_branch_offset:
  assumes "am st = AM_Rela" and "Pass st = MaxPass" and "Operand st = []"
    and "GenIndex st = -1" and "0 \<le> pc st" and "pc st \<le> 0xffff"
    and "3 \<le> length p"
    and "EvalOperand FUEL (drop 3 p) 0 (st\<lparr>il := 2\<rparr>) = Inr (o1, t, st1)"
    and "o1 = [] \<or> peek o1 = CHR '';''"
    and "-128 \<le> t - (pc st + 2)" and "t - (pc st + 2) \<le> 127"
  shows "\<exists>q st'. GenerateCode S p st = Inr (q, st')
      \<and> uint (ROM st' (pc st + 1)) = (t - (pc st + 2)) AND 0xff
      \<and> (t = pc st + 2 \<longrightarrow> ROM st' (pc st + 1) = 0)"
proof -
  from branch_head [OF assms(1-8) assms(10,11)] obtain v st2 where
    m: "gen_mode S p st = Inr (p, o1, v, st2)"
    and f: "am st2 = AM_Rela" "Pass st2 = MaxPass" "Operand st2 = []" "GenIndex st2 = -1"
    and pc2: "pc st2 = pc st"
    and v: "il st2 = 2 \<and> v = t - (pc st + 2) \<or> il st2 = 3 \<and> v = (t - (pc st + 2)) AND 0xffff"
    by blast
  have v': "il st2 = 2 \<and> -128 \<le> v \<and> v \<le> 127 \<or> il st2 = 3 \<and> 0 \<le> v \<and> v \<le> 0xffff"
    using v assms(10,11) and_ffff_bounds [of "t - (pc st + 2)"] by auto
  have lo: "v AND 0xff = (t - (pc st + 2)) AND 0xff"
    using v and_ffff_ff [of "t - (pc st + 2)"] by auto
  from branch_tail [OF f _ _ v' assms(9), of p] assms(5,6) pc2 obtain st' where
    r: "bindE (gen_operand o1 v st2) (\<lambda>(o1, v1, st2).
         let (o2, st3) = gen_sp o1 st2 in
         if o2 \<noteq> [] \<and> peek o2 \<noteq> CHR '';'' then Inl (Exit ''Operand syntax error'')
         else
           bindE (AdjustOpcode v1 st3) (\<lambda>(v2, st4).
           bindE (gen_emit v2 st4) (\<lambda>st5. Inr (p, gen_advance st5)))) = Inr (p, st')"
    and b: "ROM st' (pc st + 1) = word_of_int (v AND 0xff)"
    by auto
  have g: "GenerateCode S p st = Inr (p, st')"
    using assms(5) r by (simp add: GenerateCode_def m bindE_def)
  have "uint (ROM st' (pc st + 1)) = (v AND 0xff) mod 256"
    unfolding b by (rule byte_of_int_uint)
  also have "\<dots> = ((t - (pc st + 2)) AND 0xff) mod 256"
    by (simp only: lo)
  also have "\<dots> = (t - (pc st + 2)) AND 0xff"
    by (simp add: and_255_mod)
  finally have u: "uint (ROM st' (pc st + 1)) = (t - (pc st + 2)) AND 0xff" .
  have z: "ROM st' (pc st + 1) = 0" if "t = pc st + 2"
    unfolding b lo using that by simp
  from g u z show ?thesis
    by blast
qed


lemma st_branch_facts:
  "am (st_branch k) = AM_Rela" "Pass (st_branch k) = k" "Operand (st_branch k) = []"
  "GenIndex (st_branch k) = -1" "pc (st_branch k) = 0x1000"
  by (simp_all add: st_branch_def st_loop_def init_state_def)

theorem relative_branch_offset_witness:
  "(\<exists>q st'. GenerateCode no_split ''BNE LOOP'' (st_branch 20) = Inr (q, st')
      \<and> uint (ROM st' 0x1001) = 0xfc)
   \<and> (\<exists>q st'. GenerateCode no_split ''BNE $1002'' (st_branch 20) = Inr (q, st')
      \<and> ROM st' 0x1001 = 0)"
proof -
  have P: "Pass (st_branch 20) = MaxPass"
    by (simp add: st_branch_facts MaxPass_def MAXPASS_def)
  have "case EvalOperand FUEL (drop 3 ''BNE LOOP'') 0 ((st_branch 20)\<lparr>il := 2\<rparr>) of
      Inr (q, v, s) \<Rightarrow> q = [] \<and> v = 0xffe | Inl e \<Rightarrow> False"
    by code_simp
  then obtain s1 where
    1: "EvalOperand FUEL (drop 3 ''BNE LOOP'') 0 ((st_branch 20)\<lparr>il := 2\<rparr>) = Inr ([], 0xffe, s1)"
    by (auto split: sum.splits)
  have "case EvalOperand FUEL (drop 3 ''BNE $1002'') 0 ((st_branch 20)\<lparr>il := 2\<rparr>) of
      Inr (q, v, s) \<Rightarrow> q = [] \<and> v = 0x1002 | Inl e \<Rightarrow> False"
    by code_simp
  then obtain s2 where
    2: "EvalOperand FUEL (drop 3 ''BNE $1002'') 0 ((st_branch 20)\<lparr>il := 2\<rparr>) = Inr ([], 0x1002, s2)"
    by (auto split: sum.splits)
  have m: "(-4::int) AND 0xff = 0xfc"
    by (simp add: and_255_mod)
  have "\<exists>q st'. GenerateCode no_split ''BNE LOOP'' (st_branch 20) = Inr (q, st')
      \<and> uint (ROM st' 0x1001) = 0xfc"
    using relative_branch_offset [where S = no_split, OF st_branch_facts(1) P st_branch_facts(3,4) _ _ _ 1]
    by (simp add: st_branch_facts m)
  moreover have "\<exists>q st'. GenerateCode no_split ''BNE $1002'' (st_branch 20) = Inr (q, st')
      \<and> ROM st' 0x1001 = 0"
    using relative_branch_offset [where S = no_split, OF st_branch_facts(1) P st_branch_facts(3,4) _ _ _ 2]
    by (auto simp: st_branch_facts)
  ultimately show ?thesis by (rule conjI)
qed

end
